(* ===== verification/Formicary_Prelude.thy ===== *)
theory Formicary_Prelude
  imports Main "HOL-Library.AList" "HOL-Library.Char_ord" "HOL-Library.List_Lexorder"
begin

text \<open>
  Shared vocabulary of the development: the collections of lemmas the component proofs
  draw on, Go strings, Go maps, Go's 64-bit integers, and the result type of fallible
  operations.

  A Go \<open>map[K]V\<close> is an association list with distinct keys.  \<open>mget\<close>, \<open>mset\<close> and \<open>mdel\<close>
  are \<open>m[k]\<close>, \<open>m[k] = v\<close> and \<open>delete(m, k)\<close>; the order of the list is the order in which
  \<open>range\<close> visits the map, which Go leaves unspecified.  A theorem that holds for every such
  list holds for every iteration order.

  Strings are byte strings; case conversion and white space are those of ASCII.
\<close>

named_theorems gomap_simps
named_theorems state_simps
named_theorems inv_intros

subsection \<open>Fallible operations\<close>

type_synonym ('e, 'a) result = "'e + 'a"

abbreviation Ok :: "'a \<Rightarrow> ('e, 'a) result" where
  "Ok \<equiv> Inr"

abbreviation Err :: "'e \<Rightarrow> ('e, 'a) result" where
  "Err \<equiv> Inl"

definition is_ok :: "('e, 'a) result \<Rightarrow> bool" where
  "is_ok r = (case r of Inl _ \<Rightarrow> False | Inr _ \<Rightarrow> True)"

subsection \<open>Go maps\<close>

type_synonym ('k, 'v) gomap = "('k \<times> 'v) list"

definition mget :: "('k, 'v) gomap \<Rightarrow> 'k \<Rightarrow> 'v option" where
  "mget m k = map_of m k"

definition mset :: "'k \<Rightarrow> 'v \<Rightarrow> ('k, 'v) gomap \<Rightarrow> ('k, 'v) gomap" where
  "mset k v m = AList.update k v m"

definition mdel :: "'k \<Rightarrow> ('k, 'v) gomap \<Rightarrow> ('k, 'v) gomap" where
  "mdel k m = AList.delete k m"

definition mkeys :: "('k, 'v) gomap \<Rightarrow> 'k list" where
  "mkeys m = map fst m"

definition mvals :: "('k, 'v) gomap \<Rightarrow> 'v list" where
  "mvals m = map snd m"

definition mwf :: "('k, 'v) gomap \<Rightarrow> bool" where
  "mwf m = distinct (map fst m)"

subsection \<open>Go strings\<close>

definition upper_char :: "char \<Rightarrow> char" where
  "upper_char c = (let n = (of_char c :: nat) in
     if 97 \<le> n \<and> n \<le> 122 then char_of (n - 32) else c)"

definition lower_char :: "char \<Rightarrow> char" where
  "lower_char c = (let n = (of_char c :: nat) in
     if 65 \<le> n \<and> n \<le> 90 then char_of (n + 32) else c)"

definition ToUpper :: "string \<Rightarrow> string" where
  "ToUpper s = map upper_char s"

definition ToLower :: "string \<Rightarrow> string" where
  "ToLower s = map lower_char s"

definition EqualFold :: "string \<Rightarrow> string \<Rightarrow> bool" where
  "EqualFold s t = (ToLower s = ToLower t)"

definition is_space :: "char \<Rightarrow> bool" where
  "is_space c = (let n = (of_char c :: nat) in n = 32 \<or> (9 \<le> n \<and> n \<le> 13))"

definition TrimSpace :: "string \<Rightarrow> string" where
  "TrimSpace s = rev (dropWhile is_space (rev (dropWhile is_space s)))"

fun HasPrefix :: "string \<Rightarrow> string \<Rightarrow> bool" where
  "HasPrefix s [] = True"
| "HasPrefix [] (p # ps) = False"
| "HasPrefix (c # s) (p # ps) = (c = p \<and> HasPrefix s ps)"

fun Contains :: "string \<Rightarrow> string \<Rightarrow> bool" where
  "Contains [] p = (p = [])"
| "Contains (c # s) p = (HasPrefix (c # s) p \<or> Contains s p)"

text \<open>\<open>strings.Split\<close> with a one-byte separator, and \<open>Regexp.Split\<close> with a one-byte
  character class: always at least one part.\<close>

fun split_on :: "(char \<Rightarrow> bool) \<Rightarrow> string \<Rightarrow> string list" where
  "split_on d [] = [[]]"
| "split_on d (c # s) =
     (if d c then [] # split_on d s
      else (case split_on d s of [] \<Rightarrow> [[c]] | p # ps \<Rightarrow> (c # p) # ps))"

definition SplitChar :: "char \<Rightarrow> string \<Rightarrow> string list" where
  "SplitChar d = split_on ((=) d)"

subsection \<open>Signed 64-bit integers\<close>

text \<open>Go's \<open>int\<close>, \<open>int64\<close> and \<open>time.Duration\<close>: the value of an arithmetic result after
  wrap-around to 64 bits in two's complement.\<close>

definition i64 :: "int \<Rightarrow> int" where
  "i64 x = (x + 2 ^ 63) mod 2 ^ 64 - 2 ^ 63"

definition in_i64 :: "int \<Rightarrow> bool" where
  "in_i64 x = (- (2 ^ 63) \<le> x \<and> x < 2 ^ 63)"

text \<open>Instants are nanoseconds since the Unix epoch; \<open>unix_secs\<close> is \<open>time.Time.Unix\<close>.\<close>

abbreviation Second :: int where
  "Second \<equiv> 1000000000"

definition unix_secs :: "int \<Rightarrow> int" where
  "unix_secs t = t div Second"

subsection \<open>Lemmas on Go maps\<close>

lemma mget_mset [simp, gomap_simps]:
  "mget (mset k v m) k' = (if k' = k then Some v else mget m k')"
  by (simp add: mget_def mset_def update_conv')

lemma mget_mdel [simp, gomap_simps]:
  "mget (mdel k m) k' = (if k' = k then None else mget m k')"
  by (simp add: mget_def mdel_def delete_conv')

lemma mget_Nil [simp, gomap_simps]: "mget [] k = None"
  by (simp add: mget_def)

lemma mwf_Nil [simp, intro]: "mwf []"
  by (simp add: mwf_def)

lemma mwf_mset [simp, intro]: "mwf m \<Longrightarrow> mwf (mset k v m)"
  by (simp add: mwf_def mset_def distinct_update)

lemma mwf_mdel [simp, intro]: "mwf m \<Longrightarrow> mwf (mdel k m)"
  by (simp add: mwf_def mdel_def distinct_delete)

lemma mget_eq_Some_iff: "mwf m \<Longrightarrow> mget m k = Some v \<longleftrightarrow> (k, v) \<in> set m"
  by (simp add: mwf_def mget_def)

lemma mget_None_iff: "mget m k = None \<longleftrightarrow> k \<notin> set (mkeys m)"
  by (force simp: mget_def mkeys_def map_of_eq_None_iff)

lemma mkeys_mset: "set (mkeys (mset k v m)) = insert k (set (mkeys m))"
  by (simp add: mkeys_def mset_def dom_update)

lemma mkeys_mdel: "set (mkeys (mdel k m)) = set (mkeys m) - {k}"
  by (simp add: mkeys_def mdel_def delete_keys)

lemma length_mset:
  "length (mset k v m) = (if k \<in> set (mkeys m) then length m else Suc (length m))"
  unfolding mset_def mkeys_def by (induction m) auto

lemma length_mdel_notin: "k \<notin> set (mkeys m) \<Longrightarrow> mdel k m = m"
  by (simp add: mdel_def mkeys_def delete_idem)

lemma length_mdel:
  "mwf m \<Longrightarrow> k \<in> set (mkeys m) \<Longrightarrow> Suc (length (mdel k m)) = length m"
  unfolding mdel_def mkeys_def mwf_def
  by (induction m) (auto simp: delete_idem)

lemma mget_fold_mset:
  "mget (fold (\<lambda>k. mset k (f k)) ks m) k = (if k \<in> set ks then Some (f k) else mget m k)"
  by (induction ks arbitrary: m) auto

lemma mwf_fold_mset: "mwf m \<Longrightarrow> mwf (fold (\<lambda>k. mset k (f k)) ks m)"
  by (induction ks arbitrary: m) auto

lemma mget_fold_mdel:
  "mget (fold mdel ks m) k = (if k \<in> set ks then None else mget m k)"
  by (induction ks arbitrary: m) auto

lemma mwf_fold_mdel: "mwf m \<Longrightarrow> mwf (fold mdel ks m)"
  by (induction ks arbitrary: m) auto

lemma mget_fold_pairs:
  "mget (fold (\<lambda>(k, v). mset k v) ps m) k =
     (case map_of (rev ps) k of None \<Rightarrow> mget m k | Some v \<Rightarrow> Some v)"
  by (induction ps arbitrary: m) (auto simp: map_add_def split: option.splits)

lemma mwf_fold_pairs: "mwf m \<Longrightarrow> mwf (fold (\<lambda>(k, v). mset k v) ps m)"
  by (induction ps arbitrary: m) auto

lemma hd_sort_key_min:
  assumes "xs \<noteq> []"
  shows "hd (sort_key f xs) \<in> set xs" "\<forall>x \<in> set xs. f (hd (sort_key f xs)) \<le> f x"
proof -
  from assms obtain y ys where ys: "sort_key f xs = y # ys"
    by (metis list.exhaust length_sort length_0_conv)
  have set_eq: "set xs = insert y (set ys)" using ys by (metis list.simps(15) set_sort)
  then show "hd (sort_key f xs) \<in> set xs" by (simp add: ys)
  have "sorted (map f (y # ys))" using sorted_sort_key[of f xs] by (simp only: ys)
  then show "\<forall>x \<in> set xs. f (hd (sort_key f xs)) \<le> f x"
    by (auto simp: ys set_eq)
qed

lemma mset_Nil [simp]: "mset k v [] = [(k, v)]"
  by (simp add: mset_def)

lemma mset_Cons: "mset k v (p # m) = (if fst p = k then (k, v) # m else p # mset k v m)"
  by (cases p) (simp add: mset_def)

lemma mdel_Nil [simp]: "mdel k [] = []"
  by (simp add: mdel_def)

lemma mdel_Cons: "mdel k (p # m) = (if fst p = k then mdel k m else p # mdel k m)"
  by (cases p) (simp add: mdel_def)

lemma mget_Cons: "mget (p # m) k = (if fst p = k then Some (snd p) else mget m k)"
  by (cases p) (simp add: mget_def)

lemma mwf_single [simp]: "mwf [p]"
  by (simp add: mwf_def)

lemma mget_single [simp]: "mget [(k, v)] k' = (if k' = k then Some v else None)"
  by (simp add: mget_def)

lemma mdel_idem [simp]: "mdel k (mdel k m) = mdel k m"
  by (induction m) (simp_all add: mdel_Cons)

lemmas gomap_eval = mset_Cons mdel_Cons mget_Cons mset_Nil mdel_Nil mget_Nil

subsection \<open>Lemmas on strings and integers\<close>

lemma upper_char_idem [simp]: "upper_char (upper_char c) = upper_char c"
proof (cases "97 \<le> (of_char c :: nat) \<and> (of_char c :: nat) \<le> 122")
  case True
  then have "(of_char c - 32) mod 256 = (of_char c - 32 :: nat)"
    by (intro mod_less) linarith
  with True show ?thesis
    by (auto simp: upper_char_def Let_def)
next
  case False
  then show ?thesis by (auto simp: upper_char_def Let_def)
qed

lemma ToUpper_idem [simp]: "ToUpper (ToUpper s) = ToUpper s"
  by (simp add: ToUpper_def)

lemma EqualFold_refl [simp]: "EqualFold s s"
  by (simp add: EqualFold_def)

lemma TrimSpace_Nil [simp]: "TrimSpace [] = []"
  by (simp add: TrimSpace_def)

lemma HasPrefix_iff: "HasPrefix s p \<longleftrightarrow> take (length p) s = p"
  by (induction s p rule: HasPrefix.induct) auto

lemma split_on_not_Nil [simp]: "split_on d s \<noteq> []"
  by (cases s) (auto split: list.splits)

lemma split_on_no_sep: "p \<in> set (split_on d s) \<Longrightarrow> c \<in> set p \<Longrightarrow> \<not> d c"
  by (induction s arbitrary: p) (force split: if_splits list.splits)+

lemma i64_id [simp]: "in_i64 x \<Longrightarrow> i64 x = x"
  by (simp add: i64_def in_i64_def)

lemma in_i64_i64 [simp]: "in_i64 (i64 x)"
proof -
  have "0 \<le> (x + 2 ^ 63) mod (2 ^ 64)" "(x + 2 ^ 63) mod (2 ^ 64) < (2 ^ 64 :: int)"
    by simp_all
  then show ?thesis unfolding i64_def in_i64_def by (simp; linarith)
qed

end
