(* ===== verification/Task_Method.thy ===== *)
theory Task_Method
  imports Formicary_Prelude
begin

text \<open>
  Task methods (\<open>internal/types/task_method.go\<close>): the enumeration and its predicates.
  \<open>TaskMethod\<close> is a Go string type; \<open>RawMethod\<close> stands for a string that is none of the
  named methods (the empty string is the unset method).
\<close>

datatype TaskMethod =
    ExpireArtifacts | ForkJob | AwaitForkedJob | Messaging | HTTPGet | HTTPPostForm
  | HTTPPostJSON | HTTPPutFORM | HTTPPutJSON | HTTPDelete | WebSocket | Shell | Docker
  | Kubernetes | Manual | FanOutJob | RawMethod string

abbreviation NoMethod :: TaskMethod where
  "NoMethod \<equiv> RawMethod []"

fun method_string :: "TaskMethod \<Rightarrow> string" where
  "method_string ExpireArtifacts = ''EXPIRE_ARTIFACTS''"
| "method_string ForkJob = ''FORK_JOB''"
| "method_string AwaitForkedJob = ''AWAIT_FORKED_JOB''"
| "method_string Messaging = ''MESSAGING''"
| "method_string HTTPGet = ''HTTP_GET''"
| "method_string HTTPPostForm = ''HTTP_POST_FORM''"
| "method_string HTTPPostJSON = ''HTTP_POST_JSON''"
| "method_string HTTPPutFORM = ''HTTP_PUT_FORM''"
| "method_string HTTPPutJSON = ''HTTP_PUT_JSON''"
| "method_string HTTPDelete = ''HTTP_DELETE''"
| "method_string WebSocket = ''WEBSOCKET''"
| "method_string Shell = ''SHELL''"
| "method_string Docker = ''DOCKER''"
| "method_string Kubernetes = ''KUBERNETES''"
| "method_string Manual = ''MANUAL''"
| "method_string FanOutJob = ''FAN_OUT_JOB''"
| "method_string (RawMethod s) = s"

definition SupportsCaptureStdout :: "TaskMethod \<Rightarrow> bool" where
  "SupportsCaptureStdout m = (m = HTTPGet \<or> m = HTTPDelete \<or> m = HTTPPostForm \<or>
     m = HTTPPostJSON \<or> m = HTTPPutFORM \<or> m = HTTPPutJSON \<or> m = Shell)"

definition RequiresScript :: "TaskMethod \<Rightarrow> bool" where
  "RequiresScript m = (m = HTTPGet \<or> m = HTTPDelete \<or> m = HTTPPostForm \<or> m = HTTPPostJSON \<or>
     m = HTTPPutFORM \<or> m = HTTPPutJSON \<or> m = Shell \<or> m = Docker \<or> m = Kubernetes)"

definition method_IsValid :: "TaskMethod \<Rightarrow> bool" where
  "method_IsValid m = (m = HTTPGet \<or> m = HTTPDelete \<or> m = HTTPPostForm \<or> m = HTTPPostJSON \<or>
     m = HTTPPutFORM \<or> m = HTTPPutJSON \<or> m = WebSocket \<or> m = Shell \<or> m = Docker \<or>
     m = Kubernetes \<or> m = ForkJob \<or> m = AwaitForkedJob \<or> m = Messaging \<or> m = Manual \<or>
     m = ExpireArtifacts \<or> m = FanOutJob)"

definition SupportsDependentArtifacts :: "TaskMethod \<Rightarrow> bool" where
  "SupportsDependentArtifacts m = (m = Shell \<or> m = Docker \<or> m = Kubernetes)"

definition SupportsCache :: "TaskMethod \<Rightarrow> bool" where
  "SupportsCache m = (m = Docker \<or> m = Kubernetes)"

definition IsHTTP :: "TaskMethod \<Rightarrow> bool" where
  "IsHTTP m = (m = HTTPGet \<or> m = HTTPDelete \<or> m = HTTPPostForm \<or> m = HTTPPostJSON \<or>
     m = HTTPPutJSON)"

subsection \<open>Lemmas\<close>

lemmas method_defs = SupportsCaptureStdout_def RequiresScript_def method_IsValid_def
  SupportsDependentArtifacts_def SupportsCache_def IsHTTP_def

lemma method_IsValid_iff: "method_IsValid m \<longleftrightarrow> (\<forall>s. m \<noteq> RawMethod s)"
  by (cases m) (simp_all add: method_IsValid_def)

lemma method_classes:
  "SupportsCache m \<longrightarrow> SupportsDependentArtifacts m"
  "SupportsDependentArtifacts m \<longrightarrow> RequiresScript m"
  "SupportsCaptureStdout m \<longrightarrow> RequiresScript m"
  "RequiresScript m \<longrightarrow> method_IsValid m"
  "IsHTTP m \<longrightarrow> SupportsCaptureStdout m"
  by (cases m; simp add: method_defs)+

end
