(* ===== verification/Request_State.thy ===== *)
theory Request_State
  imports Formicary_Prelude
begin

text \<open>
  Request states (\<open>internal/types/request_state.go\<close>).  \<open>RequestState\<close> is a Go string type
  with named constants; a value that is none of the constants is \<open>RawState\<close>.
  \<open>state_of_string\<close> is the conversion \<open>RequestState(s)\<close> and \<open>state_string\<close> the conversion
  back, so a well-formed value is one that \<open>state_of_string\<close> produces.
  The lemmas show what the life-cycle table \<open>CanTransitionTo\<close> allows.
\<close>

datatype RequestState =
    PENDING | READY | COMPLETED | FAILED | EXECUTING | STARTED | CANCELLED | PAUSED
  | MANUAL_APPROVAL_REQUIRED | HISTORY | RUNNING | WAITING | FATAL | RESTART_JOB | PAUSE_JOB
  | WAIT_FOR_APPROVAL | RESTART_TASK | APPROVED | REJECTED | RESERVED | DELETED | UNKNOWN
  | RawState string

definition named_states :: "(string \<times> RequestState) list" where
  "named_states =
    [(''PENDING'', PENDING), (''READY'', READY), (''COMPLETED'', COMPLETED),
     (''FAILED'', FAILED), (''EXECUTING'', EXECUTING), (''STARTED'', STARTED),
     (''CANCELLED'', CANCELLED), (''PAUSED'', PAUSED),
     (''MANUAL_APPROVAL_REQUIRED'', MANUAL_APPROVAL_REQUIRED), (''HISTORY'', HISTORY),
     (''RUNNING'', RUNNING), (''WAITING'', WAITING), (''FATAL'', FATAL),
     (''RESTART_JOB'', RESTART_JOB), (''PAUSE_JOB'', PAUSE_JOB),
     (''WAIT_FOR_APPROVAL'', WAIT_FOR_APPROVAL), (''RESTART_TASK'', RESTART_TASK),
     (''APPROVED'', APPROVED), (''REJECTED'', REJECTED), (''RESERVED'', RESERVED),
     (''DELETED'', DELETED), (''UNKNOWN'', UNKNOWN)]"

definition state_of_string :: "string \<Rightarrow> RequestState" where
  "state_of_string s = (case map_of named_states s of Some st \<Rightarrow> st | None \<Rightarrow> RawState s)"

fun state_string :: "RequestState \<Rightarrow> string" where
  "state_string PENDING = ''PENDING''"
| "state_string READY = ''READY''"
| "state_string COMPLETED = ''COMPLETED''"
| "state_string FAILED = ''FAILED''"
| "state_string EXECUTING = ''EXECUTING''"
| "state_string STARTED = ''STARTED''"
| "state_string CANCELLED = ''CANCELLED''"
| "state_string PAUSED = ''PAUSED''"
| "state_string MANUAL_APPROVAL_REQUIRED = ''MANUAL_APPROVAL_REQUIRED''"
| "state_string HISTORY = ''HISTORY''"
| "state_string RUNNING = ''RUNNING''"
| "state_string WAITING = ''WAITING''"
| "state_string FATAL = ''FATAL''"
| "state_string RESTART_JOB = ''RESTART_JOB''"
| "state_string PAUSE_JOB = ''PAUSE_JOB''"
| "state_string WAIT_FOR_APPROVAL = ''WAIT_FOR_APPROVAL''"
| "state_string RESTART_TASK = ''RESTART_TASK''"
| "state_string APPROVED = ''APPROVED''"
| "state_string REJECTED = ''REJECTED''"
| "state_string RESERVED = ''RESERVED''"
| "state_string DELETED = ''DELETED''"
| "state_string UNKNOWN = ''UNKNOWN''"
| "state_string (RawState s) = s"

text \<open>The empty state, which several operations treat as "not given".\<close>

abbreviation NoState :: RequestState where
  "NoState \<equiv> RawState []"

definition TerminalStates :: "RequestState list" where
  "TerminalStates = [COMPLETED, FAILED, CANCELLED]"

definition RunningStates :: "RequestState list" where
  "RunningStates = [EXECUTING, STARTED]"

definition WaitingStates :: "RequestState list" where
  "WaitingStates = [PENDING, PAUSED, READY, MANUAL_APPROVAL_REQUIRED]"

definition NotRestartableStates :: "RequestState list" where
  "NotRestartableStates = [PENDING, READY, COMPLETED]"

definition OrphanStates :: "RequestState list" where
  "OrphanStates = [STARTED, READY, EXECUTING]"

definition NewRequestState :: "string \<Rightarrow> RequestState" where
  "NewRequestState state = state_of_string (ToUpper state)"

definition IsTerminal :: "RequestState \<Rightarrow> bool" where
  "IsTerminal rs = (rs = COMPLETED \<or> rs = FAILED \<or> rs = CANCELLED)"

definition CanFinalize :: "RequestState \<Rightarrow> bool" where
  "CanFinalize rs = (IsTerminal rs \<or> rs = PAUSED \<or> rs = MANUAL_APPROVAL_REQUIRED)"

definition Processing :: "RequestState \<Rightarrow> bool" where
  "Processing rs = (rs = WAITING \<or> rs = PENDING \<or> rs = PAUSED \<or> rs = READY \<or> rs = EXECUTING \<or>
     rs = STARTED \<or> rs = MANUAL_APPROVAL_REQUIRED)"

definition CanRestart :: "RequestState \<Rightarrow> bool" where
  "CanRestart rs = (rs = FAILED \<or> rs = CANCELLED \<or> rs = PAUSED)"

definition CanCancel :: "RequestState \<Rightarrow> bool" where
  "CanCancel rs = (\<not> IsTerminal rs \<or> rs = PAUSED \<or> rs = MANUAL_APPROVAL_REQUIRED)"

definition CanApprove :: "RequestState \<Rightarrow> bool" where
  "CanApprove rs = (rs = MANUAL_APPROVAL_REQUIRED)"

definition Completed :: "RequestState \<Rightarrow> bool" where
  "Completed rs = (rs = COMPLETED)"

definition Paused :: "RequestState \<Rightarrow> bool" where
  "Paused rs = (rs = PAUSED)"

definition ManualApprovalRequired :: "RequestState \<Rightarrow> bool" where
  "ManualApprovalRequired rs = (rs = MANUAL_APPROVAL_REQUIRED)"

definition Failed :: "RequestState \<Rightarrow> bool" where
  "Failed rs = (rs = FAILED \<or> rs = CANCELLED)"

definition Ready :: "RequestState \<Rightarrow> bool" where
  "Ready rs = (rs = READY)"

definition Pending :: "RequestState \<Rightarrow> bool" where
  "Pending rs = (rs = PENDING)"

definition Cancelled :: "RequestState \<Rightarrow> bool" where
  "Cancelled rs = (rs = CANCELLED)"

definition Executing :: "RequestState \<Rightarrow> bool" where
  "Executing rs = (rs = EXECUTING)"

definition Started :: "RequestState \<Rightarrow> bool" where
  "Started rs = (rs = STARTED)"

definition Waiting :: "RequestState \<Rightarrow> bool" where
  "Waiting rs = (rs = WAITING \<or> rs = PENDING \<or> rs = PAUSED \<or> rs = READY \<or>
     rs = MANUAL_APPROVAL_REQUIRED)"

definition Running :: "RequestState \<Rightarrow> bool" where
  "Running rs = (rs = STARTED \<or> rs = EXECUTING \<or> rs = RUNNING)"

definition Done :: "RequestState \<Rightarrow> bool" where
  "Done rs = (rs = FAILED \<or> rs = COMPLETED \<or> rs = CANCELLED)"

definition IsKnown :: "RequestState \<Rightarrow> bool" where
  "IsKnown rs = (case rs of
       PENDING \<Rightarrow> True | READY \<Rightarrow> True | COMPLETED \<Rightarrow> True | FAILED \<Rightarrow> True | EXECUTING \<Rightarrow> True
     | STARTED \<Rightarrow> True | CANCELLED \<Rightarrow> True | PAUSED \<Rightarrow> True | MANUAL_APPROVAL_REQUIRED \<Rightarrow> True
     | HISTORY \<Rightarrow> True | RUNNING \<Rightarrow> True | WAITING \<Rightarrow> True | FATAL \<Rightarrow> True | RESTART_JOB \<Rightarrow> True
     | PAUSE_JOB \<Rightarrow> True | WAIT_FOR_APPROVAL \<Rightarrow> True | RESTART_TASK \<Rightarrow> True | APPROVED \<Rightarrow> True
     | REJECTED \<Rightarrow> True | RESERVED \<Rightarrow> True | DELETED \<Rightarrow> True | UNKNOWN \<Rightarrow> True | _ \<Rightarrow> False)"

definition Unknown :: "RequestState \<Rightarrow> bool" where
  "Unknown rs = (rs \<noteq> FAILED \<and> rs \<noteq> CANCELLED \<and> rs \<noteq> PENDING \<and> rs \<noteq> PAUSED \<and>
     rs \<noteq> MANUAL_APPROVAL_REQUIRED \<and> rs \<noteq> READY \<and> rs \<noteq> COMPLETED \<and> rs \<noteq> EXECUTING \<and>
     rs \<noteq> STARTED \<and> rs \<noteq> HISTORY \<and> rs \<noteq> RESTART_JOB \<and> rs \<noteq> PAUSE_JOB \<and> rs \<noteq> RESTART_TASK)"

definition CanTransitionTo :: "RequestState \<Rightarrow> RequestState \<Rightarrow> bool" where
  "CanTransitionTo rs newState =
     (if rs = FAILED \<or> rs = CANCELLED then newState = PENDING
      else if rs = PENDING \<or> rs = PAUSED then newState = READY \<or> newState = FAILED
      else if rs = MANUAL_APPROVAL_REQUIRED then newState = READY
      else if rs = READY then newState = STARTED \<or> newState = FAILED \<or> newState = PENDING \<or>
                              newState = PAUSED
      else if rs = STARTED then newState = EXECUTING
      else if rs = EXECUTING then newState = FAILED \<or> newState = COMPLETED \<or>
                                  newState = PAUSED \<or> newState = MANUAL_APPROVAL_REQUIRED
      else False)"

text \<open>Sequences of transitions that the table allows.\<close>

inductive transitions :: "RequestState \<Rightarrow> RequestState list \<Rightarrow> RequestState \<Rightarrow> bool" where
  transitions_Nil: "transitions s [] s"
| transitions_Cons: "CanTransitionTo s t \<Longrightarrow> transitions t ts u \<Longrightarrow> transitions s (t # ts) u"

inductive_simps transitions_Nil_iff: "transitions s [] u"
inductive_simps transitions_Cons_iff: "transitions s (t # ts) u"

subsection \<open>Lemmas\<close>

lemmas pred_defs [state_simps] =
  IsTerminal_def CanFinalize_def Processing_def CanRestart_def CanCancel_def CanApprove_def
  Completed_def Paused_def ManualApprovalRequired_def Failed_def Ready_def Pending_def
  Cancelled_def Executing_def Started_def Waiting_def Running_def Done_def Unknown_def

lemma named_states_inverse: "map_of named_states s = Some st \<Longrightarrow> state_string st = s"
  by (auto simp: named_states_def split: if_splits)

lemma state_string_of_string [simp]: "state_string (state_of_string s) = s"
  by (auto simp: state_of_string_def named_states_inverse split: option.splits)

lemma state_of_string_known: "IsKnown st \<Longrightarrow> state_of_string (state_string st) = st"
  by (cases st) (simp_all add: state_of_string_def named_states_def IsKnown_def)

lemma state_of_string_inject: "state_of_string s = state_of_string t \<longleftrightarrow> s = t"
  by (metis state_string_of_string)

lemma NewRequestState_known: "IsKnown st \<Longrightarrow> NewRequestState (state_string st) = st"
  by (cases st) (simp_all add: NewRequestState_def ToUpper_def upper_char_def state_of_string_def
      named_states_def IsKnown_def)

lemma CanTransitionTo_COMPLETED_iff [simp]: "CanTransitionTo s COMPLETED \<longleftrightarrow> s = EXECUTING"
  by (simp add: CanTransitionTo_def)

lemma CanTransitionTo_EXECUTING_iff [simp]: "CanTransitionTo s EXECUTING \<longleftrightarrow> s = STARTED"
  by (simp add: CanTransitionTo_def)

lemma CanTransitionTo_STARTED_iff [simp]: "CanTransitionTo s STARTED \<longleftrightarrow> s = READY"
  by (simp add: CanTransitionTo_def)

lemma not_CanTransitionTo_COMPLETED [simp]: "\<not> CanTransitionTo COMPLETED s"
  by (simp add: CanTransitionTo_def)

lemma CanTransitionTo_irrefl [simp]: "\<not> CanTransitionTo s s"
  by (cases s) (simp_all add: CanTransitionTo_def)

lemma transitions_last:
  "transitions s ts u \<Longrightarrow> u = (if ts = [] then s else last ts)"
  by (induction rule: transitions.induct) auto

lemma transitions_append:
  "transitions s (xs @ ys) u \<longleftrightarrow> (\<exists>t. transitions s xs t \<and> transitions t ys u)"
  by (induction xs arbitrary: s) (auto simp: transitions_Nil_iff transitions_Cons_iff)

lemma transitions_snoc:
  "transitions s (xs @ [t]) u \<longleftrightarrow> u = t \<and> (\<exists>r. transitions s xs r \<and> CanTransitionTo r t)"
  by (auto simp: transitions_append transitions_Nil_iff transitions_Cons_iff)

lemma transitions_COMPLETED_source:
  "transitions COMPLETED ts u \<longleftrightarrow> ts = [] \<and> u = COMPLETED"
  by (cases ts) (auto simp: transitions_Nil_iff transitions_Cons_iff)

lemma upper_lower_char: "upper_char (lower_char c) = upper_char c"
proof (cases "65 \<le> (of_char c :: nat) \<and> (of_char c :: nat) \<le> 90")
  case True
  then have "(of_char c + 32) mod 256 = (of_char c + 32 :: nat)"
    by (intro mod_less) linarith
  with True show ?thesis by (auto simp: upper_char_def lower_char_def Let_def)
qed (auto simp: lower_char_def Let_def)

lemma NewRequestState_EqualFold:
  assumes "EqualFold s t"
  shows "NewRequestState s = NewRequestState t"
proof -
  have "ToUpper (ToLower u) = ToUpper u" for u
    by (simp add: ToUpper_def ToLower_def upper_lower_char)
  with assms show ?thesis unfolding EqualFold_def NewRequestState_def by metis
qed

subsection \<open>Properties\<close>



text \<open>Printing a known state and reading the text back, in any mixture of cases, gives the
  state, and two known states never share a text.\<close>

theorem state_text_roundtrip:
  assumes "IsKnown st"
  shows "(\<forall>txt. EqualFold txt (state_string st) \<longrightarrow> NewRequestState txt = st) \<and>
     (\<forall>st'. IsKnown st' \<and> state_string st' = state_string st \<longrightarrow> st' = st)"
  using assms NewRequestState_known NewRequestState_EqualFold by metis

theorem state_text_roundtrip_witness:
  "NewRequestState ''Manual_Approval_Required'' = MANUAL_APPROVAL_REQUIRED"
proof -
  have "EqualFold ''Manual_Approval_Required'' (state_string MANUAL_APPROVAL_REQUIRED)"
    by code_simp
  with state_text_roundtrip[of MANUAL_APPROVAL_REQUIRED] show ?thesis by (simp add: IsKnown_def)
qed

end
