(* ===== verification/Name_Value.thy ===== *)
theory Name_Value
  imports Request_State
begin

text \<open>
  Named values (\<open>internal/types/name_type_value.go\<close>): the rows in which job parameters,
  contexts, variables and configurations are stored as a name, a kind and a text.

  A Go \<open>interface{}\<close> value is \<open>any\<close>.  \<open>AnyInt k n\<close> is a signed integer of kind \<open>k\<close>;
  \<open>AnyOther k j\<close> is a value of another kind whose JSON encoding is the text \<open>j\<close> (None when
  \<open>json.Marshal\<close> fails).  Decoding of floats, complex numbers and JSON texts is the argument
  \<open>dec\<close> of \<open>GetParsedValue\<close>, a function of the kind and the text.

  The row list with its lookup map is the pattern that \<open>JobExecution\<close>, \<open>TaskExecution\<close>,
  \<open>JobRequest\<close> and \<open>TaskDefinition\<close> share: \<open>rows_add\<close>, \<open>rows_delete\<close>.  The locale
  \<open>named_store\<close> is what its clients rely on.
\<close>

subsection \<open>Decimal integers\<close>

fun nat_string :: "nat \<Rightarrow> string" where
  "nat_string n = (if n < 10 then [char_of (48 + n)]
                   else nat_string (n div 10) @ [char_of (48 + n mod 10)])"

declare nat_string.simps [simp del]

definition int_string :: "int \<Rightarrow> string" where
  "int_string n = (if n < 0 then CHR ''-'' # nat_string (nat (- n)) else nat_string (nat n))"

definition is_digit :: "char \<Rightarrow> bool" where
  "is_digit c = (48 \<le> (of_char c :: nat) \<and> (of_char c :: nat) \<le> 57)"

definition digits_value :: "string \<Rightarrow> nat" where
  "digits_value s = fold (\<lambda>c acc. 10 * acc + (of_char c - 48)) s 0"

definition parse_digits :: "string \<Rightarrow> nat option" where
  "parse_digits s = (if s \<noteq> [] \<and> list_all is_digit s then Some (digits_value s) else None)"

text \<open>\<open>strconv.ParseInt(s, 10, 64)\<close>: None when it returns an error.\<close>

definition ParseInt :: "string \<Rightarrow> int option" where
  "ParseInt s =
     (let signed = (case s of [] \<Rightarrow> None
        | c # cs \<Rightarrow> if c = CHR ''-'' then map_option (\<lambda>n. - int n) (parse_digits cs)
                    else if c = CHR ''+'' then map_option int (parse_digits cs)
                    else map_option int (parse_digits s))
      in case signed of None \<Rightarrow> None | Some n \<Rightarrow> if in_i64 n then Some n else None)"

subsection \<open>Values\<close>

datatype any =
    AnyNil
  | AnyString string
  | AnyState RequestState
  | AnyBool bool
  | AnyInt string int
  | AnyOther string "string option"

fun kind_of :: "any \<Rightarrow> string" where
  "kind_of AnyNil = []"
| "kind_of (AnyString s) = ''string''"
| "kind_of (AnyState s) = ''types.RequestState''"
| "kind_of (AnyBool b) = ''bool''"
| "kind_of (AnyInt k n) = k"
| "kind_of (AnyOther k j) = k"

text \<open>The text stored for a value: a string as it is, everything else as \<open>json.Marshal\<close>
  writes it.  A state is a JSON string (its text has no character that JSON escapes).\<close>

fun value_text :: "any \<Rightarrow> string option" where
  "value_text AnyNil = Some ''null''"
| "value_text (AnyString s) = Some s"
| "value_text (AnyState s) = Some (CHR 0x22 # state_string s @ [CHR 0x22])"
| "value_text (AnyBool b) = Some (if b then ''true'' else ''false'')"
| "value_text (AnyInt k n) = Some (int_string n)"
| "value_text (AnyOther k j) = j"

record NameTypeValue =
  nv_Name :: string
  nv_Kind :: string
  nv_Value :: string
  nv_Secret :: bool

datatype value_error = NilValue string | MarshalValue string | ValueTooBig | UnsupportedKind string
  | ParseFailed

definition maxConfigValueLength :: nat where
  "maxConfigValueLength = 1000000"

definition NewNameTypeValue :: "string \<Rightarrow> any \<Rightarrow> bool \<Rightarrow> (value_error, NameTypeValue) result" where
  "NewNameTypeValue name v secret =
     (if v = AnyNil then Err (NilValue name)
      else case value_text v of
             None \<Rightarrow> Err (MarshalValue name)
           | Some txt \<Rightarrow>
               if length txt > maxConfigValueLength then Err ValueTooBig
               else Ok \<lparr>nv_Name = name, nv_Kind = kind_of v, nv_Value = txt, nv_Secret = secret\<rparr>)"

definition GetParsedValue ::
  "(string \<Rightarrow> string \<Rightarrow> any option) \<Rightarrow> NameTypeValue \<Rightarrow> (value_error, any) result" where
  "GetParsedValue dec nv =
     (if nv_Kind nv = ''string'' \<or> nv_Kind nv = ''types.RequestState'' then Ok (AnyString (nv_Value nv))
      else if nv_Kind nv = ''bool'' then Ok (AnyBool (nv_Value nv = ''true''))
      else if HasPrefix (nv_Kind nv) ''int'' then
        (case ParseInt (nv_Value nv) of None \<Rightarrow> Err ParseFailed | Some i \<Rightarrow> Ok (AnyInt ''int64'' i))
      else if HasPrefix (nv_Kind nv) ''float'' \<or> HasPrefix (nv_Kind nv) ''complex'' \<or>
              HasPrefix (nv_Value nv) ''{'' \<or> HasPrefix (nv_Value nv) ''['' then
        (case dec (nv_Kind nv) (nv_Value nv) of None \<Rightarrow> Err ParseFailed | Some v \<Rightarrow> Ok v)
      else Err (UnsupportedKind (nv_Kind nv)))"

definition IsArtifactURL :: "NameTypeValue \<Rightarrow> bool" where
  "IsArtifactURL nv = Contains (nv_Name nv) ''ArtifactURL''"

definition IsForkedJobID :: "NameTypeValue \<Rightarrow> bool" where
  "IsForkedJobID nv = Contains (nv_Name nv) ''ForkedJobID''"

definition MaskVariables :: "NameTypeValue list \<Rightarrow> NameTypeValue list" where
  "MaskVariables all = filter (\<lambda>v. \<not> nv_Secret v) all"

text \<open>Encryption of secret values: \<open>enc\<close> and \<open>decr\<close> are \<open>crypto.Encrypt\<close> followed by base64
  and its inverse, as functions of the key and the text; None is their error.\<close>

definition encryptedPrefix :: string where
  "encryptedPrefix = ''_ENCRYPTED_''"

definition Encrypt ::
  "(string \<Rightarrow> string \<Rightarrow> string option) \<Rightarrow> string \<Rightarrow> NameTypeValue \<Rightarrow> NameTypeValue option" where
  "Encrypt enc key nv =
     (if length key > 0 \<and> nv_Secret nv \<and> nv_Value nv \<noteq> [] \<and>
         \<not> HasPrefix (nv_Value nv) encryptedPrefix
      then (case enc key (nv_Value nv) of
              None \<Rightarrow> None
            | Some b \<Rightarrow> Some (nv\<lparr>nv_Value := encryptedPrefix @ b\<rparr>))
      else Some nv)"

definition Decrypt ::
  "(string \<Rightarrow> string \<Rightarrow> string option) \<Rightarrow> string \<Rightarrow> NameTypeValue \<Rightarrow> NameTypeValue option" where
  "Decrypt decr key nv =
     (if length key > 0 \<and> nv_Secret nv \<and> nv_Value nv \<noteq> [] \<and>
         HasPrefix (nv_Value nv) encryptedPrefix
      then (case decr key (drop (length encryptedPrefix) (nv_Value nv)) of
              None \<Rightarrow> None
            | Some b \<Rightarrow> Some (nv\<lparr>nv_Value := b\<rparr>))
      else Some nv)"

subsection \<open>Rows with a lookup map\<close>

type_synonym row_store = "NameTypeValue list \<times> (string, NameTypeValue) gomap"

text \<open>Add: a new name is appended; the value of an existing row is overwritten in place, its
  kind is not; the lookup entry is replaced.\<close>

definition rows_add :: "NameTypeValue \<Rightarrow> row_store \<Rightarrow> row_store" where
  "rows_add ctx st =
     (let name = nv_Name ctx in
      (if mget (snd st) name = None then fst st @ [ctx]
       else map (\<lambda>next. if nv_Name next = name then next\<lparr>nv_Value := nv_Value ctx\<rparr> else next) (fst st),
       mset name ctx (snd st)))"

fun remove_first :: "string \<Rightarrow> NameTypeValue list \<Rightarrow> NameTypeValue list" where
  "remove_first name [] = []"
| "remove_first name (c # cs) = (if nv_Name c = name then cs else c # remove_first name cs)"

definition rows_delete :: "string \<Rightarrow> row_store \<Rightarrow> row_store" where
  "rows_delete name st =
     (if mget (snd st) name = None then st
      else (remove_first name (fst st), mdel name (snd st)))"

text \<open>The rows and the lookup map agree: names are unique, the same names occur in both, and
  the texts are equal.\<close>

definition rows_inv :: "row_store \<Rightarrow> bool" where
  "rows_inv st =
     (distinct (map nv_Name (fst st)) \<and> mwf (snd st) \<and>
      set (map nv_Name (fst st)) = set (mkeys (snd st)) \<and>
      (\<forall>c \<in> set (fst st). \<exists>l. mget (snd st) (nv_Name c) = Some l \<and> nv_Value l = nv_Value c))"

text \<open>Rebuilding the lookup map from the rows after they were loaded: a row that does not parse
  is an error.\<close>

fun rows_load ::
  "(string \<Rightarrow> string \<Rightarrow> any option) \<Rightarrow> NameTypeValue list \<Rightarrow> (string, NameTypeValue) gomap \<Rightarrow>
   (value_error, (string, NameTypeValue) gomap) result" where
  "rows_load dec [] lookup = Ok lookup"
| "rows_load dec (c # cs) lookup =
     (case GetParsedValue dec c of
        Inl e \<Rightarrow> Err e
      | Inr _ \<Rightarrow> rows_load dec cs (mset (nv_Name c) c lookup))"

text \<open>\<open>ContextMap\<close>: the values of the rows that parse.\<close>

definition rows_map :: "(string \<Rightarrow> string \<Rightarrow> any option) \<Rightarrow> NameTypeValue list \<Rightarrow> (string, any) gomap" where
  "rows_map dec rows = fold (\<lambda>c m. case GetParsedValue dec c of
       Inl _ \<Rightarrow> m | Inr v \<Rightarrow> mset (nv_Name c) v m) rows []"

definition rows_find :: "string \<Rightarrow> NameTypeValue list \<Rightarrow> NameTypeValue option" where
  "rows_find name rows = List.find (\<lambda>c. nv_Name c = name) rows"

primrec add_all ::
  "(string \<Rightarrow> any \<Rightarrow> 's \<Rightarrow> (value_error, 's) result) \<Rightarrow> (string \<times> any) list \<Rightarrow> 's \<Rightarrow>
   (value_error, 's) result" where
  "add_all add [] s = Ok s"
| "add_all add (p # ps) s =
     (case add (fst p) (snd p) s of Inl e \<Rightarrow> Err e | Inr s' \<Rightarrow> add_all add ps s')"

subsection \<open>The interface of a named store\<close>

locale named_store =
  fixes add :: "string \<Rightarrow> any \<Rightarrow> 's \<Rightarrow> (value_error, 's) result"
    and get :: "string \<Rightarrow> 's \<Rightarrow> NameTypeValue option"
    and rows :: "'s \<Rightarrow> NameTypeValue list"
    and inv :: "'s \<Rightarrow> bool"
  assumes add_ok: "add name v s = Ok s' \<Longrightarrow> \<exists>nv. NewNameTypeValue name v False = Ok nv \<and>
      (\<forall>n. get n s' = (if n = name then Some nv else get n s))"
    and add_err: "add name v s = Err e \<longleftrightarrow> NewNameTypeValue name v False = Err e"
    and add_inv: "inv s \<Longrightarrow> add name v s = Ok s' \<Longrightarrow> inv s'"
    and rows_get: "inv s \<Longrightarrow> (\<exists>c \<in> set (rows s). nv_Name c = n \<and> nv_Value c = x) \<longleftrightarrow>
      (\<exists>l. get n s = Some l \<and> nv_Value l = x)"
begin

lemma add_all_inv: "inv s \<Longrightarrow> add_all add ps s = Ok s' \<Longrightarrow> inv s'"
  by (induction ps arbitrary: s) (auto split: sum.splits intro: add_inv)

lemma get_add_all_notin:
  "add_all add ps s = Ok s' \<Longrightarrow> n \<notin> fst ` set ps \<Longrightarrow> get n s' = get n s"
proof (induction ps arbitrary: s)
  case (Cons p ps)
  then obtain s1 where s1: "add (fst p) (snd p) s = Ok s1" "add_all add ps s1 = Ok s'"
    by (auto split: sum.splits)
  with Cons add_ok[OF s1(1)] show ?case by auto
qed simp

text \<open>The last value added under a name is the one that is found.\<close>

lemma get_add_all_last:
  assumes "add_all add (ps @ [(n, v)]) s = Ok s'"
  shows "\<exists>nv. NewNameTypeValue n v False = Ok nv \<and> get n s' = Some nv"
  using assms
proof (induction ps arbitrary: s)
  case Nil
  then obtain s1 where "add n v s = Ok s1" "s1 = s'" by (auto split: sum.splits)
  with add_ok[of n v s] show ?case by auto
next
  case (Cons p ps)
  then show ?case by (auto split: sum.splits)
qed

lemma row_after_add:
  assumes "inv s" "add n v s = Ok s'" "NewNameTypeValue n v False = Ok nv"
  shows "\<exists>c \<in> set (rows s'). nv_Name c = n \<and> nv_Value c = nv_Value nv"
proof -
  have "get n s' = Some nv" using add_ok[OF assms(2)] assms(3) by auto
  with rows_get[OF add_inv[OF assms(1,2)]] show ?thesis by auto
qed

end

locale named_store_delete = named_store add get rows inv
  for add :: "string \<Rightarrow> any \<Rightarrow> 's \<Rightarrow> (value_error, 's) result"
    and get :: "string \<Rightarrow> 's \<Rightarrow> NameTypeValue option"
    and rows :: "'s \<Rightarrow> NameTypeValue list"
    and inv :: "'s \<Rightarrow> bool" +
  fixes delete :: "string \<Rightarrow> 's \<Rightarrow> 's"
  assumes delete_get: "get n (delete name s) = (if n = name then None else get n s)"
    and delete_inv: "inv s \<Longrightarrow> inv (delete name s)"
begin

lemma add_delete_get:
  "add name v s = Ok s' \<Longrightarrow> get n (delete name s') = (if n = name then None else get n s)"
  using add_ok[of name v s s'] by (auto simp: delete_get)

lemma no_row_after_delete:
  assumes "inv s" shows "\<not> (\<exists>c \<in> set (rows (delete name s)). nv_Name c = name)"
  using rows_get[OF delete_inv[OF assms], of name name] by (auto simp: delete_get)

end

subsection \<open>Decimal integers round trip\<close>

lemma nat_string_digits: "list_all is_digit (nat_string n) \<and> nat_string n \<noteq> []"
proof (induction n rule: nat_string.induct)
  case (1 n)
  have d: "is_digit (char_of (48 + m))" if "m < 10" for m :: nat
    using that by (simp add: is_digit_def)
  show ?case
    using 1 d[of n] d[of "n mod 10"] by (subst (1 2) nat_string.simps) simp
qed

lemma digits_value_snoc: "digits_value (s @ [c]) = 10 * digits_value s + (of_char c - 48)"
  by (simp add: digits_value_def)

lemma digits_value_nat_string: "digits_value (nat_string n) = n"
proof (induction n rule: nat_string.induct)
  case (1 n)
  show ?case
  proof (cases "n < 10")
    case True
    then show ?thesis by (simp add: nat_string.simps[of n] digits_value_def)
  next
    case False
    have "(of_char (char_of (48 + n mod 10) :: char) :: nat) = 48 + n mod 10"
      by (simp add: of_char_of) 
    with False 1 show ?thesis by (simp add: nat_string.simps[of n] digits_value_snoc)
  qed
qed

lemma parse_digits_nat_string [simp]: "parse_digits (nat_string n) = Some n"
  by (simp add: parse_digits_def nat_string_digits digits_value_nat_string)

lemma length_nat_string: "n < 10 ^ Suc k \<Longrightarrow> length (nat_string n) \<le> Suc k"
proof (induction k arbitrary: n)
  case 0
  then show ?case by (simp add: nat_string.simps)
next
  case (Suc k)
  then have "n div 10 < 10 ^ Suc k" by (simp add: less_mult_imp_div_less mult.commute)
  with Suc.IH[OF this] show ?case by (simp add: nat_string.simps[of n])
qed

lemma ParseInt_int_string: "in_i64 n \<Longrightarrow> ParseInt (int_string n) = Some n"
proof -
  assume n: "in_i64 n"
  obtain c cs where cs: "nat_string (nat n) = c # cs" "is_digit c"
    using nat_string_digits[of "nat n"] by (cases "nat_string (nat n)") auto
  then have "c \<noteq> CHR ''-''" "c \<noteq> CHR ''+''" by (auto simp: is_digit_def)
  with cs n parse_digits_nat_string[of "nat n"] show ?thesis
    by (auto simp: ParseInt_def int_string_def Let_def)
qed

subsection \<open>Values round trip\<close>

lemma NewNameTypeValue_Ok:
  "NewNameTypeValue name v secret = Ok nv \<Longrightarrow>
     nv_Name nv = name \<and> nv_Kind nv = kind_of v \<and> value_text v = Some (nv_Value nv) \<and>
     nv_Secret nv = secret \<and> v \<noteq> AnyNil \<and> length (nv_Value nv) \<le> maxConfigValueLength"
  by (auto simp: NewNameTypeValue_def split: if_splits option.splits)

lemma GetParsedValue_int:
  assumes "NewNameTypeValue name (AnyInt k n) secret = Ok nv" and "HasPrefix k ''int''" and "in_i64 n"
  shows "GetParsedValue dec nv = Ok (AnyInt ''int64'' n)"
proof -
  have "k \<noteq> ''string''" "k \<noteq> ''types.RequestState''" "k \<noteq> ''bool''"
    using assms(2) by auto
  moreover have "nv_Kind nv = k" "nv_Value nv = int_string n"
    using NewNameTypeValue_Ok[OF assms(1)] by simp_all
  ultimately show ?thesis
    using assms(2,3) by (simp add: GetParsedValue_def ParseInt_int_string)
qed

lemma GetParsedValue_string:
  "NewNameTypeValue name (AnyString s) secret = Ok nv \<Longrightarrow> GetParsedValue dec nv = Ok (AnyString s)"
  by (drule NewNameTypeValue_Ok) (simp add: GetParsedValue_def)

lemma GetParsedValue_bool:
  "NewNameTypeValue name (AnyBool b) secret = Ok nv \<Longrightarrow> GetParsedValue dec nv = Ok (AnyBool b)"
  by (drule NewNameTypeValue_Ok) (auto simp: GetParsedValue_def split: if_splits)

lemma HasPrefix_append [simp]: "HasPrefix (p @ s) p"
  by (simp add: HasPrefix_iff)

lemma Decrypt_Encrypt:
  assumes "\<And>key s b. enc key s = Some b \<Longrightarrow> decr key b = Some s"
    and "Encrypt enc key nv = Some nv'"
    and "\<not> HasPrefix (nv_Value nv) encryptedPrefix"
  shows "Decrypt decr key nv' = Some nv"
proof (cases "length key > 0 \<and> nv_Secret nv \<and> nv_Value nv \<noteq> []")
  case True
  with assms(2,3) obtain b where b: "enc key (nv_Value nv) = Some b"
    "nv' = nv\<lparr>nv_Value := encryptedPrefix @ b\<rparr>"
    by (auto simp: Encrypt_def split: option.splits)
  have "encryptedPrefix @ b \<noteq> []" by (simp add: encryptedPrefix_def)
  with True b assms(1)[OF b(1)] show ?thesis by (simp add: Decrypt_def)
next
  case False
  with assms(2) have "nv' = nv" by (auto simp: Encrypt_def)
  with False show ?thesis by (auto simp: Decrypt_def)
qed

lemma Encrypt_idem:
  "Encrypt enc key nv = Some nv' \<Longrightarrow> Encrypt enc key nv' = Some nv'"
  by (auto simp: Encrypt_def split: if_splits option.splits)

subsection \<open>Rows with a lookup map\<close>

lemma rows_inv_Nil [simp]: "rows_inv ([], [])"
  by (simp add: rows_inv_def mkeys_def)

lemma rows_lookup_add [simp]:
  "mget (snd (rows_add ctx st)) n = (if n = nv_Name ctx then Some ctx else mget (snd st) n)"
  by (simp add: rows_add_def Let_def)

lemma rows_names_add:
  "map nv_Name (fst (rows_add ctx st)) =
     (if mget (snd st) (nv_Name ctx) = None then map nv_Name (fst st) @ [nv_Name ctx]
      else map nv_Name (fst st))"
  by (simp add: rows_add_def Let_def comp_def)

lemma rows_add_inv:
  assumes "rows_inv st"
  shows "rows_inv (rows_add ctx st)"
proof -
  let ?n = "nv_Name ctx"
  have names: "set (map nv_Name (fst st)) = set (mkeys (snd st))"
    and dist: "distinct (map nv_Name (fst st))" and w: "mwf (snd st)"
    and val: "\<forall>c \<in> set (fst st). \<exists>l. mget (snd st) (nv_Name c) = Some l \<and> nv_Value l = nv_Value c"
    using assms by (auto simp: rows_inv_def)
  have 1: "distinct (map nv_Name (fst (rows_add ctx st)))"
    unfolding rows_names_add using dist names by (auto simp: mget_None_iff)
  have 2: "set (map nv_Name (fst (rows_add ctx st))) = set (mkeys (snd (rows_add ctx st)))"
    unfolding rows_names_add using names mget_None_iff[of "snd st" ?n]
    by (auto simp: rows_add_def Let_def mkeys_mset)
  have 3: "\<forall>c \<in> set (fst (rows_add ctx st)). \<exists>l. mget (snd (rows_add ctx st)) (nv_Name c) = Some l
      \<and> nv_Value l = nv_Value c"
    using val by (auto simp: rows_add_def Let_def)
  show ?thesis using 1 2 3 w by (simp add: rows_inv_def) (simp add: rows_add_def Let_def)
qed

lemma remove_first_distinct:
  "distinct (map nv_Name rows) \<Longrightarrow>
     remove_first name rows = filter (\<lambda>c. nv_Name c \<noteq> name) rows"
proof (induction rows)
  case (Cons a rows)
  have "filter (\<lambda>c. nv_Name c \<noteq> nv_Name a) rows = rows"
    using Cons.prems by (intro filter_True) (metis distinct.simps(2) image_eqI list.set_map list.simps(9))
  with Cons show ?case by auto
qed simp

lemma rows_lookup_delete [simp]:
  "mget (snd (rows_delete name st)) n = (if n = name then None else mget (snd st) n)"
  by (simp add: rows_delete_def)

lemma rows_delete_inv:
  assumes "rows_inv st"
  shows "rows_inv (rows_delete name st)"
  using assms
  by (auto simp: rows_inv_def rows_delete_def remove_first_distinct mkeys_mdel
      distinct_map_filter)

lemma rows_inv_get:
  assumes "rows_inv st"
  shows "(\<exists>c \<in> set (fst st). nv_Name c = n \<and> nv_Value c = x) \<longleftrightarrow>
     (\<exists>l. mget (snd st) n = Some l \<and> nv_Value l = x)"
proof -
  have names: "set (map nv_Name (fst st)) = set (mkeys (snd st))"
    and val: "\<forall>c \<in> set (fst st). \<exists>l. mget (snd st) (nv_Name c) = Some l \<and> nv_Value l = nv_Value c"
    using assms by (auto simp: rows_inv_def)
  have "\<exists>c \<in> set (fst st). nv_Name c = n" if "mget (snd st) n = Some l" for l
  proof -
    have "n \<in> set (mkeys (snd st))" using that mget_None_iff[of "snd st" n] by simp
    then have "n \<in> nv_Name ` set (fst st)" using names by simp
    then show ?thesis by blast
  qed
  with val show ?thesis by fastforce
qed

lemma rows_load_get:
  assumes "rows_load dec rows lookup = Ok m" and "distinct (map nv_Name rows)"
  shows "mget m n = (case rows_find n rows of Some c \<Rightarrow> Some c | None \<Rightarrow> mget lookup n)"
  using assms
proof (induction rows arbitrary: lookup)
  case (Cons c cs)
  then have m: "mget m n = (case rows_find n cs of Some d \<Rightarrow> Some d | None \<Rightarrow> mget (mset (nv_Name c) c lookup) n)"
    by (auto split: sum.splits)
  have "rows_find (nv_Name c) cs = None"
    using Cons.prems(2) by (simp add: rows_find_def find_None_iff) (metis image_eqI)
  with m show ?case by (auto simp: rows_find_def split: option.splits)
qed (simp add: rows_find_def)

lemma rows_load_mwf: "rows_load dec rows lookup = Ok m \<Longrightarrow> mwf lookup \<Longrightarrow> mwf m"
  by (induction rows arbitrary: lookup) (auto split: sum.splits)

lemma rows_find_mem: "distinct (map nv_Name rows) \<Longrightarrow> c \<in> set rows \<Longrightarrow> rows_find (nv_Name c) rows = Some c"
  by (induction rows) (auto simp: rows_find_def)

lemma rows_load_inv:
  assumes "rows_load dec rows [] = Ok m" and d: "distinct (map nv_Name rows)"
  shows "rows_inv (rows, m)"
proof -
  note g = rows_load_get[OF assms]
  have "n \<in> set (mkeys m) \<longleftrightarrow> n \<in> nv_Name ` set rows" for n
    using mget_None_iff[of m n] g[of n]
    by (auto simp: rows_find_def find_None_iff find_Some_iff split: option.splits)
  then show ?thesis
    using d rows_load_mwf[OF assms(1)] rows_find_mem[OF d] by (auto simp: rows_inv_def g)
qed

lemma rows_load_Ok_iff:
  "is_ok (rows_load dec rows lookup) \<longleftrightarrow> (\<forall>c \<in> set rows. is_ok (GetParsedValue dec c))"
proof (induction rows arbitrary: lookup)
  case (Cons c cs)
  then show ?case by (cases "GetParsedValue dec c") (simp_all add: is_ok_def[of "Inl _"] is_ok_def[of "Inr _"])
qed (simp add: is_ok_def)

subsection \<open>Properties\<close>

text \<open>Storing a string, a boolean or a signed integer as a row and parsing the row gives the
  value back, an integer widened to int64; whatever is stored, the row has the name and the
  secrecy that were asked for and a text within the limit.\<close>

theorem value_roundtrip:
  assumes "NewNameTypeValue name v secret = Ok nv"
  shows "nv_Name nv = name \<and> nv_Secret nv = secret \<and> length (nv_Value nv) \<le> maxConfigValueLength \<and>
     (case v of
        AnyString s \<Rightarrow> GetParsedValue dec nv = Ok (AnyString s)
      | AnyBool b \<Rightarrow> GetParsedValue dec nv = Ok (AnyBool b)
      | AnyInt k n \<Rightarrow> HasPrefix k ''int'' \<and> in_i64 n \<longrightarrow> GetParsedValue dec nv = Ok (AnyInt ''int64'' n)
      | _ \<Rightarrow> True)"
  using assms NewNameTypeValue_Ok[OF assms] GetParsedValue_string GetParsedValue_bool GetParsedValue_int
  by (cases v) auto

theorem value_roundtrip_witness:
  "\<exists>nv. NewNameTypeValue ''size'' (AnyInt ''int32'' (-42)) True = Ok nv \<and>
     GetParsedValue (\<lambda>k t. None) nv = Ok (AnyInt ''int64'' (-42))"
proof -
  obtain nv where nv: "NewNameTypeValue ''size'' (AnyInt ''int32'' (-42)) True = Ok nv"
    by (simp add: NewNameTypeValue_def maxConfigValueLength_def int_string_def nat_string.simps)
  from value_roundtrip[OF nv, of "\<lambda>k t. None"] nv show ?thesis by (simp add: in_i64_def)
qed

text \<open>When the cipher inverts itself, decrypting an encrypted row gives the row back, and
  encrypting twice is encrypting once; the value must not itself begin with the marker of
  encrypted texts.\<close>

theorem encrypt_roundtrip:
  assumes "\<And>key s b. enc key s = Some b \<Longrightarrow> decr key b = Some s"
    and "Encrypt enc key nv = Some nv'"
    and "\<not> HasPrefix (nv_Value nv) encryptedPrefix"
  shows "Decrypt decr key nv' = Some nv \<and> Encrypt enc key nv' = Some nv'"
  using Decrypt_Encrypt[of enc decr, OF assms] Encrypt_idem[OF assms(2)] by simp

theorem encrypt_roundtrip_witness:
  "let nv = \<lparr>nv_Name = ''n'', nv_Kind = ''string'', nv_Value = ''pw'', nv_Secret = True\<rparr>;
       enc = (\<lambda>key s. Some (rev s))
   in \<exists>nv'. Encrypt enc ''k'' nv = Some nv' \<and> nv_Value nv' = ''_ENCRYPTED_wp'' \<and>
        Decrypt enc ''k'' nv' = Some nv"
proof -
  let ?nv = "\<lparr>nv_Name = ''n'', nv_Kind = ''string'', nv_Value = ''pw'', nv_Secret = True\<rparr>"
  let ?enc = "\<lambda>(key :: string) (s :: string). Some (rev s)"
  let ?nv' = "?nv\<lparr>nv_Value := ''_ENCRYPTED_wp''\<rparr>"
  have e: "Encrypt ?enc ''k'' ?nv = Some ?nv'" by (simp add: Encrypt_def encryptedPrefix_def)
  have "Decrypt ?enc ''k'' ?nv' = Some ?nv"
    using encrypt_roundtrip[of ?enc ?enc "''k''" ?nv ?nv'] e by (simp add: encryptedPrefix_def)
  with e show ?thesis by simp
qed

end
