(* ===== verification/Task_Definition.thy ===== *)
theory Task_Definition
  imports Task_Method Name_Value
begin

text \<open>
  Task definitions (\<open>queen/types/task_definition.go\<close>) with the fan-out configuration
  (\<open>internal/types/fan_out_config.go\<close>) and the error codes a task definition refers to
  (\<open>internal/types/error_code.go\<close>): validation, the table of exit codes that drives the job,
  the override of a task's status by its exit code, and retry delays.

  \<open>OnExitCode\<close> is a Go map from states to targets; a nil map is the empty one.  The
  serialized form of the table is kept as the JSON object it denotes (\<open>json_map\<close>).  The
  script, header, resource and webhook fields of the Go struct play no part in these
  operations and are not in the record.
\<close>

subsection \<open>Fan-out\<close>

record FanOutConfig =
  fo_Source :: string
  fo_ItemVar :: string
  fo_MaxParallel :: int
  fo_FailFast :: bool
  fo_ExecutionMethod :: TaskMethod
  fo_ForkJobType :: string
  fo_ForkJobVersion :: string

datatype task_error =
    FanOutSourceRequired | FanOutSourceTooLong | FanOutItemVarRequired | FanOutItemVarTooLong
  | FanOutMaxParallelNegative | FanOutForkJobTypeTooLong
  | TaskTypeMissing | MethodNotSupported TaskMethod | TaskTypeTooBig | DescriptionTooBig
  | HostNetworkTooBig | ExitCodesNotJSON

definition fan_out_Validate :: "FanOutConfig option \<Rightarrow> task_error option" where
  "fan_out_Validate f = (case f of
       None \<Rightarrow> None
     | Some c \<Rightarrow>
         if fo_Source c = [] then Some FanOutSourceRequired
         else if length (fo_Source c) > 200 then Some FanOutSourceTooLong
         else if fo_ItemVar c = [] then Some FanOutItemVarRequired
         else if length (fo_ItemVar c) > 100 then Some FanOutItemVarTooLong
         else if fo_MaxParallel c < 0 then Some FanOutMaxParallelNegative
         else if length (fo_ForkJobType c) > 200 then Some FanOutForkJobTypeTooLong
         else None)"

subsection \<open>Error codes\<close>

definition ErrorFatal :: string where "ErrorFatal = ''ERR_FATAL''"
definition ErrorRestartJob :: string where "ErrorRestartJob = ''ERR_RESTART_JOB''"
definition ErrorPauseJob :: string where "ErrorPauseJob = ''ERR_PAUSE_JOB''"
definition ErrorManualApprovalRequired :: string where
  "ErrorManualApprovalRequired = ''ERR_MANUAL_APPROVAL_REQUIRED''"
definition ErrorManualRejection :: string where "ErrorManualRejection = ''ERR_MANUAL_REJECTION''"
definition ErrorRestartTask :: string where "ErrorRestartTask = ''ERR_RESTART_TASK''"
definition ErrorTaskExecute :: string where "ErrorTaskExecute = ''ERR_TASK_EXECUTE''"
definition ErrorJobExecute :: string where "ErrorJobExecute = ''ERR_JOB_EXECUTE''"
definition ErrorInvalidNextTask :: string where "ErrorInvalidNextTask = ''ERR_INVALID_NEXT_TASK''"
definition ErrorTaskTimedOut :: string where "ErrorTaskTimedOut = ''ERR_TASK_TIMED_OUT''"

datatype ErrorCodeAction = NoAction | SuspendJob | RetryJob | RetryTask | HardFailure

record ErrorCode =
  ec_Regex :: string
  ec_ExitCode :: int
  ec_ErrorCode :: string
  ec_JobType :: string
  ec_TaskTypeScope :: string
  ec_PlatformScope :: string
  ec_CommandScope :: string
  ec_UserID :: string
  ec_OrganizationID :: string
  ec_Action :: ErrorCodeAction
  ec_HardFailure :: bool
  ec_Retry :: int

text \<open>\<open>match\<close> is \<open>regexp.MatchString\<close>: None when the expression does not compile.\<close>

definition error_code_Matches :: "(string \<Rightarrow> string \<Rightarrow> bool option) \<Rightarrow> ErrorCode \<Rightarrow> string \<Rightarrow> bool" where
  "error_code_Matches match ec msg = (msg \<noteq> [] \<and> match (ec_Regex ec) msg = Some True)"

datatype error_code_error = ErrorCodeMissing | RegexMissing

definition error_code_Validate :: "ErrorCode \<Rightarrow> error_code_error option" where
  "error_code_Validate ec =
     (let e1 = (if ec_ErrorCode ec = [] then Some ErrorCodeMissing else None)
      in if ec_Regex ec = [] \<and> ec_ExitCode ec = 0 then Some RegexMissing else e1)"

subsection \<open>Task definitions\<close>

datatype json_map = NotSerialized | BadJSON | Serialized "(string, string) gomap"

record TaskDefinition =
  td_ID :: string
  td_JobDefinitionID :: string
  td_TaskType :: string
  td_Method :: TaskMethod
  td_Description :: string
  td_HostNetwork :: string
  td_AllowFailure :: bool
  td_AllowStartIfCompleted :: bool
  td_AlwaysRun :: bool
  td_Timeout :: int
  td_Retry :: int
  td_DelayBetweenRetries :: int
  td_OnExitCodeSerialized :: json_map
  td_OnExitCode :: "(RequestState, string) gomap"
  td_OnCompleted :: string
  td_OnFailed :: string
  td_Variables :: "NameTypeValue list"
  td_TaskOrder :: int
  td_ReportStdout :: bool
  td_Tags :: "string list"
  td_Except :: string
  td_JobVersion :: string
  td_Dependencies :: "string list"
  td_ArtifactIDs :: "string list"
  td_FanOut :: "FanOutConfig option"

definition NewTaskDefinition :: "string \<Rightarrow> TaskMethod \<Rightarrow> TaskDefinition" where
  "NewTaskDefinition taskType m =
     \<lparr>td_ID = [], td_JobDefinitionID = [], td_TaskType = taskType, td_Method = m,
      td_Description = [], td_HostNetwork = [], td_AllowFailure = False,
      td_AllowStartIfCompleted = False, td_AlwaysRun = False, td_Timeout = 0, td_Retry = 0,
      td_DelayBetweenRetries = 0, td_OnExitCodeSerialized = NotSerialized, td_OnExitCode = [],
      td_OnCompleted = [], td_OnFailed = [], td_Variables = [], td_TaskOrder = 0,
      td_ReportStdout = False, td_Tags = [], td_Except = [], td_JobVersion = [],
      td_Dependencies = [], td_ArtifactIDs = [], td_FanOut = None\<rparr>"

text \<open>The target of a state in the exit-code table; a missing entry reads as the empty string.\<close>

definition exit_target :: "TaskDefinition \<Rightarrow> RequestState \<Rightarrow> string" where
  "exit_target td st = (case mget (td_OnExitCode td) st of None \<Rightarrow> [] | Some target \<Rightarrow> target)"

text \<open>The parts of \<open>Validate\<close>: lines 392 to 403 (the default method and the lower-case tags) and
  lines 417 to 427 (fan-out).\<close>

definition task_default_method :: "TaskDefinition \<Rightarrow> TaskDefinition" where
  "task_default_method td = (if td_Method td = NoMethod then td\<lparr>td_Method := Kubernetes\<rparr> else td)"

definition task_lower_tags :: "TaskDefinition \<Rightarrow> TaskDefinition" where
  "task_lower_tags td = td\<lparr>td_Tags := map ToLower (td_Tags td)\<rparr>"

definition task_fan_out :: "TaskDefinition \<Rightarrow> (task_error, TaskDefinition) result" where
  "task_fan_out td =
     (case td_FanOut td of
        None \<Rightarrow> Ok td
      | Some f \<Rightarrow>
          (let f1 = (if fo_ExecutionMethod f = NoMethod
                     then f\<lparr>fo_ExecutionMethod := td_Method td\<rparr> else f)
           in case fan_out_Validate (Some f1) of
                Some e \<Rightarrow> Err e
              | None \<Rightarrow> Ok (td\<lparr>td_FanOut := Some f1, td_Method := FanOutJob\<rparr>)))"

definition task_Validate :: "TaskDefinition \<Rightarrow> (task_error, TaskDefinition) result" where
  "task_Validate td =
     (if td_TaskType td = [] then Err TaskTypeMissing
      else if \<not> method_IsValid (td_Method (task_default_method td))
      then Err (MethodNotSupported (td_Method (task_default_method td)))
      else if length (td_TaskType td) > 100 then Err TaskTypeTooBig
      else if length (td_Description td) > 500 then Err DescriptionTooBig
      else if length (td_HostNetwork td) > 100 then Err HostNetworkTooBig
      else task_fan_out (task_lower_tags (task_default_method td)))"

definition AddExitCode :: "TaskDefinition \<Rightarrow> string \<Rightarrow> string \<Rightarrow> TaskDefinition" where
  "AddExitCode td status task =
     td\<lparr>td_OnExitCode := mset (NewRequestState status) task (td_OnExitCode td)\<rparr>"

text \<open>The loop of the second branch upper-cases the keys of the table in place; the range over
  the map reads the value that is stored when the key is visited.\<close>

definition LoadOnExitCode :: "TaskDefinition \<Rightarrow> (task_error, TaskDefinition) result" where
  "LoadOnExitCode td =
     (let loaded = (case td_OnExitCodeSerialized td of
            BadJSON \<Rightarrow> None
          | Serialized m \<Rightarrow> Some (fold (\<lambda>(k, v). mset (NewRequestState k) v) m [])
          | NotSerialized \<Rightarrow> Some (fold (\<lambda>k m. case mget m k of
                None \<Rightarrow> m
              | Some v \<Rightarrow> mset (NewRequestState (state_string k)) v m)
              (mkeys (td_OnExitCode td)) (td_OnExitCode td)))
      in case loaded of
           None \<Rightarrow> Err ExitCodesNotJSON
         | Some m \<Rightarrow>
             (let m1 = (if td_OnCompleted td \<noteq> [] then mset COMPLETED (td_OnCompleted td) m else m);
                  m2 = (if td_OnFailed td \<noteq> [] then mset FAILED (td_OnFailed td) m1 else m1)
              in Ok (td\<lparr>td_OnExitCode := m2\<rparr>)))"

definition SaveOnExitCode :: "TaskDefinition \<Rightarrow> TaskDefinition" where
  "SaveOnExitCode td =
     (if length (td_OnExitCode td) > 0
      then td\<lparr>td_OnExitCodeSerialized :=
             Serialized (map (\<lambda>(k, v). (state_string k, v)) (td_OnExitCode td))\<rparr>
      else td\<lparr>td_OnExitCodeSerialized := NotSerialized\<rparr>)"

text \<open>\<open>backoff\<close> is the back-off policy (Some when it is configured with a positive minimum), a
  function of the attempt; \<open>rnd\<close> the number drawn by \<open>rand.Int\<close>, None when it fails.  The
  second component is the definition with the delay remembered.\<close>

definition task_GetDelayBetweenRetries ::
  "(int \<Rightarrow> int) option \<Rightarrow> nat option \<Rightarrow> TaskDefinition \<Rightarrow> int \<Rightarrow> int \<times> TaskDefinition" where
  "task_GetDelayBetweenRetries backoff rnd td attempt =
     (case backoff of
        Some f \<Rightarrow> (f attempt, td)
      | None \<Rightarrow>
          if td_DelayBetweenRetries td \<le> 0 then
            (let d = (case rnd of Some n \<Rightarrow> Second * (int n + 1) | None \<Rightarrow> Second * 2)
             in (d, td\<lparr>td_DelayBetweenRetries := d\<rparr>))
          else (td_DelayBetweenRetries td, td))"

definition HasNext :: "TaskDefinition \<Rightarrow> bool" where
  "HasNext td = (length (td_OnExitCode td) > 0 \<or> td_OnCompleted td \<noteq> [] \<or> td_OnFailed td \<noteq> [])"

definition MaskTaskVariables :: "TaskDefinition \<Rightarrow> NameTypeValue list" where
  "MaskTaskVariables td = filter (\<lambda>v. \<not> nv_Secret v) (td_Variables td)"

text \<open>The empty state and the empty code mean that nothing is overridden.\<close>

definition OverrideStatusAndErrorCode :: "TaskDefinition \<Rightarrow> string \<Rightarrow> RequestState \<times> string" where
  "OverrideStatusAndErrorCode td exitCode =
     (if length (td_OnExitCode td) = 0 then (NoState, [])
      else
        (let target = exit_target td (NewRequestState exitCode);
             targetState = NewRequestState target
         in if targetState = FATAL then (FAILED, ErrorFatal)
            else if targetState = FAILED then (FAILED, [])
            else if targetState = COMPLETED then (COMPLETED, [])
            else if targetState = EXECUTING then (EXECUTING, [])
            else if targetState = RESTART_JOB then (FAILED, ErrorRestartJob)
            else if targetState = PAUSE_JOB then (PAUSED, ErrorPauseJob)
            else if targetState = WAIT_FOR_APPROVAL then
              (MANUAL_APPROVAL_REQUIRED, ErrorManualApprovalRequired)
            else if targetState = RESTART_TASK then (FAILED, ErrorRestartTask)
            else if HasPrefix target ''ERR_'' then (FAILED, target)
            else (NoState, [])))"

definition getReservedConfigProperties :: "string list" where
  "getReservedConfigProperties = [''headers'', ''after_script'', ''before_script'', ''script'',
     ''resources'', ''required_params'', ''executor_options'', ''tags'', ''except'',
     ''job_version'', ''dependencies'', ''artifact_ids'']"

definition isReservedConfigProperties :: "string \<Rightarrow> bool" where
  "isReservedConfigProperties name = List.member getReservedConfigProperties name"

definition FilteredVariables :: "TaskDefinition \<Rightarrow> NameTypeValue list" where
  "FilteredVariables td = filter (\<lambda>c. \<not> isReservedConfigProperties (nv_Name c)) (td_Variables td)"

text \<open>The keys of the table are as \<open>NewRequestState\<close> makes them.\<close>

definition upper_keys :: "(RequestState, string) gomap \<Rightarrow> bool" where
  "upper_keys m = (\<forall>(k, v) \<in> set m. NewRequestState (state_string k) = k)"

subsection \<open>Lemmas\<close>

lemma ToLower_idem [simp]: "ToLower (ToLower s) = ToLower s"
proof -
  have "lower_char (lower_char c) = lower_char c" for c
  proof (cases "65 \<le> (of_char c :: nat) \<and> (of_char c :: nat) \<le> 90")
    case True
    then have "(of_char c + 32) mod 256 = (of_char c + 32 :: nat)"
      by (intro mod_less) linarith
    with True show ?thesis by (simp add: lower_char_def Let_def)
  next
    case False
    then show ?thesis by (auto simp: lower_char_def Let_def)
  qed
  then show ?thesis by (simp add: ToLower_def)
qed

lemma method_IsValid_simps [simp]:
  "method_IsValid Kubernetes" "method_IsValid FanOutJob" "\<not> method_IsValid (RawMethod s)"
  by (simp_all add: method_IsValid_def)

text \<open>What a validated task looks like, and that validating it again changes nothing.\<close>

lemma task_defaults_fields [simp]:
  "td_TaskType (task_lower_tags (task_default_method td)) = td_TaskType td"
  "td_Description (task_lower_tags (task_default_method td)) = td_Description td"
  "td_HostNetwork (task_lower_tags (task_default_method td)) = td_HostNetwork td"
  "td_Tags (task_lower_tags (task_default_method td)) = map ToLower (td_Tags td)"
  "td_OnExitCode (task_lower_tags (task_default_method td)) = td_OnExitCode td"
  "td_OnCompleted (task_lower_tags (task_default_method td)) = td_OnCompleted td"
  "td_OnFailed (task_lower_tags (task_default_method td)) = td_OnFailed td"
  "td_AllowFailure (task_lower_tags (task_default_method td)) = td_AllowFailure td"
  "td_AlwaysRun (task_lower_tags (task_default_method td)) = td_AlwaysRun td"
  "td_FanOut (task_lower_tags (task_default_method td)) = td_FanOut td"
  "td_Method (task_lower_tags (task_default_method td)) = td_Method (task_default_method td)"
  by (simp_all add: task_lower_tags_def task_default_method_def)

lemma task_fan_out_cases:
  assumes "task_fan_out td = Ok td'"
  obtains (plain) "td_FanOut td = None" "td' = td"
  | (fan) f f1 where "td_FanOut td = Some f"
      "f1 = (if fo_ExecutionMethod f = NoMethod then f\<lparr>fo_ExecutionMethod := td_Method td\<rparr> else f)"
      "fan_out_Validate (Some f1) = None" "td' = td\<lparr>td_FanOut := Some f1, td_Method := FanOutJob\<rparr>"
  using assms by (auto simp: task_fan_out_def Let_def split: option.splits)

lemma task_Validate_stages:
  assumes "task_Validate td = Ok td'"
  shows "td_TaskType td \<noteq> []" "method_IsValid (td_Method (task_default_method td))"
    "length (td_TaskType td) \<le> 100" "length (td_Description td) \<le> 500"
    "length (td_HostNetwork td) \<le> 100"
    "task_fan_out (task_lower_tags (task_default_method td)) = Ok td'"
  using assms by (simp_all add: task_Validate_def split: if_splits)

lemma task_Validate_Ok:
  assumes "task_Validate td = Ok td'"
  shows "td_TaskType td' = td_TaskType td" "td_TaskType td' \<noteq> []" "length (td_TaskType td') \<le> 100"
    "method_IsValid (td_Method td')" "td_Tags td' = map ToLower (td_Tags td)"
    "td_OnExitCode td' = td_OnExitCode td" "td_OnCompleted td' = td_OnCompleted td"
    "td_OnFailed td' = td_OnFailed td" "td_AllowFailure td' = td_AllowFailure td"
    "td_AlwaysRun td' = td_AlwaysRun td" "td_FanOut td' \<noteq> None \<longrightarrow> td_Method td' = FanOutJob"
  using task_Validate_stages[OF assms] by (auto elim: task_fan_out_cases)

lemma task_default_method_valid: "method_IsValid (td_Method td) \<Longrightarrow> task_default_method td = td"
  by (auto simp: task_default_method_def)

lemma task_lower_tags_lower: "td_Tags td = map ToLower ts \<Longrightarrow> task_lower_tags td = td"
  by (simp add: task_lower_tags_def comp_def)

lemma task_fan_out_idem:
  assumes "task_fan_out td = Ok td'" and "method_IsValid (td_Method td)"
  shows "task_fan_out td' = Ok td'"
  using assms(1)
proof (cases rule: task_fan_out_cases)
  case (fan f f1)
  have "fo_ExecutionMethod f1 \<noteq> NoMethod" using fan(2) assms(2) by auto
  with fan show ?thesis by (simp add: task_fan_out_def)
qed (simp add: task_fan_out_def)

lemma task_Validate_idem:
  assumes "task_Validate td = Ok td'"
  shows "task_Validate td' = Ok td'"
proof -
  note st = task_Validate_stages[OF assms]
  note ok = task_Validate_Ok[OF assms]
  have "task_lower_tags (task_default_method td') = td'"
    using ok by (simp add: task_default_method_valid task_lower_tags_lower)
  moreover have "task_fan_out td' = Ok td'"
    by (rule task_fan_out_idem[OF st(6)]) (simp add: st(2))
  moreover have "length (td_Description td') \<le> 500" "length (td_HostNetwork td') \<le> 100"
    using st by (auto elim: task_fan_out_cases)
  ultimately show ?thesis
    using ok by (simp add: task_Validate_def task_default_method_valid)
qed

lemma OverrideStatus_cases:
  "fst (OverrideStatusAndErrorCode td exitCode) \<in>
     {NoState, FAILED, COMPLETED, EXECUTING, PAUSED, MANUAL_APPROVAL_REQUIRED}"
  by (simp add: OverrideStatusAndErrorCode_def Let_def)

lemma task_delay_positive:
  assumes "backoff = None"
  shows "fst (task_GetDelayBetweenRetries backoff rnd td attempt) > 0"
    and "snd (task_GetDelayBetweenRetries backoff rnd
           (snd (task_GetDelayBetweenRetries backoff rnd td attempt)) attempt') =
         snd (task_GetDelayBetweenRetries backoff rnd td attempt)"
  using assms by (auto simp: task_GetDelayBetweenRetries_def Let_def split: option.splits)

text \<open>Saving the table and loading it gives back the entries under upper-case keys.\<close>

lemma map_of_rev_mwf: "mwf m \<Longrightarrow> map_of (rev m) k = mget m k"
proof (cases "mget m k")
  case None
  then have "map_of m k = None" by (simp add: mget_def)
  then have "map_of (rev m) k = None" by (metis map_of_eq_None_iff set_rev)
  with None show ?thesis by simp
next
  case (Some v)
  assume "mwf m"
  moreover from this Some have "(k, v) \<in> set (rev m)" by (simp add: mget_eq_Some_iff)
  ultimately have "map_of (rev m) k = Some v"
    by (intro map_of_is_SomeI) (simp_all add: mwf_def rev_map[symmetric])
  with Some show ?thesis by simp
qed

lemma fold_upper_keys:
  assumes "upper_keys m"
  shows "fold (\<lambda>(k, v). mset (NewRequestState k) v) (map (\<lambda>(k, v). (state_string k, v)) m) acc =
     fold (\<lambda>(k, v). mset k v) m acc"
  using assms by (induction m arbitrary: acc) (auto simp: upper_keys_def)

lemma LoadOnExitCode_SaveOnExitCode:
  assumes "mwf (td_OnExitCode td)" and "upper_keys (td_OnExitCode td)"
    and "td_OnExitCode td \<noteq> []"
    and "td_OnCompleted td \<noteq> [] \<longrightarrow> mget (td_OnExitCode td) COMPLETED = Some (td_OnCompleted td)"
    and "td_OnFailed td \<noteq> [] \<longrightarrow> mget (td_OnExitCode td) FAILED = Some (td_OnFailed td)"
  shows "\<exists>td'. LoadOnExitCode (SaveOnExitCode td) = Ok td' \<and>
     (\<forall>st. mget (td_OnExitCode td') st = mget (td_OnExitCode td) st)"
proof -
  let ?m = "fold (\<lambda>(k, v). mset k v) (td_OnExitCode td) []"
  have m: "mget ?m st = mget (td_OnExitCode td) st" for st
    using assms(1) by (simp add: mget_fold_pairs map_of_rev_mwf split: option.splits)
  show ?thesis
    using assms(3-5)
    by (simp add: LoadOnExitCode_def SaveOnExitCode_def Let_def fold_upper_keys[OF assms(2)] m)
qed



subsection \<open>Properties\<close>



text \<open>Saving the exit-code table of a task and loading it gives back the same table, provided
  its keys are upper-case states and the shorthands on_completed and on_failed agree with it.\<close>

theorem exit_codes_roundtrip:
  assumes "mwf (td_OnExitCode td)" and "upper_keys (td_OnExitCode td)"
    and "td_OnExitCode td \<noteq> []"
    and "td_OnCompleted td \<noteq> [] \<longrightarrow> mget (td_OnExitCode td) COMPLETED = Some (td_OnCompleted td)"
    and "td_OnFailed td \<noteq> [] \<longrightarrow> mget (td_OnExitCode td) FAILED = Some (td_OnFailed td)"
  shows "\<exists>td'. LoadOnExitCode (SaveOnExitCode td) = Ok td' \<and>
     (\<forall>st. mget (td_OnExitCode td') st = mget (td_OnExitCode td) st)"
  by (rule LoadOnExitCode_SaveOnExitCode[OF assms])

theorem exit_codes_roundtrip_witness:
  "let td = AddExitCode (AddExitCode (NewTaskDefinition ''t'' Shell) ''completed'' ''u'') ''3'' ''FATAL''
   in \<exists>td'. LoadOnExitCode (SaveOnExitCode td) = Ok td' \<and>
        mget (td_OnExitCode td') COMPLETED = Some ''u''"
proof -
  let ?td = "AddExitCode (AddExitCode (NewTaskDefinition ''t'' Shell) ''completed'' ''u'') ''3'' ''FATAL''"
  have n: "NewRequestState ''completed'' = COMPLETED" "NewRequestState ''3'' = RawState ''3''"
    by code_simp+
  have codes: "td_OnExitCode ?td = [(COMPLETED, ''u''), (RawState ''3'', ''FATAL'')]"
    by (simp add: AddExitCode_def NewTaskDefinition_def n mset_Cons)
  have short: "td_OnCompleted ?td = []" "td_OnFailed ?td = []"
    by (simp_all add: AddExitCode_def NewTaskDefinition_def)
  have "upper_keys (td_OnExitCode ?td)"
    unfolding codes upper_keys_def by code_simp
  then show ?thesis
    using exit_codes_roundtrip[of ?td] by (auto simp: codes short mwf_def mget_Cons)
qed

end
