(* ===== verification/Job_Definition.thy ===== *)
theory Job_Definition
  imports Task_Definition
begin

text \<open>
  Job definitions (\<open>queen/types/job_definition.go\<close>): the graph of tasks with its validation,
  the choice of the next task, variables and configurations, semantic versions, retention
  and retry delays; with trigger definitions (\<open>queen/types/trigger_definition.go\<close>) and
  notification settings (\<open>internal/types/job_notify_config.go\<close>).

  \<open>cron\<close> stands for the cron library: None when \<open>MustParse\<close> panics, otherwise the function
  \<open>Next\<close> (None is the zero time).  \<open>valid_email\<close> is the match of an address against the
  regular expression of the package.  YAML loading and template expansion are not modelled.
  A job's \<open>lookupTasks\<close> holds the tasks by type.  A failed validation returns the error only;
  the partly normalized value the Go code leaves behind is not used by its callers.
\<close>

subsection \<open>Triggers and notifications\<close>

record TriggerAuth =
  ta_Method :: string
  ta_SecretConfig :: string

record TriggerDefinition =
  tr_Type :: string
  tr_Name :: string
  tr_Auth :: "TriggerAuth option"
  tr_Mode :: string
  tr_Bucket :: string
  tr_Topic :: string
  tr_RateLimit :: "(int \<times> int) option"

datatype trigger_error = TriggerNameRequired | AuthMethodRequired | AuthSecretRequired
  | BucketRequired | BadMode | TopicRequired | BadTriggerType | BadRateMax | BadRateWindow

definition trigger_type_error :: "TriggerDefinition \<Rightarrow> trigger_error option" where
  "trigger_type_error t =
     (if tr_Type t = ''webhook'' then
        (case tr_Auth t of
           None \<Rightarrow> None
         | Some a \<Rightarrow> if ta_Method a = [] then Some AuthMethodRequired
                     else if ta_SecretConfig a = [] then Some AuthSecretRequired else None)
      else if tr_Type t = ''s3'' then
        (if tr_Bucket t = [] then Some BucketRequired
         else if tr_Mode t \<noteq> [] \<and> tr_Mode t \<noteq> ''poll'' \<and> tr_Mode t \<noteq> ''notification'' then Some BadMode
         else if tr_Mode t = ''notification'' \<and> tr_Topic t = [] then Some TopicRequired
         else None)
      else if tr_Type t = ''queue'' then
        (if tr_Topic t = [] then Some TopicRequired else None)
      else Some BadTriggerType)"

definition trigger_Validate :: "TriggerDefinition \<Rightarrow> trigger_error option" where
  "trigger_Validate t =
     (if tr_Name t = [] then Some TriggerNameRequired
      else case trigger_type_error t of
             Some e \<Rightarrow> Some e
           | None \<Rightarrow> (case tr_RateLimit t of
                 None \<Rightarrow> None
               | Some (mx, window) \<Rightarrow> if mx \<le> 0 then Some BadRateMax
                                     else if window \<le> 0 then Some BadRateWindow else None))"

datatype NotifyWhen = NotifyWhenUnset | NotifyWhenOnSuccess | NotifyWhenOnFailure
  | NotifyWhenAlways | NotifyWhenNever | NotifyWhenOther string

definition Accept :: "NotifyWhen \<Rightarrow> RequestState \<Rightarrow> RequestState \<Rightarrow> bool" where
  "Accept w state lastState =
     (if w = NotifyWhenUnset \<or> w = NotifyWhenNever then True
      else w = NotifyWhenAlways \<or>
           (Completed state \<and> w = NotifyWhenOnSuccess) \<or>
           (Failed state \<and> w = NotifyWhenOnFailure) \<or>
           (Completed state \<and> w = NotifyWhenOnFailure \<and> Failed lastState))"

record JobNotifyConfig =
  nc_Recipients :: "string list"
  nc_When :: NotifyWhen

definition ValidateEmail :: "(string \<Rightarrow> bool) \<Rightarrow> JobNotifyConfig \<Rightarrow> bool" where
  "ValidateEmail valid_email c = list_all (\<lambda>email. email \<noteq> [] \<and> valid_email email) (nc_Recipients c)"

text \<open>\<open>SetEmails\<close> and \<open>SetChannels\<close> return the changed configuration and whether they succeed;
  on a malformed address the recipients are those before it.\<close>

datatype notify_error = EmailNotValid string | RecipientsMissing

definition recipients :: "string \<Rightarrow> string list" where
  "recipients raw = filter (\<lambda>r. r \<noteq> []) (map (\<lambda>r. TrimSpace (ToLower r)) (SplitChar (CHR '','') raw))"

definition SetEmails ::
  "(string \<Rightarrow> bool) \<Rightarrow> JobNotifyConfig \<Rightarrow> string \<Rightarrow> JobNotifyConfig \<times> notify_error option" where
  "SetEmails valid_email c rawEmail =
     (let accepted = takeWhile valid_email (recipients rawEmail);
          rest = dropWhile valid_email (recipients rawEmail)
      in (c\<lparr>nc_Recipients := accepted\<rparr>,
          if rest \<noteq> [] then Some (EmailNotValid (hd rest))
          else if accepted = [] then Some RecipientsMissing else None))"

definition SetChannels :: "JobNotifyConfig \<Rightarrow> string \<Rightarrow> JobNotifyConfig \<times> notify_error option" where
  "SetChannels c rawChannel =
     (c\<lparr>nc_Recipients := recipients rawChannel\<rparr>,
      if recipients rawChannel = [] then Some RecipientsMissing else None)"

subsection \<open>Job definitions\<close>

record JobDefinition =
  jd_ID :: string
  jd_JobType :: string
  jd_Version :: int
  jd_SemVersion :: string
  jd_URL :: string
  jd_UserID :: string
  jd_OrganizationID :: string
  jd_Description :: string
  jd_Platform :: string
  jd_CronTrigger :: string
  jd_Timeout :: int
  jd_PauseTime :: int
  jd_Retry :: int
  jd_HardResetAfterRetries :: int
  jd_DelayBetweenRetries :: int
  jd_MaxConcurrency :: int
  jd_RetentionDaysForFailed :: int
  jd_RetentionDaysForCompleted :: int
  jd_RetentionDaysForCancelled :: int
  jd_Disabled :: bool
  jd_PublicPlugin :: bool
  jd_UsesTemplate :: bool
  jd_Tags :: string
  jd_Methods :: string
  jd_RawYaml :: string
  jd_RequiredParams :: "string list"
  jd_Tasks :: "TaskDefinition list"
  jd_Configs :: "NameTypeValue list"
  jd_Variables :: "NameTypeValue list"
  jd_Notify :: "(string, JobNotifyConfig) gomap"
  jd_Triggers :: "TriggerDefinition list"
  jd_lookupTasks :: "(string, TaskDefinition) gomap"

datatype job_error =
    JobTypeMissing | JobTypeTooBig | URLTooBig | JobDescriptionTooBig | PlatformTooBig | TagsTooBig
  | PluginTypeInvalid | SemVersionInvalid | CronPanic | CronInvalid | TasksMissing | TooManyTasks
  | TaskInvalid task_error | MethodsMissing | RawYamlMissing | DuplicateTask string
  | NoStartingTask | EmailInvalid | EmptyTarget string | UndefinedTarget string string
  | TaskNotReachable string | NoFirstTask | DuplicateTrigger string | TriggerInvalid trigger_error

definition NewJobDefinition :: "string \<Rightarrow> JobDefinition" where
  "NewJobDefinition jobType =
     \<lparr>jd_ID = [], jd_JobType = jobType, jd_Version = 0, jd_SemVersion = [], jd_URL = [], jd_UserID = [],
      jd_OrganizationID = [], jd_Description = [], jd_Platform = [], jd_CronTrigger = [],
      jd_Timeout = 0, jd_PauseTime = 0, jd_Retry = 0, jd_HardResetAfterRetries = 0,
      jd_DelayBetweenRetries = 0, jd_MaxConcurrency = 3, jd_RetentionDaysForFailed = 0,
      jd_RetentionDaysForCompleted = 0, jd_RetentionDaysForCancelled = 0, jd_Disabled = False,
      jd_PublicPlugin = False, jd_UsesTemplate = False, jd_Tags = [], jd_Methods = [],
      jd_RawYaml = [], jd_RequiredParams = [], jd_Tasks = [], jd_Configs = [], jd_Variables = [], jd_Notify = [],
      jd_Triggers = [], jd_lookupTasks = []\<rparr>"

definition job_Editable :: "JobDefinition \<Rightarrow> string \<Rightarrow> string \<Rightarrow> bool" where
  "job_Editable jd userID organizationID =
     (if jd_OrganizationID jd \<noteq> [] \<or> organizationID \<noteq> [] then jd_OrganizationID jd = organizationID
      else jd_UserID jd = userID)"

definition job_GetDelayBetweenRetries ::
  "(int \<Rightarrow> int) option \<Rightarrow> nat option \<Rightarrow> JobDefinition \<Rightarrow> int \<Rightarrow> int \<times> JobDefinition" where
  "job_GetDelayBetweenRetries backoff rnd jd attempt =
     (case backoff of
        Some f \<Rightarrow> (f attempt, jd)
      | None \<Rightarrow>
          if jd_DelayBetweenRetries jd \<le> 0 then
            (let d = (case rnd of Some n \<Rightarrow> Second * (int n + 5) | None \<Rightarrow> Second * 10)
             in (d, jd\<lparr>jd_DelayBetweenRetries := d\<rparr>))
          else (jd_DelayBetweenRetries jd, jd))"

definition GetPauseTime :: "nat option \<Rightarrow> JobDefinition \<Rightarrow> int \<times> JobDefinition" where
  "GetPauseTime rnd jd =
     (if jd_PauseTime jd \<le> 0 then
        (let d = (case rnd of Some n \<Rightarrow> Second * (int n + 30) | None \<Rightarrow> Second * 30)
         in (d, jd\<lparr>jd_PauseTime := d\<rparr>))
      else (jd_PauseTime jd, jd))"

definition job_GetTask :: "JobDefinition \<Rightarrow> string \<Rightarrow> TaskDefinition option" where
  "job_GetTask jd taskType = mget (jd_lookupTasks jd) taskType"

definition job_AddTask :: "JobDefinition \<Rightarrow> TaskDefinition \<Rightarrow> JobDefinition \<times> TaskDefinition" where
  "job_AddTask jd task =
     (case mget (jd_lookupTasks jd) (td_TaskType task) of
        None \<Rightarrow>
          (let maxOrder = fold (\<lambda>t m. if td_TaskOrder t > m then td_TaskOrder t else m)
                 (jd_Tasks jd @ [task]) 0;
               task1 = task\<lparr>td_TaskOrder := maxOrder + 1\<rparr>
           in (jd\<lparr>jd_Tasks := jd_Tasks jd @ [task1],
                  jd_lookupTasks := mset (td_TaskType task) task1 (jd_lookupTasks jd)\<rparr>, task1))
      | Some old \<Rightarrow>
          (let task1 = task\<lparr>td_TaskOrder := td_TaskOrder old\<rparr>
           in (jd\<lparr>jd_lookupTasks := mset (td_TaskType task) task1 (jd_lookupTasks jd)\<rparr>, task1)))"

text \<open>The name of the task to go to by exit code, lines 258 to 274 (None keeps the same task).\<close>

definition next_task_name :: "TaskDefinition \<Rightarrow> string \<Rightarrow> string option" where
  "next_task_name task exitCode =
     (let name = exit_target task (NewRequestState exitCode); st = NewRequestState name
      in if st = EXECUTING then None
         else if st = PAUSE_JOB \<or> st = PAUSED then Some (exit_target task PAUSE_JOB)
         else if st = COMPLETED then Some (exit_target task COMPLETED)
         else if st = FAILED \<or> st = FATAL then Some (exit_target task FAILED)
         else Some name)"

definition GetNextTask ::
  "JobDefinition \<Rightarrow> TaskDefinition \<Rightarrow> RequestState \<Rightarrow> string \<Rightarrow> TaskDefinition option \<times> bool" where
  "GetNextTask jd task taskStatus exitCode =
     (if length (td_OnExitCode task) = 0 then (None, False)
      else case next_task_name task exitCode of
             None \<Rightarrow> (Some task, False)
           | Some name \<Rightarrow>
               (case job_GetTask jd name of
                  Some t \<Rightarrow> (Some t, True)
                | None \<Rightarrow>
                    (case job_GetTask jd (exit_target task (NewRequestState (state_string taskStatus))) of
                       Some t \<Rightarrow> (Some t, False)
                     | None \<Rightarrow> if td_AllowFailure task
                               then (job_GetTask jd (exit_target task COMPLETED), False)
                               else (None, False))))"

subsection \<open>Variables and configurations\<close>

definition update_first :: "(NameTypeValue \<Rightarrow> NameTypeValue) \<Rightarrow> string \<Rightarrow> NameTypeValue list \<Rightarrow> NameTypeValue list" where
  "update_first f name rows =
     (case List.extract (\<lambda>c. nv_Name c = name) rows of
        None \<Rightarrow> rows
      | Some (xs, c, ys) \<Rightarrow> xs @ f c # ys)"

definition AddConfig ::
  "JobDefinition \<Rightarrow> string \<Rightarrow> any \<Rightarrow> bool \<Rightarrow> (value_error, JobDefinition) result" where
  "AddConfig jd name v secret =
     (case NewNameTypeValue name v secret of
        Inl e \<Rightarrow> Err e
      | Inr cfg \<Rightarrow>
          if (\<exists>c \<in> set (jd_Configs jd). nv_Name c = name)
          then Ok (jd\<lparr>jd_Configs := update_first
                 (\<lambda>c. c\<lparr>nv_Value := nv_Value cfg, nv_Kind := nv_Kind cfg, nv_Secret := nv_Secret cfg\<rparr>)
                 name (jd_Configs jd)\<rparr>)
          else Ok (jd\<lparr>jd_Configs := jd_Configs jd @ [cfg]\<rparr>))"

definition RemoveConfig :: "JobDefinition \<Rightarrow> string \<Rightarrow> JobDefinition \<times> bool" where
  "RemoveConfig jd name =
     (if (\<exists>c \<in> set (jd_Configs jd). nv_Name c = name)
      then (jd\<lparr>jd_Configs := remove_first name (jd_Configs jd)\<rparr>, True)
      else (jd, False))"

definition GetConfig :: "JobDefinition \<Rightarrow> string \<Rightarrow> NameTypeValue option" where
  "GetConfig jd name = List.find (\<lambda>c. nv_Name c = name) (jd_Configs jd)"

subsection \<open>Semantic versions\<close>

datatype SemanticVersionType = ValidSemanticVersion | ValidSemanticDevRcVersion

text \<open>The text before the first occurrence of a separator.\<close>

fun before :: "string \<Rightarrow> string \<Rightarrow> string" where
  "before p [] = []"
| "before p (c # s) = (if HasPrefix (c # s) p then [] else c # before p s)"

definition pad9 :: "nat \<Rightarrow> string" where
  "pad9 n = replicate (9 - length (nat_string n)) (CHR ''0'') @ nat_string n"

definition semver_part :: "nat \<Rightarrow> string \<Rightarrow> string" where
  "semver_part i p =
     (case ParseInt p of
        None \<Rightarrow> []
      | Some n \<Rightarrow> if n \<ge> 0 \<and> i < 3 then (if i > 0 then ''.'' else []) @ pad9 (nat n) else [])"

definition NormalizedSemVersion :: "string \<Rightarrow> string" where
  "NormalizedSemVersion semVersion =
     (if semVersion = [] then []
      else
        (let core = (if Contains semVersion ''-'' then before ''-'' semVersion
                     else if Contains semVersion ''rc'' then before ''rc'' semVersion
                     else before ''dev'' semVersion)
         in concat (map (\<lambda>(i, p). semver_part i p) (List.enumerate 0 (SplitChar (CHR ''.'') core)))))"

text \<open>The pattern \<open>^\d*-?(dev|rc)-?\d*$\<close>.\<close>

definition drop_dash :: "string \<Rightarrow> string" where
  "drop_dash s = (case s of c # cs \<Rightarrow> if c = CHR ''-'' then cs else s | [] \<Rightarrow> [])"

definition dev_rc_pattern :: "string \<Rightarrow> bool" where
  "dev_rc_pattern s =
     (let r = drop_dash (dropWhile is_digit s)
      in if HasPrefix r ''dev'' then list_all is_digit (drop_dash (drop 3 r))
         else if HasPrefix r ''rc'' then list_all is_digit (drop_dash (drop 2 r))
         else False)"

definition numeric_part :: "string \<Rightarrow> bool" where
  "numeric_part p = (case ParseInt p of None \<Rightarrow> False | Some n \<Rightarrow> n \<ge> 0)"

definition CheckSemVersion :: "string \<Rightarrow> (job_error, SemanticVersionType) result" where
  "CheckSemVersion semVersion =
     (let ver = SplitChar (CHR ''.'') semVersion
      in if length ver < 2 then Err SemVersionInvalid
         else if \<not> list_all numeric_part (butlast ver) then Err SemVersionInvalid
         else if numeric_part (last ver) then Ok ValidSemanticVersion
         else if \<not> dev_rc_pattern (last ver) then Err SemVersionInvalid
         else Ok ValidSemanticDevRcVersion)"

subsection \<open>Validation\<close>

text \<open>Joining with a separator in the order the set is visited.\<close>

definition join :: "string \<Rightarrow> string list \<Rightarrow> string" where
  "join sep xs = (case xs of [] \<Rightarrow> [] | y # ys \<Rightarrow> y @ concat (map (\<lambda>z. sep @ z) ys))"

definition buildMethods :: "JobDefinition \<Rightarrow> string" where
  "buildMethods jd = join '', ''
     (map method_string (mkeys (fold (\<lambda>t m. if td_Method t \<noteq> NoMethod then mset (td_Method t) True m else m)
        (jd_Tasks jd) [])))"

definition buildTags :: "JobDefinition \<Rightarrow> string" where
  "buildTags jd = join '',''
     (mkeys (fold (\<lambda>t m. fold (\<lambda>c. mset c True) (td_Tags t) m) (jd_Tasks jd) []))"

text \<open>The exit-code table of a task as \<open>validateTaskExitCodes\<close> completes it, lines 1335 to 1344.\<close>

definition complete_exit_codes :: "TaskDefinition \<Rightarrow> TaskDefinition" where
  "complete_exit_codes t =
     (let m1 = (if td_OnCompleted t \<noteq> [] then mset COMPLETED (td_OnCompleted t) (td_OnExitCode t)
                else td_OnExitCode t);
          m2 = (if td_OnFailed t \<noteq> [] then mset FAILED (td_OnFailed t) m1 else m1);
          completed = (case mget m2 COMPLETED of None \<Rightarrow> [] | Some x \<Rightarrow> x);
          failed = (case mget m2 FAILED of None \<Rightarrow> [] | Some x \<Rightarrow> x);
          m3 = (if td_AllowFailure t \<and> failed = [] \<and> completed \<noteq> [] then mset FAILED completed m2 else m2)
      in t\<lparr>td_OnExitCode := m3\<rparr>)"

fun exit_codes_loop ::
  "TaskDefinition list \<Rightarrow> (string, TaskDefinition) gomap \<Rightarrow>
   (job_error, TaskDefinition list \<times> (string, TaskDefinition) gomap) result" where
  "exit_codes_loop [] lookup = Ok ([], lookup)"
| "exit_codes_loop (t # ts) lookup =
     (case task_Validate t of
        Inl e \<Rightarrow> Err (TaskInvalid e)
      | Inr t1 \<Rightarrow>
          if mget lookup (td_TaskType t1) \<noteq> None then Err (DuplicateTask (td_TaskType t1))
          else
            (let t2 = complete_exit_codes t1
             in case exit_codes_loop ts (mset (td_TaskType t2) t2 lookup) of
                  Inl e \<Rightarrow> Err e
                | Inr (ts2, lookup2) \<Rightarrow> Ok (t2 # ts2, lookup2)))"

definition validateTaskExitCodes :: "JobDefinition \<Rightarrow> (job_error, JobDefinition) result" where
  "validateTaskExitCodes jd =
     (case exit_codes_loop (jd_Tasks jd) (jd_lookupTasks jd) of
        Inl e \<Rightarrow> Err e
      | Inr (ts, lookup) \<Rightarrow>
          if list_all HasNext ts then Err NoStartingTask
          else Ok (jd\<lparr>jd_Tasks := ts, jd_lookupTasks := lookup\<rparr>))"

definition reservedExitCodes :: "string list" where
  "reservedExitCodes = map state_string
     [FATAL, RESTART_JOB, PAUSE_JOB, RESTART_TASK, EXECUTING, FAILED, COMPLETED]"

definition is_reserved_target :: "string \<Rightarrow> bool" where
  "is_reserved_target next = (HasPrefix next ''ERR_'' \<or> List.member reservedExitCodes next)"

fun reachable_loop ::
  "(string, TaskDefinition) gomap \<Rightarrow> (string \<times> string) list \<Rightarrow> (string, bool) gomap \<Rightarrow>
   (job_error, (string, bool) gomap) result" where
  "reachable_loop lookup [] onExitTypes = Ok onExitTypes"
| "reachable_loop lookup ((taskType, next) # rest) onExitTypes =
     (if next = [] then Err (EmptyTarget taskType)
      else if is_reserved_target next then reachable_loop lookup rest onExitTypes
      else if mget lookup next = None then Err (UndefinedTarget taskType next)
      else reachable_loop lookup rest (mset next True onExitTypes))"

definition task_targets :: "TaskDefinition list \<Rightarrow> (string \<times> string) list" where
  "task_targets ts = concat (map (\<lambda>t. map (\<lambda>next. (td_TaskType t, next)) (mvals (td_OnExitCode t))) ts)"

definition validateReachableTasks :: "JobDefinition \<Rightarrow> (job_error, (string, bool) gomap) result" where
  "validateReachableTasks jd = reachable_loop (jd_lookupTasks jd) (task_targets (jd_Tasks jd)) []"

fun first_task_loop ::
  "nat \<Rightarrow> (string, bool) gomap \<Rightarrow> TaskDefinition list \<Rightarrow> TaskDefinition option \<Rightarrow>
   (job_error, TaskDefinition option) result" where
  "first_task_loop n onExitTypes [] firstTask = Ok firstTask"
| "first_task_loop n onExitTypes (t # ts) firstTask =
     (if mget onExitTypes (td_TaskType t) = None \<and> firstTask = None \<and> (n = 1 \<or> HasNext t)
      then first_task_loop n onExitTypes ts (Some t)
      else if mget onExitTypes (td_TaskType t) = None then Err (TaskNotReachable (td_TaskType t))
      else first_task_loop n onExitTypes ts firstTask)"

definition validateFirstTask :: "JobDefinition \<Rightarrow> (string, bool) gomap \<Rightarrow> (job_error, TaskDefinition) result" where
  "validateFirstTask jd onExitTypes =
     (case first_task_loop (length (jd_Tasks jd)) onExitTypes (jd_Tasks jd) None of
        Inl e \<Rightarrow> Err e
      | Inr None \<Rightarrow> Err NoFirstTask
      | Inr (Some t) \<Rightarrow> Ok t)"

definition GetFirstTask :: "JobDefinition \<Rightarrow> (job_error, TaskDefinition) result" where
  "GetFirstTask jd =
     (case validateReachableTasks jd of
        Inl e \<Rightarrow> Err e
      | Inr onExitTypes \<Rightarrow> validateFirstTask jd onExitTypes)"

definition GetLastTask :: "JobDefinition \<Rightarrow> TaskDefinition option" where
  "GetLastTask jd = fold (\<lambda>t last. if length (td_OnExitCode t) = 0 then Some t else last) (jd_Tasks jd) None"

definition GetLastAlwaysRunTasks :: "JobDefinition \<Rightarrow> TaskDefinition list" where
  "GetLastAlwaysRunTasks jd = filter td_AlwaysRun (jd_Tasks jd)"

fun triggers_loop :: "TriggerDefinition list \<Rightarrow> string list \<Rightarrow> job_error option" where
  "triggers_loop [] names = None"
| "triggers_loop (t # ts) names =
     (if List.member names (tr_Name t) then Some (DuplicateTrigger (tr_Name t))
      else case trigger_Validate t of
             Some e \<Rightarrow> Some (TriggerInvalid e)
           | None \<Rightarrow> triggers_loop ts (tr_Name t # names))"

fun validate_tasks :: "TaskDefinition list \<Rightarrow> (job_error, TaskDefinition list) result" where
  "validate_tasks [] = Ok []"
| "validate_tasks (t # ts) =
     (case task_Validate t of
        Inl e \<Rightarrow> Err (TaskInvalid e)
      | Inr t1 \<Rightarrow> (case validate_tasks ts of Inl e \<Rightarrow> Err e | Inr ts1 \<Rightarrow> Ok (t1 # ts1)))"

definition maxTasksPerJob :: nat where
  "maxTasksPerJob = 100"

text \<open>The checks of the header fields, lines 1003 to 1058, in the order of the code.\<close>

definition job_header_error ::
  "(string \<Rightarrow> (int \<Rightarrow> int option) option) \<Rightarrow> int \<Rightarrow> JobDefinition \<Rightarrow> job_error option" where
  "job_header_error cron now jd =
     (if jd_JobType jd = [] then Some JobTypeMissing
      else if length (jd_JobType jd) > 100 then Some JobTypeTooBig
      else if length (jd_URL jd) > 200 then Some URLTooBig
      else if length (jd_Description jd) > 500 then Some JobDescriptionTooBig
      else if length (jd_Platform jd) > 100 then Some PlatformTooBig
      else if length (jd_Tags jd) > 1000 then Some TagsTooBig
      else if jd_PublicPlugin jd \<and> length (SplitChar (CHR ''.'') (jd_JobType jd)) < 3
      then Some PluginTypeInvalid
      else if (jd_SemVersion jd \<noteq> [] \<or> jd_PublicPlugin jd) \<and> \<not> is_ok (CheckSemVersion (jd_SemVersion jd))
      then Some SemVersionInvalid
      else if jd_CronTrigger jd \<noteq> [] \<and> cron (jd_CronTrigger jd) = None then Some CronPanic
      else if jd_CronTrigger jd \<noteq> [] \<and> (case cron (jd_CronTrigger jd) of None \<Rightarrow> True | Some f \<Rightarrow> f now = None)
      then Some CronInvalid
      else if length (jd_Tasks jd) = 0 then Some TasksMissing
      else if length (jd_Tasks jd) > maxTasksPerJob then Some TooManyTasks
      else None)"

definition job_Validate ::
  "(string \<Rightarrow> (int \<Rightarrow> int option) option) \<Rightarrow> (string \<Rightarrow> bool) \<Rightarrow> int \<Rightarrow> JobDefinition \<Rightarrow>
   (job_error, JobDefinition) result" where
  "job_Validate cron valid_email now jd =
     (case job_header_error cron now jd of
        Some e \<Rightarrow> Err e
      | None \<Rightarrow>
        (case validate_tasks (jd_Tasks jd) of
           Inl e \<Rightarrow> Err e
         | Inr ts \<Rightarrow>
           (let jd1 = jd\<lparr>jd_Tasks := ts\<rparr>;
                jd2 = jd1\<lparr>jd_Tags := buildTags jd1, jd_Methods := buildMethods jd1\<rparr>
            in if jd_Methods jd2 = [] then Err MethodsMissing
               else if jd_RawYaml jd2 = [] then Err RawYamlMissing
               else
                 (let jd3 = jd2\<lparr>jd_lookupTasks := [],
                        jd_MaxConcurrency := (if jd_MaxConcurrency jd2 \<le> 1 then 3 else jd_MaxConcurrency jd2),
                        jd_UsesTemplate := Contains (jd_RawYaml jd2) ''{{'' \<and> Contains (jd_RawYaml jd2) ''}}''\<rparr>
                  in case validateTaskExitCodes jd3 of
                       Inl e \<Rightarrow> Err e
                     | Inr jd4 \<Rightarrow>
                         if (\<exists>(source, cfg) \<in> set (jd_Notify jd4). source = ''email'' \<and>
                               \<not> ValidateEmail valid_email cfg)
                         then Err EmailInvalid
                         else case GetFirstTask jd4 of
                                Inl e \<Rightarrow> Err e
                              | Inr _ \<Rightarrow> (case triggers_loop (jd_Triggers jd4) [] of
                                    Some e \<Rightarrow> Err e
                                  | None \<Rightarrow> Ok jd4)))))"

subsection \<open>Retention and cron\<close>

definition GetRetentionDays :: "JobDefinition \<Rightarrow> RequestState \<Rightarrow> int" where
  "GetRetentionDays jd state =
     (if state = FAILED then
        (if jd_RetentionDaysForFailed jd > 0 then jd_RetentionDaysForFailed jd else 30)
      else if state = COMPLETED then
        (if jd_RetentionDaysForCompleted jd > 0 then jd_RetentionDaysForCompleted jd else 7)
      else if state = CANCELLED then
        (if jd_RetentionDaysForCancelled jd > 0 then jd_RetentionDaysForCancelled jd else 30)
      else 0)"

text \<open>\<open>format\<close> is \<open>time.Format(RFC3339)\<close>.  None in the outer option is the panic of
  \<open>MustParse\<close>; the pair (None, empty) is "no schedule".\<close>

definition cron_schedule_time_and_key ::
  "(string \<Rightarrow> (int \<Rightarrow> int option) option) \<Rightarrow> (int \<Rightarrow> string) \<Rightarrow> int \<Rightarrow> string \<Rightarrow> string \<Rightarrow> string \<Rightarrow>
   (int option \<times> string) option" where
  "cron_schedule_time_and_key cron format now orgIDOrUserID jobType cronTrigger =
     (if cronTrigger = [] then Some (None, [])
      else case cron cronTrigger of
             None \<Rightarrow> None
           | Some f \<Rightarrow>
               (case f now of
                  None \<Rightarrow> Some (None, [])
                | Some t \<Rightarrow>
                    (let prefix = (if orgIDOrUserID = [] then ''default'' else orgIDOrUserID)
                     in Some (Some t, prefix @ ''-'' @ jobType @ ''-'' @ format t))))"

definition GetCronScheduleTimeAndUserKey ::
  "(string \<Rightarrow> (int \<Rightarrow> int option) option) \<Rightarrow> (int \<Rightarrow> string) \<Rightarrow> int \<Rightarrow> JobDefinition \<Rightarrow>
   (int option \<times> string) option" where
  "GetCronScheduleTimeAndUserKey cron format now jd =
     (if jd_Disabled jd then Some (None, [])
      else cron_schedule_time_and_key cron format now
             (if jd_OrganizationID jd \<noteq> [] then jd_OrganizationID jd else jd_UserID jd)
             (jd_JobType jd) (jd_CronTrigger jd))"

subsection \<open>What a valid job looks like\<close>

text \<open>The target of an exit code that is a task, and the set of all of them.\<close>

definition task_target :: "TaskDefinition list \<Rightarrow> string \<Rightarrow> bool" where
  "task_target ts x = (\<exists>t \<in> set ts. x \<in> set (mvals (td_OnExitCode t)) \<and> \<not> is_reserved_target x)"

definition find_task :: "TaskDefinition list \<Rightarrow> string \<Rightarrow> TaskDefinition option" where
  "find_task ts ty = List.find (\<lambda>t. td_TaskType t = ty) ts"

lemma find_task_Some: "find_task ts ty = Some t \<Longrightarrow> t \<in> set ts \<and> td_TaskType t = ty"
  by (auto simp: find_task_def find_Some_iff)

lemma find_task_None: "find_task ts ty = None \<longleftrightarrow> ty \<notin> td_TaskType ` set ts"
  by (auto simp: find_task_def find_None_iff)

lemma find_task_member:
  "distinct (map td_TaskType ts) \<Longrightarrow> t \<in> set ts \<Longrightarrow> find_task ts (td_TaskType t) = Some t"
  by (induction ts) (auto simp: find_task_def)

lemma complete_exit_codes_type [simp]:
  "td_TaskType (complete_exit_codes t) = td_TaskType t"
  by (simp add: complete_exit_codes_def Let_def)

lemma exit_codes_loop_Ok:
  assumes "exit_codes_loop ts lookup = Ok (ts2, lookup2)"
  shows "map td_TaskType ts2 = map td_TaskType ts \<and> distinct (map td_TaskType ts2) \<and>
     (\<forall>t \<in> set ts2. td_TaskType t \<noteq> [] \<and> mget lookup (td_TaskType t) = None) \<and>
     (\<forall>ty. mget lookup2 ty = (case find_task ts2 ty of Some t \<Rightarrow> Some t | None \<Rightarrow> mget lookup ty))"
  using assms
proof (induction ts arbitrary: lookup ts2 lookup2)
  case Nil
  then show ?case by (simp add: find_task_def)
next
  case (Cons t ts)
  from Cons.prems obtain t1 ts3 where t1: "task_Validate t = Ok t1"
    and fresh: "mget lookup (td_TaskType t1) = None"
    and rest: "exit_codes_loop ts (mset (td_TaskType t1) (complete_exit_codes t1) lookup) = Ok (ts3, lookup2)"
    and ts2: "ts2 = complete_exit_codes t1 # ts3"
    by (auto simp: Let_def split: sum.splits if_splits)
  note v = task_Validate_Ok(1,2)[OF t1]
  note ih = Cons.IH[OF rest]
  have notin: "td_TaskType t1 \<notin> td_TaskType ` set ts3" using ih by force
  have "map td_TaskType ts2 = map td_TaskType (t # ts)" using ih v by (simp add: ts2)
  moreover have "distinct (map td_TaskType ts3)" using ih by blast
  then have "distinct (map td_TaskType ts2)" using notin by (simp add: ts2)
  moreover have "\<forall>t \<in> set ts2. td_TaskType t \<noteq> [] \<and> mget lookup (td_TaskType t) = None"
  proof -
    have "mget lookup (td_TaskType x) = None" if "x \<in> set ts3" for x
      using ih that by (metis mget_mset option.distinct(1))
    with ih v fresh show ?thesis by (simp add: ts2)
  qed
  moreover have "mget lookup2 ty = (case find_task ts2 ty of Some t \<Rightarrow> Some t | None \<Rightarrow> mget lookup ty)" for ty
  proof (cases "ty = td_TaskType t1")
    case True
    have "find_task ts3 (td_TaskType t1) = None" using notin by (simp add: find_task_None)
    with ih True show ?thesis by (simp add: ts2) (simp add: find_task_def)
  next
    case False
    with ih show ?thesis by (simp add: ts2 find_task_def split: option.splits)
  qed
  ultimately show ?case by blast
qed

lemma reachable_loop_Ok:
  assumes "reachable_loop lookup l acc = Ok onExit"
  shows "(\<forall>(ty, nx) \<in> set l. nx \<noteq> [] \<and> (is_reserved_target nx \<or> mget lookup nx \<noteq> None)) \<and>
     (\<forall>x. mget onExit x \<noteq> None \<longleftrightarrow> mget acc x \<noteq> None \<or>
        (\<exists>(ty, nx) \<in> set l. nx = x \<and> \<not> is_reserved_target nx))"
  using assms
  by (induction lookup l acc rule: reachable_loop.induct) (auto split: if_splits)

lemma first_task_loop_Some:
  "first_task_loop n onExit ts (Some f) = Ok r \<Longrightarrow>
     r = Some f \<and> (\<forall>t \<in> set ts. mget onExit (td_TaskType t) \<noteq> None)"
  by (induction ts) (auto split: if_splits)

lemma first_task_loop_None:
  assumes "first_task_loop n onExit ts None = Ok r"
  shows "(r = None \<and> (\<forall>t \<in> set ts. mget onExit (td_TaskType t) \<noteq> None)) \<or>
     (\<exists>xs t ys. ts = xs @ t # ys \<and> r = Some t \<and> mget onExit (td_TaskType t) = None \<and>
        (n = 1 \<or> HasNext t) \<and> (\<forall>t' \<in> set (xs @ ys). mget onExit (td_TaskType t') \<noteq> None))"
  using assms
proof (induction ts)
  case (Cons t ts)
  show ?case
  proof (cases "mget onExit (td_TaskType t) = None")
    case True
    with Cons.prems have "first_task_loop n onExit ts (Some t) = Ok r" "n = 1 \<or> HasNext t"
      by (auto split: if_splits)
    with True first_task_loop_Some[of n onExit ts t r] show ?thesis
      by (intro disjI2 exI[of _ "[]"]) auto
  next
    case False
    with Cons.prems have "first_task_loop n onExit ts None = Ok r" by simp
    from Cons.IH[OF this] show ?thesis
    proof
      assume "\<exists>xs t ys. ts = xs @ t # ys \<and> r = Some t \<and> mget onExit (td_TaskType t) = None \<and>
        (n = 1 \<or> HasNext t) \<and> (\<forall>t' \<in> set (xs @ ys). mget onExit (td_TaskType t') \<noteq> None)"
      then obtain xs t0 ys where "ts = xs @ t0 # ys" "r = Some t0" "mget onExit (td_TaskType t0) = None"
        "n = 1 \<or> HasNext t0" "\<forall>t' \<in> set (xs @ ys). mget onExit (td_TaskType t') \<noteq> None"
        by blast
      with False show ?thesis by (intro disjI2 exI[of _ "t # xs"]) auto
    qed (use False in simp)
  qed
qed simp

lemma task_target_iff:
  "task_target ts x \<longleftrightarrow> (\<exists>(ty, nx) \<in> set (task_targets ts). nx = x \<and> \<not> is_reserved_target nx)"
  by (auto simp: task_target_def task_targets_def)

lemma reachable_task_target:
  assumes "validateReachableTasks jd = Ok onExit"
  shows "mget onExit x \<noteq> None \<longleftrightarrow> task_target (jd_Tasks jd) x"
    and "\<forall>t \<in> set (jd_Tasks jd). \<forall>nx \<in> set (mvals (td_OnExitCode t)). nx \<noteq> [] \<and>
       (is_reserved_target nx \<or> job_GetTask jd nx \<noteq> None)"
proof -
  note l = reachable_loop_Ok[OF assms[unfolded validateReachableTasks_def]]
  show "mget onExit x \<noteq> None \<longleftrightarrow> task_target (jd_Tasks jd) x"
    using l by (simp add: task_target_iff)
  show "\<forall>t \<in> set (jd_Tasks jd). \<forall>nx \<in> set (mvals (td_OnExitCode t)). nx \<noteq> [] \<and>
      (is_reserved_target nx \<or> job_GetTask jd nx \<noteq> None)"
    using l by (fastforce simp: task_targets_def job_GetTask_def)
qed

text \<open>\<open>GetFirstTask\<close> finds the only task that is not the target of an exit code.\<close>

lemma GetFirstTask_Ok:
  assumes "GetFirstTask jd = Ok t"
  shows "\<exists>xs ys. jd_Tasks jd = xs @ t # ys \<and> \<not> task_target (jd_Tasks jd) (td_TaskType t) \<and>
     (length (jd_Tasks jd) = 1 \<or> HasNext t) \<and>
     (\<forall>t' \<in> set (xs @ ys). task_target (jd_Tasks jd) (td_TaskType t'))"
proof -
  from assms obtain onExit where r: "validateReachableTasks jd = Ok onExit"
    and "first_task_loop (length (jd_Tasks jd)) onExit (jd_Tasks jd) None = Ok (Some t)"
    by (auto simp: GetFirstTask_def validateFirstTask_def split: sum.splits option.splits)
  from first_task_loop_None[OF this(2)] show ?thesis
    by (simp add: reachable_task_target(1)[OF r, symmetric])
qed

lemma job_Validate_stages:
  assumes "job_Validate cron valid_email now jd = Ok jd'"
  obtains jd3 t where "job_header_error cron now jd = None"
    "validateTaskExitCodes jd3 = Ok jd'" "jd_lookupTasks jd3 = []"
    "jd_MaxConcurrency jd3 = (if jd_MaxConcurrency jd \<le> 1 then 3 else jd_MaxConcurrency jd)"
    "jd_RawYaml jd3 \<noteq> []" "length (jd_Tasks jd3) = length (jd_Tasks jd)"
    "GetFirstTask jd' = Ok t" "triggers_loop (jd_Triggers jd') [] = None"
proof -
  have len: "validate_tasks ts = Ok ts1 \<Longrightarrow> length ts1 = length ts" for ts ts1
    by (induction ts arbitrary: ts1) (auto split: sum.splits)
  show ?thesis
    using assms that
    by (auto simp: job_Validate_def Let_def len split: option.splits sum.splits if_splits)
qed

definition valid_graph :: "JobDefinition \<Rightarrow> bool" where
  "valid_graph jd =
     (distinct (map td_TaskType (jd_Tasks jd)) \<and>
      (\<forall>t \<in> set (jd_Tasks jd). td_TaskType t \<noteq> []) \<and>
      (\<forall>ty. job_GetTask jd ty = find_task (jd_Tasks jd) ty) \<and>
      (\<forall>t \<in> set (jd_Tasks jd). \<forall>nx \<in> set (mvals (td_OnExitCode t)). nx \<noteq> [] \<and>
         (is_reserved_target nx \<or> nx \<in> td_TaskType ` set (jd_Tasks jd))) \<and>
      (\<exists>t \<in> set (jd_Tasks jd). \<not> HasNext t))"

lemma validateTaskExitCodes_Ok:
  assumes "validateTaskExitCodes jd = Ok jd'" and "jd_lookupTasks jd = []"
  shows "map td_TaskType (jd_Tasks jd') = map td_TaskType (jd_Tasks jd)"
    "distinct (map td_TaskType (jd_Tasks jd'))"
    "\<forall>t \<in> set (jd_Tasks jd'). td_TaskType t \<noteq> []"
    "\<forall>ty. job_GetTask jd' ty = find_task (jd_Tasks jd') ty"
    "\<exists>t \<in> set (jd_Tasks jd'). \<not> HasNext t"
    "jd_MaxConcurrency jd' = jd_MaxConcurrency jd"
proof -
  from assms(1) obtain ts lookup where
    l: "exit_codes_loop (jd_Tasks jd) (jd_lookupTasks jd) = Ok (ts, lookup)"
    and ne: "\<not> list_all HasNext ts" and jd': "jd' = jd\<lparr>jd_Tasks := ts, jd_lookupTasks := lookup\<rparr>"
    by (auto simp: validateTaskExitCodes_def split: sum.splits if_splits)
  note p = exit_codes_loop_Ok[OF l]
  have tasks: "jd_Tasks jd' = ts" by (simp add: jd')
  show "map td_TaskType (jd_Tasks jd') = map td_TaskType (jd_Tasks jd)"
    "distinct (map td_TaskType (jd_Tasks jd'))"
    "\<forall>t \<in> set (jd_Tasks jd'). td_TaskType t \<noteq> []"
    unfolding tasks using p by blast+
  show "jd_MaxConcurrency jd' = jd_MaxConcurrency jd" by (simp add: jd')
  show "\<forall>ty. job_GetTask jd' ty = find_task (jd_Tasks jd') ty"
    using p assms(2) by (simp add: jd' job_GetTask_def split: option.splits)
  show "\<exists>t \<in> set (jd_Tasks jd'). \<not> HasNext t"
    using ne by (simp add: jd' list_all_iff)
qed

lemma job_Validate_graph:
  assumes "job_Validate cron valid_email now jd = Ok jd'"
  shows "valid_graph jd'" "\<exists>t. GetFirstTask jd' = Ok t"
proof -
  from assms obtain jd3 t where e: "validateTaskExitCodes jd3 = Ok jd'" "jd_lookupTasks jd3 = []"
    and f: "GetFirstTask jd' = Ok t"
    by (rule job_Validate_stages)
  note v = validateTaskExitCodes_Ok[OF e]
  from f show "\<exists>t. GetFirstTask jd' = Ok t" by blast
  from f obtain onExit where "validateReachableTasks jd' = Ok onExit"
    by (auto simp: GetFirstTask_def split: sum.splits)
  from reachable_task_target(2)[OF this] v(4)
  have "\<forall>t \<in> set (jd_Tasks jd'). \<forall>nx \<in> set (mvals (td_OnExitCode t)). nx \<noteq> [] \<and>
      (is_reserved_target nx \<or> nx \<in> td_TaskType ` set (jd_Tasks jd'))"
    using find_task_None[of "jd_Tasks jd'"] by auto
  with v show "valid_graph jd'" by (simp add: valid_graph_def)
qed

lemma GetNextTask_closed:
  assumes "valid_graph jd" and "t \<in> set (jd_Tasks jd)" and "GetNextTask jd t st ec = (Some n, p)"
  shows "n \<in> set (jd_Tasks jd)"
  using assms
  by (auto simp: GetNextTask_def valid_graph_def split: if_splits option.splits dest: find_task_Some)

subsection \<open>The order of normalized versions\<close>

lemma digits_value_Cons:
  "digits_value (c # s) = (of_char c - 48) * 10 ^ length s + digits_value s"
proof -
  have f: "fold (\<lambda>c acc. 10 * acc + (of_char c - 48)) s a = a * 10 ^ length s + digits_value s" for a :: nat
  proof (induction s rule: rev_induct)
    case (snoc x s)
    then show ?case by (simp add: digits_value_snoc algebra_simps)
  qed (simp add: digits_value_def)
  show ?thesis using f[of "of_char c - 48"] by (simp add: digits_value_def[of "c # s"])
qed

lemma digits_value_bound: "list_all is_digit s \<Longrightarrow> digits_value s < 10 ^ length s"
proof (induction s)
  case (Cons c s)
  then have "of_char c - 48 \<le> (9 :: nat)" by (auto simp: is_digit_def)
  then have "(of_char c - 48) * 10 ^ length s \<le> 9 * (10 ^ length s :: nat)" by (rule mult_le_mono1)
  moreover have "digits_value s < 10 ^ length s" using Cons by simp
  ultimately have "(of_char c - 48) * 10 ^ length s + digits_value s < 10 * 10 ^ length s" by linarith
  then show ?case by (simp add: digits_value_Cons)
qed (simp add: digits_value_def)

lemma digits_less_iff:
  "length s = length t \<Longrightarrow> list_all is_digit s \<Longrightarrow> list_all is_digit t \<Longrightarrow>
     s < t \<longleftrightarrow> digits_value s < digits_value t"
proof (induction s t rule: list_induct2)
  case (Cons c s d t)
  let ?c = "of_char c - 48 :: nat" and ?d = "of_char d - 48 :: nat" and ?p = "10 ^ length t :: nat"
  have b: "digits_value s < ?p" "digits_value t < ?p"
    using Cons digits_value_bound[of s] digits_value_bound[of t] by auto
  have dig: "48 \<le> (of_char c :: nat)" "48 \<le> (of_char d :: nat)"
    using Cons.prems by (simp_all add: is_digit_def)
  then have cd: "c < d \<longleftrightarrow> ?c < ?d" by (auto simp: less_char_def)
  have "?c = ?d \<longleftrightarrow> (of_char c :: nat) = of_char d" using dig by arith
  then have eq: "c = d \<longleftrightarrow> ?c = ?d" by simp
  have step: "x * ?p + u < y * ?p + v" if "x < y" "u < ?p" for x y u v :: nat
  proof -
    have "x * ?p + u < (x + 1) * ?p" using that by simp
    also have "\<dots> \<le> y * ?p" using that by (intro mult_le_mono1) simp
    finally show ?thesis by simp
  qed
  have "?c * ?p + digits_value s < ?d * ?p + digits_value t \<longleftrightarrow>
      ?c < ?d \<or> ?c = ?d \<and> digits_value s < digits_value t"
  proof (cases ?c ?d rule: linorder_cases)
    case less
    with step b show ?thesis by simp
  next
    case equal
    then show ?thesis by simp
  next
    case greater
    with step[OF greater b(2), of "digits_value s"] show ?thesis by simp
  qed
  with Cons cd eq show ?case by (simp add: digits_value_Cons)
qed simp

lemma append_less_append:
  fixes s t :: string
  shows "length s = length t \<Longrightarrow> s @ u < t @ v \<longleftrightarrow> s < t \<or> s = t \<and> u < v"
  by (induction s t rule: list_induct2) auto

lemma pad9_digits: "list_all is_digit (pad9 n)" "digits_value (pad9 n) = n"
proof -
  have z: "is_digit (CHR ''0'')" by (simp add: is_digit_def)
  have "digits_value (replicate k (CHR ''0'') @ s) = digits_value s" for k s
    by (induction k) (simp_all add: digits_value_Cons)
  then show "digits_value (pad9 n) = n" by (simp add: pad9_def digits_value_nat_string)
  show "list_all is_digit (pad9 n)"
    using nat_string_digits[of n] z by (auto simp: pad9_def list_all_iff)
qed

lemma length_pad9: "n < 10 ^ 9 \<Longrightarrow> length (pad9 n) = 9"
  using length_nat_string[of n 8] by (simp add: pad9_def)

lemma pad9_less: "m < 10 ^ 9 \<Longrightarrow> n < 10 ^ 9 \<Longrightarrow> pad9 m < pad9 n \<longleftrightarrow> m < n"
  by (simp add: digits_less_iff length_pad9 pad9_digits)

lemma pad9_inject: "pad9 m = pad9 n \<longleftrightarrow> m = n"
  by (metis pad9_digits(2))

lemma split_on_none: "\<forall>c \<in> set s. \<not> d c \<Longrightarrow> split_on d s = [s]"
  by (induction s) auto

lemma split_on_append:
  "\<forall>c \<in> set s. \<not> d c \<Longrightarrow> d x \<Longrightarrow> split_on d (s @ x # t) = s # split_on d t"
  by (induction s) auto

lemma not_Contains: "c \<notin> set s \<Longrightarrow> \<not> Contains s (c # p)"
  by (induction s) auto

lemma before_none: "c \<notin> set s \<Longrightarrow> before (c # p) s = s"
  by (induction s) auto

text \<open>The text of a release version.\<close>

definition version_text :: "nat \<Rightarrow> nat \<Rightarrow> nat \<Rightarrow> string" where
  "version_text a b c = nat_string a @ CHR ''.'' # nat_string b @ CHR ''.'' # nat_string c"

lemma nat_string_chars: "x \<in> set (nat_string n) \<Longrightarrow> 48 \<le> (of_char x :: nat) \<and> (of_char x :: nat) \<le> 57"
  using nat_string_digits[of n] by (auto simp: list_all_iff is_digit_def)

lemma ParseInt_nat_string: "n < 10 ^ 9 \<Longrightarrow> ParseInt (nat_string n) = Some (int n)"
  using ParseInt_int_string[of "int n"] by (simp add: int_string_def in_i64_def)

lemma NormalizedSemVersion_text:
  assumes "a < 10 ^ 9" "b < 10 ^ 9" "c < 10 ^ 9"
  shows "NormalizedSemVersion (version_text a b c) = pad9 a @ ''.'' @ pad9 b @ ''.'' @ pad9 c"
proof -
  let ?v = "version_text a b c"
  have chars: "x \<notin> set (nat_string n)" if "(of_char x :: nat) < 48 \<or> (of_char x :: nat) > 57" for x n
    using nat_string_chars[of x n] that by auto
  have none: "CHR ''-'' \<notin> set ?v" "CHR ''r'' \<notin> set ?v" "CHR ''d'' \<notin> set ?v"
    by (simp_all add: version_text_def chars)
  have parts: "SplitChar (CHR ''.'') ?v = [nat_string a, nat_string b, nat_string c]"
  proof -
    have d: "\<forall>x \<in> set (nat_string n). \<not> (CHR ''.'' = x)" for n using chars[of "CHR ''.''" n] by auto
    show ?thesis
      by (simp add: SplitChar_def version_text_def split_on_append[OF d] split_on_none[OF d])
  qed
  have "?v \<noteq> []" by (simp add: version_text_def)
  then show ?thesis
    using none assms
    by (simp add: NormalizedSemVersion_def not_Contains before_none parts semver_part_def
        ParseInt_nat_string)
qed

subsection \<open>Properties\<close>



text \<open>C4: A job definition that passes validation has a well-formed graph: task types are distinct
  and not empty, every exit code leads to a task of the job or to a reserved action, some task is
  final, exactly one task is not the target of any exit code and that task is the first one, and
  the next task chosen after any outcome is a task of the job.\<close>

theorem job_Validate_sound:
  assumes "job_Validate cron valid_email now jd = Ok jd'"
  shows "valid_graph jd' \<and>
     (\<exists>t xs ys. GetFirstTask jd' = Ok t \<and> jd_Tasks jd' = xs @ t # ys \<and>
        \<not> task_target (jd_Tasks jd') (td_TaskType t) \<and>
        (\<forall>t' \<in> set (xs @ ys). task_target (jd_Tasks jd') (td_TaskType t'))) \<and>
     (\<forall>t st ec n p. t \<in> set (jd_Tasks jd') \<and> GetNextTask jd' t st ec = (Some n, p) \<longrightarrow>
        n \<in> set (jd_Tasks jd')) \<and>
     jd_MaxConcurrency jd' \<ge> 2"
proof -
  note g = job_Validate_graph[OF assms]
  from g(2) obtain t where t: "GetFirstTask jd' = Ok t" by blast
  from GetFirstTask_Ok[OF t] have "\<exists>t xs ys. GetFirstTask jd' = Ok t \<and> jd_Tasks jd' = xs @ t # ys \<and>
      \<not> task_target (jd_Tasks jd') (td_TaskType t) \<and>
      (\<forall>t' \<in> set (xs @ ys). task_target (jd_Tasks jd') (td_TaskType t'))"
    using t by blast
  moreover have "jd_MaxConcurrency jd' \<ge> 2"
    using assms by (rule job_Validate_stages) (auto dest: validateTaskExitCodes_Ok(6))
  ultimately show ?thesis using g(1) GetNextTask_closed[OF g(1)] by blast
qed

definition chain_job :: JobDefinition where
  "chain_job = (NewJobDefinition ''j'')\<lparr>jd_RawYaml := ''y'',
     jd_Tasks := [(NewTaskDefinition ''t1'' Shell)\<lparr>td_OnCompleted := ''t2''\<rparr>,
                  NewTaskDefinition ''t2'' NoMethod]\<rparr>"

definition cycle_job :: JobDefinition where
  "cycle_job = (NewJobDefinition ''j'')\<lparr>jd_RawYaml := ''y'',
     jd_Tasks := [(NewTaskDefinition ''t1'' Shell)\<lparr>td_OnCompleted := ''t4''\<rparr>,
                  (NewTaskDefinition ''t2'' Shell)\<lparr>td_OnCompleted := ''t3''\<rparr>,
                  (NewTaskDefinition ''t3'' Shell)\<lparr>td_OnCompleted := ''t2''\<rparr>,
                  NewTaskDefinition ''t4'' Shell]\<rparr>"

theorem job_Validate_sound_witness:
  "\<exists>jd'. job_Validate (\<lambda>_. None) (\<lambda>_. True) 0 chain_job = Ok jd' \<and> valid_graph jd'"
proof -
  have "is_ok (job_Validate (\<lambda>_. None) (\<lambda>_. True) 0 chain_job)" by code_simp
  then obtain jd' where "job_Validate (\<lambda>_. None) (\<lambda>_. True) 0 chain_job = Ok jd'"
    by (auto simp: is_ok_def split: sum.splits)
  with job_Validate_sound[OF this] show ?thesis by blast
qed

subsection \<open>Deviations\<close>

text \<open>A job in which two tasks lead only to each other passes validation, although neither can be
  reached from the first task.\<close>

lemma unreachable_cycle_accepted: "is_ok (job_Validate (\<lambda>_. None) (\<lambda>_. True) 0 cycle_job)"
  by code_simp

text \<open>A malformed cron expression panics in place of an error, and the setting "never" still
  notifies.\<close>

lemma malformed_cron_panics:
  "job_Validate (\<lambda>_. None) (\<lambda>_. True) 0 (chain_job\<lparr>jd_CronTrigger := ''nonsense''\<rparr>) = Err CronPanic"
  by code_simp

lemma never_notifies: "Accept NotifyWhenNever state lastState"
  by (simp add: Accept_def)

end
