(* ===== verification/Ant_Types.thy ===== *)
theory Ant_Types
  imports Request_State Task_Method
begin

text \<open>
  Ants, the workers that execute tasks: tag matching (\<open>internal/utils/string_helper.go\<close>),
  registrations and allocations (\<open>internal/types/ant_registration.go\<close>), reservations
  (\<open>internal/types/ant_reservation.go\<close>) and container events
  (\<open>internal/events/container_event.go\<close>).

  Instants are nanoseconds since the epoch; the current time is the argument \<open>now\<close>.  The
  callback \<open>ValidRegistration\<close> of a registration is a function of the instant at which it
  is called that tells whether it returned a nil error.
\<close>

subsection \<open>Tags\<close>

datatype tag_error = TagNotFound string | NoTagsAtAll

definition isEmptyOrWild :: "string \<Rightarrow> bool" where
  "isEmptyOrWild str = (str = [] \<or> str = ''*'')"

definition isWildMatches :: "string \<Rightarrow> string \<Rightarrow> bool" where
  "isWildMatches str1 str2 = (isEmptyOrWild str1 \<or> isEmptyOrWild str2 \<or> EqualFold str1 str2)"

definition is_tag_separator :: "char \<Rightarrow> bool" where
  "is_tag_separator c = (c = CHR '','' \<or> c = CHR '' '' \<or> c = CHR 0x09 \<or> c = CHR '';'')"

definition SplitTags :: "string \<Rightarrow> string list" where
  "SplitTags tags = sort (filter (\<lambda>next. next \<noteq> [])
     (map TrimSpace (split_on is_tag_separator tags)))"

fun match_tags_loop :: "string list \<Rightarrow> string list \<Rightarrow> tag_error option" where
  "match_tags_loop tags [] = None"
| "match_tags_loop tags (otherTag # rest) =
     (if TrimSpace otherTag = [] then match_tags_loop tags rest
      else if \<exists>tag \<in> set tags. EqualFold tag otherTag then match_tags_loop tags rest
      else Some (TagNotFound otherTag))"

definition MatchTagsArray :: "string list \<Rightarrow> string list \<Rightarrow> tag_error option" where
  "MatchTagsArray tags otherTags =
     (if length tags > 0 \<and> length otherTags > 0 then match_tags_loop tags otherTags
      else if length tags = 0 \<and> length otherTags > 0 then Some NoTagsAtAll
      else None)"

definition MatchTags :: "string \<Rightarrow> string \<Rightarrow> tag_error option" where
  "MatchTags tags otherTags =
     (if \<not> isEmptyOrWild tags \<and> \<not> isEmptyOrWild otherTags
      then MatchTagsArray (SplitTags tags) (SplitTags otherTags)
      else if isEmptyOrWild tags \<and> \<not> isEmptyOrWild otherTags then Some NoTagsAtAll
      else None)"

definition dns_char :: "char \<Rightarrow> bool" where
  "dns_char c = (let n = (of_char c :: nat) in
     c = CHR ''-'' \<or> (97 \<le> n \<and> n \<le> 122) \<or> (48 \<le> n \<and> n \<le> 57))"

definition MakeDNS1123Compatible :: "string \<Rightarrow> string" where
  "MakeDNS1123Compatible name =
     take 63 (dropWhile (\<lambda>c. c = CHR ''-'')
       (filter dns_char (map (\<lambda>c. if c = CHR ''_'' then CHR ''-'' else c) (ToLower name))))"

subsection \<open>Registrations, allocations, reservations\<close>

record AntAllocation =
  al_JobRequestID :: string
  al_TaskTypes :: "(string, RequestState) gomap"
  al_AntID :: string
  al_AntTopic :: string
  al_AllocatedAt :: int
  al_UpdatedAt :: int

definition NewAntAllocation :: "int \<Rightarrow> string \<Rightarrow> string \<Rightarrow> string \<Rightarrow> string \<Rightarrow> AntAllocation" where
  "NewAntAllocation now antID antTopic requestID taskType =
     \<lparr>al_JobRequestID = requestID, al_TaskTypes = [(taskType, EXECUTING)], al_AntID = antID,
      al_AntTopic = antTopic, al_AllocatedAt = now, al_UpdatedAt = now\<rparr>"

record AntRegistration =
  rg_AntID :: string
  rg_AntTopic :: string
  rg_EncryptionKey :: string
  rg_MaxCapacity :: int
  rg_Tags :: "string list"
  rg_Methods :: "TaskMethod list"
  rg_CurrentLoad :: int
  rg_TotalExecuted :: int
  rg_Allocations :: "(string, AntAllocation) gomap"
  rg_CreatedAt :: int
  rg_AntStartedAt :: int
  rg_AutoRefresh :: bool
  rg_ReceivedAt :: int
  rg_ValidRegistration :: "(int \<Rightarrow> bool) option"

datatype registration_error = NoAntID | NoMethods

definition registration_Validate :: "AntRegistration \<Rightarrow> (registration_error, AntRegistration) result" where
  "registration_Validate r =
     (if rg_AntID r = [] then Err NoAntID
      else if rg_Methods r = [] then Err NoMethods
      else Ok (if rg_MaxCapacity r \<le> 0 then r\<lparr>rg_MaxCapacity := 1\<rparr> else r))"

definition registration_Key :: "AntRegistration \<Rightarrow> string" where
  "registration_Key r = rg_AntID r @ concat (map (\<lambda>t. t @ '':'') (rg_Tags r))
     @ concat (map (\<lambda>m. method_string m @ '':'') (rg_Methods r))"

text \<open>The age of an event as Go computes it: whole seconds turned into a 64-bit duration.\<close>

definition age :: "int \<Rightarrow> int \<Rightarrow> int" where
  "age now t = i64 (i64 (unix_secs now - unix_secs t) * Second)"

definition IsAlive :: "int \<Rightarrow> AntRegistration \<Rightarrow> int \<Rightarrow> bool" where
  "IsAlive now r timeout =
     (if age now (rg_ReceivedAt r) > timeout then False
      else (case rg_ValidRegistration r of None \<Rightarrow> True | Some valid \<Rightarrow> valid now))"

definition Supports :: "int \<Rightarrow> AntRegistration \<Rightarrow> TaskMethod \<Rightarrow> string list \<Rightarrow> int \<Rightarrow> bool" where
  "Supports now r m tags timeout =
     (if age now (rg_ReceivedAt r) > timeout then False
      else if (case rg_ValidRegistration r of None \<Rightarrow> False | Some valid \<Rightarrow> \<not> valid now) then False
      else if \<not> List.member (rg_Methods r) m then False
      else MatchTagsArray (rg_Tags r) tags = None)"

record AntReservation =
  rv_JobRequestID :: string
  rv_TaskType :: string
  rv_AntID :: string
  rv_AntTopic :: string
  rv_EncryptionKey :: string
  rv_AllocatedAt :: int
  rv_CurrentLoad :: nat
  rv_TotalExecuted :: int
  rv_TotalReservations :: nat

definition NewAntReservation ::
  "int \<Rightarrow> string \<Rightarrow> string \<Rightarrow> string \<Rightarrow> string \<Rightarrow> string \<Rightarrow> nat \<Rightarrow> int \<Rightarrow> AntReservation" where
  "NewAntReservation now antID antTopic requestID taskType encryptionKey currentLoad totalExecuted =
     \<lparr>rv_JobRequestID = requestID, rv_TaskType = taskType, rv_AntID = antID,
      rv_AntTopic = antTopic, rv_EncryptionKey = encryptionKey, rv_AllocatedAt = now,
      rv_CurrentLoad = currentLoad, rv_TotalExecuted = totalExecuted, rv_TotalReservations = 0\<rparr>"

datatype reservation_error = ReservationNoAntID | ReservationNoAntTopic

definition reservation_Validate :: "AntReservation \<Rightarrow> reservation_error option" where
  "reservation_Validate r =
     (if rv_AntID r = [] then Some ReservationNoAntID
      else if rv_AntTopic r = [] then Some ReservationNoAntTopic
      else None)"

subsection \<open>Container events\<close>

record ContainerLifecycleEvent =
  ce_ID :: string
  ce_CreatedAt :: int
  ce_UserID :: string
  ce_AntID :: string
  ce_Method :: TaskMethod
  ce_ContainerName :: string
  ce_ContainerID :: string
  ce_ContainerState :: RequestState
  ce_Labels :: "(string, string) gomap"
  ce_StartedAt :: int
  ce_EndedAt :: "int option"

definition ContainerLifecycleEventKey :: "TaskMethod \<Rightarrow> string \<Rightarrow> string" where
  "ContainerLifecycleEventKey m containerName = method_string m @ '':'' @ containerName"

definition container_Key :: "ContainerLifecycleEvent \<Rightarrow> string" where
  "container_Key cle = ContainerLifecycleEventKey (ce_Method cle) (ce_ContainerName cle)"

definition container_RequestID :: "ContainerLifecycleEvent \<Rightarrow> string" where
  "container_RequestID cle = (case mget (ce_Labels cle) ''RequestID'' of None \<Rightarrow> [] | Some r \<Rightarrow> r)"

text \<open>\<open>Duration.Milliseconds\<close> truncates towards zero; \<open>Time.Sub\<close> saturates at the ends of
  the 64-bit range.\<close>

definition time_Sub :: "int \<Rightarrow> int \<Rightarrow> int" where
  "time_Sub t u = max (- (2 ^ 63)) (min (2 ^ 63 - 1) (t - u))"

definition Milliseconds :: "int \<Rightarrow> int" where
  "Milliseconds d = (if d < 0 then - ((- d) div 1000000) else d div 1000000)"

definition container_Elapsed :: "int \<Rightarrow> ContainerLifecycleEvent \<Rightarrow> int" where
  "container_Elapsed now cle =
     (case ce_EndedAt cle of
        None \<Rightarrow> Milliseconds (time_Sub now (ce_StartedAt cle))
      | Some e \<Rightarrow> if ce_ContainerState cle = EXECUTING
                  then Milliseconds (time_Sub now (ce_StartedAt cle))
                  else Milliseconds (time_Sub e (ce_StartedAt cle)))"

datatype container_error = ContainerNoAnt | ContainerNoMethod | ContainerNoName | ContainerNoID

definition container_Validate :: "ContainerLifecycleEvent \<Rightarrow> container_error option" where
  "container_Validate cle =
     (if ce_AntID cle = [] then Some ContainerNoAnt
      else if ce_Method cle = NoMethod then Some ContainerNoMethod
      else if ce_ContainerName cle = [] then Some ContainerNoName
      else if ce_ContainerID cle = [] then Some ContainerNoID
      else None)"

subsection \<open>Lemmas on tags\<close>

lemma match_tags_loop_None:
  "match_tags_loop tags others = None \<longleftrightarrow>
     (\<forall>t \<in> set others. TrimSpace t = [] \<or> (\<exists>tag \<in> set tags. EqualFold tag t))"
  by (induction others) auto

lemma MatchTagsArray_None:
  "MatchTagsArray tags others = None \<longleftrightarrow>
     others = [] \<or>
     tags \<noteq> [] \<and> (\<forall>t \<in> set others. TrimSpace t = [] \<or> (\<exists>tag \<in> set tags. EqualFold tag t))"
  by (auto simp: MatchTagsArray_def match_tags_loop_None)

lemma MatchTagsArray_Nil [simp]: "MatchTagsArray tags [] = None"
  by (simp add: MatchTagsArray_def)

lemma MatchTagsArray_self: "MatchTagsArray tags tags = None"
  unfolding MatchTagsArray_None using EqualFold_refl by blast

lemma MatchTagsArray_mono:
  assumes "MatchTagsArray tags others = None" and "set others' \<subseteq> set others"
    and "set tags \<subseteq> set tags'"
  shows "MatchTagsArray tags' others' = None"
proof (cases "others' = []")
  case False
  with assms have "others \<noteq> []" by auto
  with assms(1) have "tags \<noteq> []" and
    m: "\<forall>t \<in> set others. TrimSpace t = [] \<or> (\<exists>tag \<in> set tags. EqualFold tag t)"
    by (auto simp: MatchTagsArray_None)
  from \<open>tags \<noteq> []\<close> assms(3) have "tags' \<noteq> []" by auto
  with m assms show ?thesis by (auto simp: MatchTagsArray_None)
qed simp

lemma SplitTags_props:
  assumes "t \<in> set (SplitTags tags)"
  shows "t \<noteq> []" "\<forall>c \<in> set t. \<not> is_tag_separator c"
proof -
  from assms obtain p where p: "p \<in> set (split_on is_tag_separator tags)" "t = TrimSpace p"
    and "t \<noteq> []"
    by (auto simp: SplitTags_def)
  then show "t \<noteq> []" by simp
  have "set t \<subseteq> set p"
    using p(2) by (auto simp: TrimSpace_def dest!: set_dropWhileD)
  with p(1) show "\<forall>c \<in> set t. \<not> is_tag_separator c"
    by (auto dest: split_on_no_sep)
qed

lemma SplitTags_sorted: "sorted (SplitTags tags)"
  by (simp add: SplitTags_def)

lemma MakeDNS1123Compatible_props:
  "length (MakeDNS1123Compatible name) \<le> 63"
  "\<forall>c \<in> set (MakeDNS1123Compatible name). dns_char c"
  "MakeDNS1123Compatible name \<noteq> [] \<Longrightarrow> hd (MakeDNS1123Compatible name) \<noteq> CHR ''-''"
proof -
  show "length (MakeDNS1123Compatible name) \<le> 63"
    by (simp add: MakeDNS1123Compatible_def)
  show "\<forall>c \<in> set (MakeDNS1123Compatible name). dns_char c"
    by (auto simp: MakeDNS1123Compatible_def dest!: in_set_takeD set_dropWhileD)
  show "MakeDNS1123Compatible name \<noteq> [] \<Longrightarrow> hd (MakeDNS1123Compatible name) \<noteq> CHR ''-''"
  proof -
    assume "MakeDNS1123Compatible name \<noteq> []"
    then show ?thesis
      unfolding MakeDNS1123Compatible_def take_eq_Nil de_Morgan_disj
      by (subst hd_take) (auto dest: hd_dropWhile simp del: dropWhile_eq_Nil_conv)
  qed
qed

subsection \<open>Lemmas on registrations\<close>

lemma age_exact:
  assumes "in_i64 ((unix_secs now - unix_secs t) * Second)"
  shows "age now t = (unix_secs now - unix_secs t) * Second"
proof -
  have "in_i64 (unix_secs now - unix_secs t)"
    using assms by (simp add: in_i64_def)
  with assms show ?thesis by (simp add: age_def)
qed

lemma Supports_iff:
  "Supports now r m tags timeout \<longleftrightarrow>
     IsAlive now r timeout \<and> m \<in> set (rg_Methods r) \<and> MatchTagsArray (rg_Tags r) tags = None"
  by (auto simp: Supports_def IsAlive_def split: option.splits)

lemma registration_Validate_Ok:
  "registration_Validate r = Ok r' \<Longrightarrow>
     rg_AntID r' \<noteq> [] \<and> rg_Methods r' \<noteq> [] \<and> rg_MaxCapacity r' \<ge> 1 \<and>
     r' = r\<lparr>rg_MaxCapacity := max 1 (rg_MaxCapacity r)\<rparr>"
  by (auto simp: registration_Validate_def max_def split: if_splits)

lemma NewAntReservation_simps [simp]:
  "rv_JobRequestID (NewAntReservation now a tp r t k l e) = r"
  "rv_TaskType (NewAntReservation now a tp r t k l e) = t"
  "rv_AntID (NewAntReservation now a tp r t k l e) = a"
  "rv_AntTopic (NewAntReservation now a tp r t k l e) = tp"
  "rv_EncryptionKey (NewAntReservation now a tp r t k l e) = k"
  "rv_CurrentLoad (NewAntReservation now a tp r t k l e) = l"
  "rv_TotalExecuted (NewAntReservation now a tp r t k l e) = e"
  by (simp_all add: NewAntReservation_def)

lemma NewAntAllocation_simps [simp]:
  "al_JobRequestID (NewAntAllocation now a tp r t) = r"
  "al_TaskTypes (NewAntAllocation now a tp r t) = [(t, EXECUTING)]"
  "al_AntID (NewAntAllocation now a tp r t) = a"
  "al_AntTopic (NewAntAllocation now a tp r t) = tp"
  by (simp_all add: NewAntAllocation_def)

end
