(* ===== verification/Resource_State.thy ===== *)
theory Resource_State
  imports Ant_Types
begin

text \<open>
  The in-memory state of the resource manager (\<open>queen/resource/resource_manager_state.go\<close>):
  which ants are registered, the indexes by tag, method and request, the allocations every
  ant holds and the running containers.  Every operation of the Go type \<open>State\<close> takes the
  lock for its whole body, so an operation is one function on the state.

  A nil dereference and a write to a nil map are the errors \<open>NilDereference\<close> and
  \<open>NilMapWrite\<close>.  Messages to ants go through the queue client, which is not part of this
  code: \<open>terminateContainer\<close> and \<open>addContainers\<close> take its functions as arguments.
\<close>

subsection \<open>State\<close>

type_synonym ant_set = "(string, bool) gomap"

record State =
  antRegistrations :: "(string, AntRegistration) gomap"
  antByTag :: "(string, ant_set) gomap"
  antByMethod :: "(TaskMethod, ant_set) gomap"
  antsByRequest :: "(string, ant_set) gomap"
  allocationsByAnt :: "(string, (string, AntAllocation) gomap) gomap"
  containersEvents :: "(string, ContainerLifecycleEvent) gomap"
  containersEventKeysByRequestID :: "(string, ant_set) gomap"

datatype resource_error =
    NoAntsForMethod TaskMethod
  | NoAntsForTag string
  | NoAntsReserved TaskMethod "string list"
  | NilDereference
  | NilMapWrite
  | AntNotFound string
  | MarshalFailed
  | MethodNotSpecified
  | MethodsNotSpecified
  | ReservationNotSpecified
  | AntNotRegistered string
  | NoLiveAntForMethod TaskMethod
  | NoMatchingAntForTag string
  | InvalidRegistration registration_error

definition NewState :: State where
  "NewState = \<lparr>antRegistrations = [], antByTag = [], antByMethod = [], antsByRequest = [],
     allocationsByAnt = [], containersEvents = [], containersEventKeysByRequestID = []\<rparr>"

definition getRegistrationByAnt :: "State \<Rightarrow> string \<Rightarrow> AntRegistration option" where
  "getRegistrationByAnt s antID = mget (antRegistrations s) antID"

subsection \<open>Reserving\<close>

definition calculateLoad :: "(string, AntAllocation) gomap \<Rightarrow> nat" where
  "calculateLoad allocs = sum_list (map (\<lambda>alloc. length (al_TaskTypes alloc)) (mvals allocs))"

text \<open>The loop over the requested tags, lines 78 to 95.\<close>

fun tag_ants_loop ::
  "State \<Rightarrow> string list \<Rightarrow> (string, nat) gomap \<Rightarrow> (resource_error, (string, nat) gomap) result" where
  "tag_ants_loop s [] tagAnts = Ok tagAnts"
| "tag_ants_loop s (outerTag # tags) tagAnts =
     (if TrimSpace outerTag = [] then tag_ants_loop s tags tagAnts
      else case mget (antByTag s) outerTag of
             None \<Rightarrow> Err (NoAntsForTag outerTag)
           | Some antIDs \<Rightarrow>
               if length antIDs = 0 then Err (NoAntsForTag outerTag)
               else tag_ants_loop s tags (fold (\<lambda>antID. mset antID 1) (mkeys antIDs) tagAnts))"

text \<open>The ants of the method with their scores, lines 98 to 106.\<close>

definition available_ants :: "ant_set \<Rightarrow> string list \<Rightarrow> (string, nat) gomap \<Rightarrow> (string, nat) gomap" where
  "available_ants methodAnts tags tagAnts =
     fold (\<lambda>k. mset k (if length tags = 0 then 2
                       else 1 + (case mget tagAnts k of None \<Rightarrow> 0 | Some n \<Rightarrow> n)))
       (mkeys methodAnts) []"

text \<open>The loop that collects the ants that can take the task, lines 109 to 136.\<close>

fun candidate_loop ::
  "int \<Rightarrow> int \<Rightarrow> State \<Rightarrow> string \<Rightarrow> string \<Rightarrow> TaskMethod \<Rightarrow> string list \<Rightarrow> (string, nat) gomap \<Rightarrow>
   (resource_error, AntReservation list) result" where
  "candidate_loop now timeout s requestID taskType m tags [] = Ok []"
| "candidate_loop now timeout s requestID taskType m tags ((antID, count) # rest) =
     (if count \<noteq> 2 then candidate_loop now timeout s requestID taskType m tags rest
      else case mget (antRegistrations s) antID of
             None \<Rightarrow> Err NilDereference
           | Some registration \<Rightarrow>
             (case mget (allocationsByAnt s) (rg_AntID registration) of
                None \<Rightarrow> candidate_loop now timeout s requestID taskType m tags rest
              | Some allocs \<Rightarrow>
                  if Supports now registration m tags timeout then
                    (case candidate_loop now timeout s requestID taskType m tags rest of
                       Inl e \<Rightarrow> Err e
                     | Inr rs \<Rightarrow> Ok (NewAntReservation now (rg_AntID registration)
                         (rg_AntTopic registration) requestID taskType
                         (rg_EncryptionKey registration) (calculateLoad allocs)
                         (rg_TotalExecuted registration) # rs))
                  else candidate_loop now timeout s requestID taskType m tags rest))"

definition addAllocationsByAnt ::
  "int \<Rightarrow> State \<Rightarrow> string \<Rightarrow> string \<Rightarrow> AntReservation \<Rightarrow> (resource_error, State \<times> AntReservation) result" where
  "addAllocationsByAnt now s requestID taskType reservation =
     (case mget (allocationsByAnt s) (rv_AntID reservation) of
        None \<Rightarrow> Err NilMapWrite
      | Some allocs \<Rightarrow>
          (let allocation = (case mget allocs requestID of
                 None \<Rightarrow> NewAntAllocation now (rv_AntID reservation) (rv_AntTopic reservation)
                           requestID taskType
               | Some al \<Rightarrow> al);
               allocation' = allocation\<lparr>al_TaskTypes := mset taskType RESERVED (al_TaskTypes allocation)\<rparr>;
               allocs' = mset requestID allocation' allocs
           in Ok (s\<lparr>allocationsByAnt := mset (rv_AntID reservation) allocs' (allocationsByAnt s)\<rparr>,
                  reservation\<lparr>rv_CurrentLoad := length allocs'\<rparr>)))"

definition addAntsByRequest :: "State \<Rightarrow> string \<Rightarrow> string \<Rightarrow> State" where
  "addAntsByRequest s requestID antID =
     (let requestAnts = (case mget (antsByRequest s) requestID of None \<Rightarrow> [] | Some ants \<Rightarrow> ants)
      in s\<lparr>antsByRequest := mset requestID (mset antID True requestAnts) (antsByRequest s)\<rparr>)"

definition reserve ::
  "int \<Rightarrow> int \<Rightarrow> State \<Rightarrow> string \<Rightarrow> string \<Rightarrow> TaskMethod \<Rightarrow> string list \<Rightarrow> bool \<Rightarrow>
   State \<times> (resource_error, AntReservation) result" where
  "reserve now timeout s requestID taskType m tags dryRun =
     (case mget (antByMethod s) m of
        None \<Rightarrow> (s, Err (NoAntsForMethod m))
      | Some methodAnts \<Rightarrow>
        if length methodAnts = 0 then (s, Err (NoAntsForMethod m))
        else case tag_ants_loop s tags [] of
          Inl e \<Rightarrow> (s, Err e)
        | Inr tagAnts \<Rightarrow>
          (case candidate_loop now timeout s requestID taskType m tags
                  (available_ants methodAnts tags tagAnts) of
             Inl e \<Rightarrow> (s, Err e)
           | Inr reservations \<Rightarrow>
             if length reservations = 0 then (s, Err (NoAntsReserved m tags))
             else
               (let sorted_reservations =
                      (if dryRun then reservations else sort_key rv_CurrentLoad reservations);
                    first = hd sorted_reservations;
                    reservation = (NewAntReservation now (rv_AntID first) (rv_AntTopic first)
                      (rv_JobRequestID first) (rv_TaskType first) (rv_EncryptionKey first)
                      (rv_CurrentLoad first) (rv_TotalExecuted first))
                      \<lparr>rv_TotalReservations := length sorted_reservations\<rparr>
                in if dryRun then (s, Ok reservation)
                   else case addAllocationsByAnt now s requestID taskType reservation of
                          Inl e \<Rightarrow> (s, Err e)
                        | Inr (s1, reservation1) \<Rightarrow>
                            (addAntsByRequest s1 requestID (rv_AntID reservation1),
                             Ok reservation1))))"

subsection \<open>Releasing\<close>

definition release_request_of_ant ::
  "string \<Rightarrow> string \<Rightarrow> (string, (string, AntAllocation) gomap) gomap \<Rightarrow>
   (string, (string, AntAllocation) gomap) gomap" where
  "release_request_of_ant requestID antID byAnt =
     (case mget byAnt antID of
        None \<Rightarrow> byAnt
      | Some allocs \<Rightarrow>
          (case mget allocs requestID of
             None \<Rightarrow> byAnt
           | Some _ \<Rightarrow> mset antID (mdel requestID allocs) byAnt))"

definition releaseJob :: "State \<Rightarrow> string \<Rightarrow> State" where
  "releaseJob s requestID =
     (case mget (antsByRequest s) requestID of
        None \<Rightarrow> s
      | Some requestAnts \<Rightarrow>
          s\<lparr>allocationsByAnt :=
              fold (release_request_of_ant requestID) (mkeys requestAnts) (allocationsByAnt s),
            antsByRequest := mdel requestID (antsByRequest s),
            containersEvents :=
              (case mget (containersEventKeysByRequestID s) requestID of
                 None \<Rightarrow> containersEvents s
               | Some ks \<Rightarrow> fold mdel (mkeys ks) (containersEvents s)),
            containersEventKeysByRequestID := mdel requestID (containersEventKeysByRequestID s)\<rparr>)"

definition release :: "State \<Rightarrow> AntReservation \<Rightarrow> State" where
  "release s reservation =
     (case mget (allocationsByAnt s) (rv_AntID reservation) of
        None \<Rightarrow> s
      | Some allocs \<Rightarrow>
        (case mget allocs (rv_JobRequestID reservation) of
           None \<Rightarrow> s
         | Some al \<Rightarrow>
           (let types = mdel (rv_TaskType reservation) (al_TaskTypes al)
            in if length types = 0 then
                 s\<lparr>allocationsByAnt := mset (rv_AntID reservation)
                     (mdel (rv_JobRequestID reservation) allocs) (allocationsByAnt s),
                   antsByRequest := mdel (rv_JobRequestID reservation) (antsByRequest s)\<rparr>
               else
                 s\<lparr>allocationsByAnt := mset (rv_AntID reservation)
                     (mset (rv_JobRequestID reservation) (al\<lparr>al_TaskTypes := types\<rparr>) allocs)
                     (allocationsByAnt s)\<rparr>)))"

subsection \<open>Queries\<close>

definition getAllocationsByAnt :: "State \<Rightarrow> string \<Rightarrow> (string, AntAllocation) gomap option" where
  "getAllocationsByAnt s antID = mget (allocationsByAnt s) antID"

definition hasAntsByMethod :: "State \<Rightarrow> TaskMethod \<Rightarrow> bool \<times> nat" where
  "hasAntsByMethod s m =
     (case mget (antByMethod s) m of None \<Rightarrow> (False, 0) | Some ants \<Rightarrow> (length ants > 0, length ants))"

definition getAntIDsByMethod :: "State \<Rightarrow> TaskMethod \<Rightarrow> string list" where
  "getAntIDsByMethod s m = (case mget (antByMethod s) m of None \<Rightarrow> [] | Some ants \<Rightarrow> mkeys ants)"

definition getAntsByTag :: "State \<Rightarrow> string \<Rightarrow> string list \<times> nat" where
  "getAntsByTag s tag =
     (case mget (antByTag s) tag of None \<Rightarrow> ([], 0) | Some ants \<Rightarrow> (mkeys ants, length ants))"

definition getRegistrations :: "State \<Rightarrow> AntRegistration list" where
  "getRegistrations s = sort_key rg_AntID (mvals (antRegistrations s))"

definition getRegistration :: "State \<Rightarrow> string \<Rightarrow> AntRegistration option" where
  "getRegistration s antID = List.find (\<lambda>r. rg_AntID r = antID) (mvals (antRegistrations s))"

definition countContainerEvents :: "State \<Rightarrow> (TaskMethod, nat) gomap" where
  "countContainerEvents s =
     fold (\<lambda>e res. mset (ce_Method e)
             ((case mget res (ce_Method e) of None \<Rightarrow> 0 | Some n \<Rightarrow> n) + 1) res)
       (mvals (containersEvents s)) []"

definition getContainerEvents :: "int \<Rightarrow> State \<Rightarrow> string \<Rightarrow> ContainerLifecycleEvent list" where
  "getContainerEvents now s sortBy =
     (let events = mvals (containersEvents s)
      in if sortBy = ''time'' then sort_key (\<lambda>e. - unix_secs (ce_CreatedAt e)) events
         else if sortBy = ''key'' then sort_key container_Key events
         else if sortBy = ''elapsed'' then sort_key (\<lambda>e. - container_Elapsed now e) events
         else sort_key ce_ContainerName events)"

subsection \<open>Containers\<close>

definition updateContainer :: "State \<Rightarrow> ContainerLifecycleEvent \<Rightarrow> State" where
  "updateContainer s cnt =
     (let ks = (case mget (containersEventKeysByRequestID s) (container_RequestID cnt) of
                  None \<Rightarrow> [] | Some ks \<Rightarrow> ks)
      in if Done (ce_ContainerState cnt) then
           s\<lparr>containersEvents := mdel (container_Key cnt) (containersEvents s),
             containersEventKeysByRequestID :=
               mset (container_RequestID cnt) (mdel (container_Key cnt) ks)
                 (containersEventKeysByRequestID s)\<rparr>
         else
           s\<lparr>containersEvents := mset (container_Key cnt) cnt (containersEvents s),
             containersEventKeysByRequestID :=
               mset (container_RequestID cnt) (mset (container_Key cnt) True ks)
                 (containersEventKeysByRequestID s)\<rparr>)"

text \<open>
  \<open>marshal\<close> encodes the TERMINATE request for a container id and method under the ant's key,
  \<open>sendReceive\<close> sends it to the ant's topic and waits for the reply, \<open>unmarshal\<close> decodes the
  reply into its status.  The inner block of the Go code declares its own \<open>err\<close>
  (\<open>if res, err := ...\<close>), so what it finds (\<open>inner_err\<close>) is not the error returned.
\<close>

definition terminateContainer ::
  "(string \<Rightarrow> string \<Rightarrow> TaskMethod \<Rightarrow> (string, 'b) result) \<Rightarrow> (string \<Rightarrow> 'b \<Rightarrow> (string, 'r) result) \<Rightarrow>
   (string \<Rightarrow> 'r \<Rightarrow> (string, RequestState) result) \<Rightarrow> State \<Rightarrow> string \<Rightarrow> string \<Rightarrow> TaskMethod \<Rightarrow>
   resource_error option" where
  "terminateContainer marshal sendReceive unmarshal s cid antID m =
     (case getRegistrationByAnt s antID of
        None \<Rightarrow> Some (AntNotFound antID)
      | Some registration \<Rightarrow>
        (case marshal (rg_EncryptionKey registration) cid m of
           Inl _ \<Rightarrow> Some MarshalFailed
         | Inr b \<Rightarrow>
           (let inner_err = (case sendReceive (rg_AntTopic registration) b of
                   Inl e \<Rightarrow> Some e
                 | Inr res \<Rightarrow> (case unmarshal (rg_EncryptionKey registration) res of
                     Inl e \<Rightarrow> Some e
                   | Inr status \<Rightarrow> if Failed status then Some ''failed to terminate'' else None))
            in None)))"

text \<open>\<open>list_containers\<close> is the whole exchange with the ant: the containers of a well-formed
  reply, or None when any step of it fails.\<close>

definition addContainers ::
  "(AntRegistration \<Rightarrow> ContainerLifecycleEvent list option) \<Rightarrow> State \<Rightarrow> AntRegistration \<Rightarrow> State" where
  "addContainers list_containers s registration =
     (case list_containers registration of
        None \<Rightarrow> s
      | Some containers \<Rightarrow> fold (\<lambda>c st. updateContainer st c) containers s)"

subsection \<open>Registering\<close>

definition index_add :: "string \<Rightarrow> 'k \<Rightarrow> ('k, ant_set) gomap \<Rightarrow> ('k, ant_set) gomap" where
  "index_add antID k idx =
     mset k (mset antID True (case mget idx k of None \<Rightarrow> [] | Some ants \<Rightarrow> ants)) idx"

definition updateAntsByMethods :: "State \<Rightarrow> AntRegistration \<Rightarrow> State" where
  "updateAntsByMethods s registration =
     s\<lparr>antByMethod := fold (index_add (rg_AntID registration)) (rg_Methods registration)
         (antByMethod s)\<rparr>"

definition updateAntsByTags :: "State \<Rightarrow> AntRegistration \<Rightarrow> State" where
  "updateAntsByTags s registration =
     s\<lparr>antByTag := fold (index_add (rg_AntID registration)) (rg_Tags registration)
         (antByTag s)\<rparr>"

definition merge_allocation ::
  "AntAllocation \<Rightarrow> (string, AntAllocation) gomap \<Rightarrow> (string, AntAllocation) gomap" where
  "merge_allocation alloc allocs =
     (case mget allocs (al_JobRequestID alloc) of
        None \<Rightarrow> mset (al_JobRequestID alloc) alloc allocs
      | Some oldAlloc \<Rightarrow> mset (al_JobRequestID alloc)
          (oldAlloc\<lparr>al_TaskTypes := fold (\<lambda>(task, state). mset task state) (al_TaskTypes alloc)
                                     (al_TaskTypes oldAlloc),
                    al_UpdatedAt := al_UpdatedAt alloc\<rparr>) allocs)"

text \<open>The second component tells whether the containers of the ant are fetched in the
  background (\<open>go s.addContainers\<close>).\<close>

definition addRegistration :: "State \<Rightarrow> AntRegistration \<Rightarrow> State \<times> bool" where
  "addRegistration s registration =
     (let s1 = s\<lparr>antRegistrations := mset (rg_AntID registration) registration (antRegistrations s)\<rparr>;
          old = mget (allocationsByAnt s) (rg_AntID registration);
          allocs = fold merge_allocation (mvals (rg_Allocations registration))
                     (case old of None \<Rightarrow> [] | Some m \<Rightarrow> m);
          s2 = s1\<lparr>allocationsByAnt := mset (rg_AntID registration) allocs (allocationsByAnt s1)\<rparr>
      in (updateAntsByTags (updateAntsByMethods s2 registration) registration, old = None))"

definition drop_ant :: "string \<Rightarrow> ('k, ant_set) gomap \<Rightarrow> ('k, ant_set) gomap" where
  "drop_ant antID idx =
     map (\<lambda>(k, ants). (k, if mget ants antID = Some True then mdel antID ants else ants)) idx"

definition keys_with_ant :: "string \<Rightarrow> ('k, ant_set) gomap \<Rightarrow> 'k list" where
  "keys_with_ant antID idx = map fst (filter (\<lambda>(k, ants). mget ants antID = Some True) idx)"

definition removeRegistration :: "State \<Rightarrow> string \<Rightarrow> State \<times> string list \<times> TaskMethod list \<times> nat" where
  "removeRegistration s antID =
     (s\<lparr>antRegistrations := mdel antID (antRegistrations s),
        allocationsByAnt := mdel antID (allocationsByAnt s),
        antByTag := drop_ant antID (antByTag s),
        antByMethod := drop_ant antID (antByMethod s),
        antsByRequest := drop_ant antID (antsByRequest s)\<rparr>,
      keys_with_ant antID (antByTag s),
      keys_with_ant antID (antByMethod s),
      length (antRegistrations s) - length (mdel antID (antRegistrations s)))"

definition state_reapStaleAllocations :: "int \<Rightarrow> State \<Rightarrow> int \<Rightarrow> AntReservation list" where
  "state_reapStaleAllocations now s timeout =
     concat (map (\<lambda>allocs. concat (map (\<lambda>(requestID, allocation).
         if age now (al_AllocatedAt allocation) > timeout
         then map (\<lambda>taskType. NewAntReservation now (al_AntID allocation) (al_AntTopic allocation)
                     requestID taskType [] 0 0) (mkeys (al_TaskTypes allocation))
         else []) allocs)) (mvals (allocationsByAnt s)))"

subsection \<open>What the state means\<close>

text \<open>An ant is listed under a key of an index; a task of a request holds an ant; a request
  has an allocation on an ant.\<close>

definition indexed :: "('k, ant_set) gomap \<Rightarrow> 'k \<Rightarrow> string \<Rightarrow> bool" where
  "indexed idx k a = (case mget idx k of None \<Rightarrow> False | Some ants \<Rightarrow> mget ants a = Some True)"

definition allocation_of :: "State \<Rightarrow> string \<Rightarrow> string \<Rightarrow> AntAllocation option" where
  "allocation_of s a r =
     (case mget (allocationsByAnt s) a of None \<Rightarrow> None | Some allocs \<Rightarrow> mget allocs r)"

definition holds :: "State \<Rightarrow> string \<Rightarrow> string \<Rightarrow> string \<Rightarrow> bool" where
  "holds s a r t =
     (case allocation_of s a r of None \<Rightarrow> False | Some al \<Rightarrow> mget (al_TaskTypes al) t \<noteq> None)"

definition ants_ok :: "string list \<Rightarrow> ant_set \<Rightarrow> bool" where
  "ants_ok live ants = (mwf ants \<and> (\<forall>(a, b) \<in> set ants. b = True \<and> a \<in> set live))"

definition index_ok :: "string list \<Rightarrow> ('k, ant_set) gomap \<Rightarrow> bool" where
  "index_ok live idx = (mwf idx \<and> (\<forall>(k, ants) \<in> set idx. ants_ok live ants))"

definition allocs_ok :: "(string, AntAllocation) gomap \<Rightarrow> bool" where
  "allocs_ok allocs =
     (mwf allocs \<and> (\<forall>(r, al) \<in> set allocs. al_JobRequestID al = r \<and> mwf (al_TaskTypes al)))"

definition registration_ok :: "AntRegistration \<Rightarrow> bool" where
  "registration_ok r = (\<forall>al \<in> set (mvals (rg_Allocations r)). mwf (al_TaskTypes al))"

definition state_inv :: "State \<Rightarrow> bool" where
  "state_inv s =
     (mwf (antRegistrations s) \<and>
      (\<forall>(a, r) \<in> set (antRegistrations s). rg_AntID r = a \<and>
         (\<forall>m \<in> set (rg_Methods r). indexed (antByMethod s) m a) \<and>
         (\<forall>t \<in> set (rg_Tags r). indexed (antByTag s) t a)) \<and>
      index_ok (mkeys (antRegistrations s)) (antByTag s) \<and>
      index_ok (mkeys (antRegistrations s)) (antByMethod s) \<and>
      index_ok (mkeys (antRegistrations s)) (antsByRequest s) \<and>
      mwf (allocationsByAnt s) \<and>
      set (mkeys (allocationsByAnt s)) = set (mkeys (antRegistrations s)) \<and>
      (\<forall>(a, allocs) \<in> set (allocationsByAnt s). allocs_ok allocs))"

text \<open>The ledger property: every ant on which a request has an allocation is listed under
  that request, so that releasing the request finds it.\<close>

definition ledger :: "State \<Rightarrow> bool" where
  "ledger s = (\<forall>(a, allocs) \<in> set (allocationsByAnt s). \<forall>r \<in> set (mkeys allocs).
     indexed (antsByRequest s) r a)"

text \<open>The specification of eligibility: a live registered ant with the method and the tags
  that the indexes list under the method and, if tags are asked for, under one of them.\<close>

definition eligible :: "int \<Rightarrow> int \<Rightarrow> State \<Rightarrow> TaskMethod \<Rightarrow> string list \<Rightarrow> string \<Rightarrow> bool" where
  "eligible now timeout s m tags a =
     (case mget (antRegistrations s) a of
        None \<Rightarrow> False
      | Some r \<Rightarrow> Supports now r m tags timeout \<and> indexed (antByMethod s) m a \<and>
          (tags = [] \<or> (\<exists>t \<in> set tags. TrimSpace t \<noteq> [] \<and> indexed (antByTag s) t a)))"

definition ant_load :: "State \<Rightarrow> string \<Rightarrow> nat" where
  "ant_load s a =
     (case mget (allocationsByAnt s) a of None \<Rightarrow> 0 | Some allocs \<Rightarrow> calculateLoad allocs)"

text \<open>The candidate reservation of a registered ant.\<close>

definition candidate :: "int \<Rightarrow> State \<Rightarrow> string \<Rightarrow> string \<Rightarrow> string \<Rightarrow> AntReservation" where
  "candidate now s requestID taskType a =
     (case mget (antRegistrations s) a of
        None \<Rightarrow> NewAntReservation now a [] requestID taskType [] 0 0
      | Some r \<Rightarrow> NewAntReservation now a (rg_AntTopic r) requestID taskType (rg_EncryptionKey r)
                    (ant_load s a) (rg_TotalExecuted r))"

definition ant_supports :: "int \<Rightarrow> int \<Rightarrow> State \<Rightarrow> TaskMethod \<Rightarrow> string list \<Rightarrow> string \<Rightarrow> bool" where
  "ant_supports now timeout s m tags a =
     (case mget (antRegistrations s) a of None \<Rightarrow> False | Some r \<Rightarrow> Supports now r m tags timeout)"

subsection \<open>Lemmas on indexes\<close>

lemma ants_ok_iff:
  "ants_ok live ants \<longleftrightarrow>
     mwf ants \<and> (\<forall>a. mget ants a = None \<or> mget ants a = Some True \<and> a \<in> set live)"
proof (cases "mwf ants")
  case True
  have "(\<forall>(a, b) \<in> set ants. b = True \<and> a \<in> set live) \<longleftrightarrow>
        (\<forall>a b. mget ants a = Some b \<longrightarrow> b = True \<and> a \<in> set live)"
    using True by (auto simp: mget_eq_Some_iff)
  also have "\<dots> \<longleftrightarrow> (\<forall>a. mget ants a = None \<or> mget ants a = Some True \<and> a \<in> set live)"
    by (metis option.exhaust option.inject option.distinct(1))
  finally show ?thesis using True by (simp add: ants_ok_def)
qed (simp add: ants_ok_def)

lemma ants_ok_mwf: "ants_ok live ants \<Longrightarrow> mwf ants"
  by (simp add: ants_ok_iff)

lemma ants_okD: "ants_ok live ants \<Longrightarrow> mget ants a = Some b \<Longrightarrow> b = True \<and> a \<in> set live"
  unfolding ants_ok_iff by (metis option.distinct(1) option.inject)

lemma ants_ok_Nil [simp]: "ants_ok live []"
  by (simp add: ants_ok_def)

lemma ants_ok_mset [simp]: "ants_ok live ants \<Longrightarrow> a \<in> set live \<Longrightarrow> ants_ok live (mset a True ants)"
  by (simp add: ants_ok_iff)

lemma ants_ok_mdel [simp]: "ants_ok live ants \<Longrightarrow> ants_ok live (mdel a ants)"
  by (simp add: ants_ok_iff)

lemma ants_ok_mono: "ants_ok live ants \<Longrightarrow> set live \<subseteq> set live' \<Longrightarrow> ants_ok live' ants"
  unfolding ants_ok_iff by blast

lemma index_ok_iff:
  "index_ok live idx \<longleftrightarrow> mwf idx \<and> (\<forall>k ants. mget idx k = Some ants \<longrightarrow> ants_ok live ants)"
  by (cases "mwf idx") (auto simp: index_ok_def mget_eq_Some_iff)

lemma index_ok_mwf: "index_ok live idx \<Longrightarrow> mwf idx"
  by (simp add: index_ok_iff)

lemma index_okD: "index_ok live idx \<Longrightarrow> mget idx k = Some ants \<Longrightarrow> ants_ok live ants"
  by (simp add: index_ok_iff)

lemma indexed_live: "index_ok live idx \<Longrightarrow> indexed idx k a \<Longrightarrow> a \<in> set live"
  by (auto simp: indexed_def split: option.splits dest: index_okD ants_okD)

lemma indexed_keys:
  "index_ok live idx \<Longrightarrow> mget idx k = Some ants \<Longrightarrow> a \<in> set (mkeys ants) \<longleftrightarrow> indexed idx k a"
  using mget_None_iff[of ants a] by (auto simp: indexed_def dest: index_okD ants_okD)

lemma indexed_empty: "mget idx k = Some ants \<Longrightarrow> ants = [] \<Longrightarrow> \<not> indexed idx k a"
  by (simp add: indexed_def)

lemma index_ok_Nil [simp, inv_intros]: "index_ok live []"
  by (simp add: index_ok_def)

lemma index_ok_mono: "index_ok live idx \<Longrightarrow> set live \<subseteq> set live' \<Longrightarrow> index_ok live' idx"
  by (auto simp: index_ok_iff intro: ants_ok_mono)

lemma index_ok_mset [inv_intros]:
  "index_ok live idx \<Longrightarrow> ants_ok live ants \<Longrightarrow> index_ok live (mset k ants idx)"
  by (auto simp: index_ok_iff)

lemma index_ok_mdel [inv_intros]: "index_ok live idx \<Longrightarrow> index_ok live (mdel k idx)"
  by (auto simp: index_ok_iff)

lemma index_ok_add [inv_intros]:
  "index_ok live idx \<Longrightarrow> a \<in> set live \<Longrightarrow> index_ok live (index_add a k idx)"
  unfolding index_add_def
  by (rule index_ok_mset) (auto split: option.splits simp del: mset_Nil dest: index_okD)

lemma index_ok_add_fold [inv_intros]:
  "index_ok live idx \<Longrightarrow> a \<in> set live \<Longrightarrow> index_ok live (fold (index_add a) ks idx)"
  by (induction ks arbitrary: idx) (simp_all add: index_ok_add)

lemma indexed_add [simp]:
  "indexed (index_add a k idx) k' a' \<longleftrightarrow> indexed idx k' a' \<or> k' = k \<and> a' = a"
  by (auto simp: indexed_def index_add_def split: option.splits)

lemma indexed_add_fold [simp]:
  "indexed (fold (index_add a) ks idx) k' a' \<longleftrightarrow> indexed idx k' a' \<or> k' \<in> set ks \<and> a' = a"
  by (induction ks arbitrary: idx) auto

lemma mget_map_value:
  "mget (map (\<lambda>(k, v). (k, f v)) m) k = map_option f (mget m k)"
  by (induction m) (auto simp: mget_def)

lemma mget_drop_ant:
  "mget (drop_ant a idx) k =
     map_option (\<lambda>ants. if mget ants a = Some True then mdel a ants else ants) (mget idx k)"
  unfolding drop_ant_def by (rule mget_map_value)

lemma mwf_drop_ant [simp]: "mwf (drop_ant a idx) = mwf idx"
  by (simp add: mwf_def drop_ant_def case_prod_unfold comp_def)

lemma indexed_drop_ant [simp]:
  "indexed (drop_ant a idx) k a' \<longleftrightarrow> indexed idx k a' \<and> a' \<noteq> a"
  by (auto simp: indexed_def mget_drop_ant split: option.splits)

lemma index_ok_drop_ant [inv_intros]:
  assumes "index_ok live idx" and "set live' = set live - {a}"
  shows "index_ok live' (drop_ant a idx)"
  unfolding index_ok_iff
proof (intro conjI allI impI)
  show "mwf (drop_ant a idx)" using assms by (simp add: index_ok_iff)
next
  fix k ants assume "mget (drop_ant a idx) k = Some ants"
  then obtain ants0 where a0: "mget idx k = Some ants0"
    and ants: "ants = (if mget ants0 a = Some True then mdel a ants0 else ants0)"
    by (auto simp: mget_drop_ant)
  from index_okD[OF assms(1) a0] have w: "mwf ants0"
    and v: "\<forall>a'. mget ants0 a' = None \<or> mget ants0 a' = Some True \<and> a' \<in> set live"
    by (simp_all add: ants_ok_iff)
  show "ants_ok live' ants"
  proof (cases "mget ants0 a = None")
    case True
    with v assms(2) have "\<forall>a'. mget ants0 a' = None \<or> mget ants0 a' = Some True \<and> a' \<in> set live'"
      by (metis Diff_iff empty_iff insert_iff option.distinct(1))
    with True w ants show ?thesis by (simp add: ants_ok_iff)
  next
    case False
    with v have "ants = mdel a ants0" unfolding ants by metis
    with v w assms(2) show ?thesis by (simp add: ants_ok_iff)
  qed
qed

subsection \<open>The invariant in terms of lookups\<close>

lemma allocs_ok_iff:
  "allocs_ok allocs \<longleftrightarrow> mwf allocs \<and>
     (\<forall>r al. mget allocs r = Some al \<longrightarrow> al_JobRequestID al = r \<and> mwf (al_TaskTypes al))"
  by (cases "mwf allocs") (auto simp: allocs_ok_def mget_eq_Some_iff)

lemma state_inv_iff:
  "state_inv s \<longleftrightarrow>
     (mwf (antRegistrations s) \<and>
      (\<forall>a r. mget (antRegistrations s) a = Some r \<longrightarrow> rg_AntID r = a \<and>
         (\<forall>m \<in> set (rg_Methods r). indexed (antByMethod s) m a) \<and>
         (\<forall>t \<in> set (rg_Tags r). indexed (antByTag s) t a)) \<and>
      index_ok (mkeys (antRegistrations s)) (antByTag s) \<and>
      index_ok (mkeys (antRegistrations s)) (antByMethod s) \<and>
      index_ok (mkeys (antRegistrations s)) (antsByRequest s) \<and>
      mwf (allocationsByAnt s) \<and>
      set (mkeys (allocationsByAnt s)) = set (mkeys (antRegistrations s)) \<and>
      (\<forall>a allocs. mget (allocationsByAnt s) a = Some allocs \<longrightarrow> allocs_ok allocs))"
  by (cases "mwf (antRegistrations s) \<and> mwf (allocationsByAnt s)")
     (auto simp: state_inv_def mget_eq_Some_iff)

lemma state_inv_registered:
  assumes "state_inv s" and "a \<in> set (mkeys (antRegistrations s))"
  obtains r allocs where "mget (antRegistrations s) a = Some r" "rg_AntID r = a"
    "mget (allocationsByAnt s) a = Some allocs" "allocs_ok allocs"
proof -
  from assms obtain r where r: "mget (antRegistrations s) a = Some r"
    using mget_None_iff[of "antRegistrations s" a] by auto
  from assms have "a \<in> set (mkeys (allocationsByAnt s))" by (simp add: state_inv_iff)
  then obtain allocs where "mget (allocationsByAnt s) a = Some allocs"
    using mget_None_iff[of "allocationsByAnt s" a] by auto
  with r assms(1) that show ?thesis by (simp add: state_inv_iff)
qed

lemma state_inv_NewState: "state_inv NewState"
  by (simp add: state_inv_def NewState_def mkeys_def)

subsection \<open>What reserve computes\<close>

lemma tag_ants_loop_Ok:
  "tag_ants_loop s tags acc = Ok tagAnts \<Longrightarrow>
     mget tagAnts a =
       (if \<exists>t \<in> set tags. TrimSpace t \<noteq> [] \<and>
            (\<exists>ants. mget (antByTag s) t = Some ants \<and> a \<in> set (mkeys ants))
        then Some 1 else mget acc a)"
  by (induction s tags acc rule: tag_ants_loop.induct)
     (auto simp: mget_fold_mset split: if_splits option.splits)

lemma tag_ants_loop_Ok_iff:
  "(\<exists>tagAnts. tag_ants_loop s tags acc = Ok tagAnts) \<longleftrightarrow>
     (\<forall>t \<in> set tags. TrimSpace t \<noteq> [] \<longrightarrow> (\<exists>ants. mget (antByTag s) t = Some ants \<and> ants \<noteq> []))"
  by (induction s tags acc rule: tag_ants_loop.induct) (auto split: option.splits)

lemma tag_ants_loop_Err:
  "tag_ants_loop s tags acc = Err e \<Longrightarrow>
     \<exists>t \<in> set tags. e = NoAntsForTag t \<and> TrimSpace t \<noteq> [] \<and>
       (mget (antByTag s) t = None \<or> mget (antByTag s) t = Some [])"
  by (induction s tags acc rule: tag_ants_loop.induct) (auto split: if_splits option.splits)

lemma mget_available_ants:
  "mget (available_ants methodAnts tags tagAnts) k =
     (if k \<in> set (mkeys methodAnts)
      then Some (if tags = [] then 2 else 1 + (case mget tagAnts k of None \<Rightarrow> 0 | Some n \<Rightarrow> n))
      else None)"
  by (simp add: available_ants_def mget_fold_mset)

lemma mwf_available_ants: "mwf (available_ants methodAnts tags tagAnts)"
  by (simp add: available_ants_def mwf_fold_mset)

lemma candidate_loop_eq:
  assumes inv: "state_inv s"
    and live: "\<forall>(a, c) \<in> set avail. a \<in> set (mkeys (antRegistrations s))"
  shows "candidate_loop now timeout s requestID taskType m tags avail =
     Ok (map (\<lambda>(a, c). candidate now s requestID taskType a)
          (filter (\<lambda>(a, c). c = 2 \<and> ant_supports now timeout s m tags a) avail))"
  using live
proof (induction avail)
  case (Cons p rest)
  obtain a c where p: "p = (a, c)" by (cases p)
  with Cons.prems have "a \<in> set (mkeys (antRegistrations s))" by simp
  with inv obtain r allocs where "mget (antRegistrations s) a = Some r" "rg_AntID r = a"
    "mget (allocationsByAnt s) a = Some allocs"
    by (rule state_inv_registered)
  with Cons p show ?case by (simp add: candidate_def ant_supports_def ant_load_def)
qed simp

lemma available_score:
  assumes "state_inv s" and "mget (antByMethod s) m = Some methodAnts"
    and "tag_ants_loop s tags [] = Ok tagAnts"
  shows "mget (available_ants methodAnts tags tagAnts) a = Some 2 \<longleftrightarrow>
     indexed (antByMethod s) m a \<and>
     (tags = [] \<or> (\<exists>t \<in> set tags. TrimSpace t \<noteq> [] \<and> indexed (antByTag s) t a))"
proof -
  have "index_ok (mkeys (antRegistrations s)) (antByMethod s)"
    "index_ok (mkeys (antRegistrations s)) (antByTag s)"
    using assms(1) by (simp_all add: state_inv_iff)
  then have 1: "a \<in> set (mkeys methodAnts) \<longleftrightarrow> indexed (antByMethod s) m a"
    and 2: "\<And>t. (\<exists>ants. mget (antByTag s) t = Some ants \<and> a \<in> set (mkeys ants)) \<longleftrightarrow>
                indexed (antByTag s) t a"
    using assms(2) indexed_keys by (fastforce, fastforce simp: indexed_def split: option.splits
        dest: indexed_keys[where a = a])
  show ?thesis
    by (simp add: mget_available_ants 1 tag_ants_loop_Ok[OF assms(3)] 2)
qed

lemma candidates:
  assumes inv: "state_inv s" and ma: "mget (antByMethod s) m = Some methodAnts"
    and ta: "tag_ants_loop s tags [] = Ok tagAnts"
  obtains rs where
    "candidate_loop now timeout s requestID taskType m tags
       (available_ants methodAnts tags tagAnts) = Ok rs"
    "set rs = candidate now s requestID taskType ` {a. eligible now timeout s m tags a}"
proof -
  let ?av = "available_ants methodAnts tags tagAnts"
  have "index_ok (mkeys (antRegistrations s)) (antByMethod s)"
    using inv by (simp add: state_inv_iff)
  then have "\<forall>(a, c) \<in> set ?av. a \<in> set (mkeys (antRegistrations s))"
    using ma mwf_available_ants[of methodAnts tags tagAnts]
    by (auto simp: mget_eq_Some_iff[symmetric] mget_available_ants indexed_keys
        dest: indexed_live split: if_splits)
  from candidate_loop_eq[OF inv this]
  have loop: "candidate_loop now timeout s requestID taskType m tags ?av =
     Ok (map (\<lambda>(a, c). candidate now s requestID taskType a)
          (filter (\<lambda>(a, c). c = 2 \<and> ant_supports now timeout s m tags a) ?av))" .
  have "(a, 2) \<in> set ?av \<and> ant_supports now timeout s m tags a \<longleftrightarrow>
      eligible now timeout s m tags a" for a
    using available_score[OF inv ma ta, of a]
    by (auto simp: mget_eq_Some_iff[OF mwf_available_ants] eligible_def ant_supports_def
        split: option.splits)
  then have "set (map (\<lambda>(a, c). candidate now s requestID taskType a)
          (filter (\<lambda>(a, c). c = 2 \<and> ant_supports now timeout s m tags a) ?av)) =
      candidate now s requestID taskType ` {a. eligible now timeout s m tags a}"
    by force
  with loop that show ?thesis by blast
qed

lemma candidate_simps [simp]:
  "rv_AntID (candidate now s q t a) = a"
  "rv_JobRequestID (candidate now s q t a) = q"
  "rv_TaskType (candidate now s q t a) = t"
  by (simp_all add: candidate_def split: option.splits)

lemma candidate_load:
  "eligible now timeout s m tags a \<Longrightarrow> rv_CurrentLoad (candidate now s q t a) = ant_load s a"
  by (auto simp: candidate_def eligible_def split: option.splits)

text \<open>The reservation made for the ant that was chosen.\<close>

lemma reserve_Ok_cases:
  assumes inv: "state_inv s"
    and ok: "reserve now timeout s q t m tags dryRun = (s', Ok rv)"
  obtains a rv0 where "eligible now timeout s m tags a"
    "rv_AntID rv0 = a" "rv_JobRequestID rv0 = q" "rv_TaskType rv0 = t"
    "rv_AntTopic rv0 = rv_AntTopic (candidate now s q t a)"
    "\<not> dryRun \<Longrightarrow> \<forall>b. eligible now timeout s m tags b \<longrightarrow> ant_load s a \<le> ant_load s b"
    "dryRun \<Longrightarrow> rv = rv0 \<and> s' = s"
    "\<not> dryRun \<Longrightarrow> \<exists>s1. addAllocationsByAnt now s q t rv0 = Ok (s1, rv) \<and>
        s' = addAntsByRequest s1 q (rv_AntID rv)"
proof -
  from ok obtain methodAnts tagAnts where
    ma: "mget (antByMethod s) m = Some methodAnts" and ta: "tag_ants_loop s tags [] = Ok tagAnts"
    by (auto simp: reserve_def split: option.splits if_splits sum.splits)
  from candidates[OF inv ma ta] obtain rs where
    loop: "candidate_loop now timeout s q t m tags (available_ants methodAnts tags tagAnts) = Ok rs"
    and rs: "set rs = candidate now s q t ` {a. eligible now timeout s m tags a}" by blast
  define c where "c = hd (if dryRun then rs else sort_key rv_CurrentLoad rs)"
  have ne: "rs \<noteq> []" using ok by (auto simp: reserve_def ma ta loop split: if_splits)
  then have "c \<in> set rs" using hd_sort_key_min(1)[of rs rv_CurrentLoad] by (simp add: c_def)
  with rs obtain a where a: "eligible now timeout s m tags a" "c = candidate now s q t a" by auto
  define rv0 where "rv0 = (NewAntReservation now (rv_AntID c) (rv_AntTopic c) (rv_JobRequestID c)
     (rv_TaskType c) (rv_EncryptionKey c) (rv_CurrentLoad c) (rv_TotalExecuted c))
     \<lparr>rv_TotalReservations := length rs\<rparr>"
  have min: "\<forall>b. eligible now timeout s m tags b \<longrightarrow> ant_load s a \<le> ant_load s b" if "\<not> dryRun"
  proof (intro allI impI)
    fix b assume b: "eligible now timeout s m tags b"
    then have "candidate now s q t b \<in> set rs" by (simp add: rs)
    then have "rv_CurrentLoad c \<le> rv_CurrentLoad (candidate now s q t b)"
      using hd_sort_key_min(2)[OF ne, of rv_CurrentLoad] that by (simp add: c_def)
    then show "ant_load s a \<le> ant_load s b" using a b by (simp add: candidate_load)
  qed
  have "(if dryRun then (s, Ok rv0) else case addAllocationsByAnt now s q t rv0 of
          Inl e \<Rightarrow> (s, Err e)
        | Inr (s1, rv1) \<Rightarrow> (addAntsByRequest s1 q (rv_AntID rv1), Ok rv1)) = (s', Ok rv)"
    using ok ne by (simp add: reserve_def ma ta loop Let_def c_def rv0_def split: if_splits)
  then show ?thesis
    using that[of a rv0] a min by (auto simp: rv0_def split: if_splits sum.splits)
qed

lemma addAllocationsByAnt_ok:
  "mget (allocationsByAnt s) (rv_AntID rv) = Some allocs \<Longrightarrow> \<exists>s1 rv1.
     addAllocationsByAnt now s q t rv = Ok (s1, rv1)"
  by (simp add: addAllocationsByAnt_def Let_def)

lemma eligible_live:
  "eligible now timeout s m tags a \<Longrightarrow> a \<in> set (mkeys (antRegistrations s))"
  using mget_None_iff[of "antRegistrations s" a] by (auto simp: eligible_def split: option.splits)

lemma reserve_Err_cases:
  assumes inv: "state_inv s"
    and err: "reserve now timeout s q t m tags dryRun = (s', Err e)"
  shows "s' = s \<and>
     (e = NoAntsForMethod m \<and> (\<forall>a. \<not> indexed (antByMethod s) m a) \<or>
      (\<exists>tag \<in> set tags. e = NoAntsForTag tag \<and> TrimSpace tag \<noteq> [] \<and>
         (\<forall>a. \<not> indexed (antByTag s) tag a)) \<or>
      e = NoAntsReserved m tags \<and> (\<forall>a. \<not> eligible now timeout s m tags a))"
proof (cases "mget (antByMethod s) m")
  case (Some methodAnts)
  note ma = this
  show ?thesis
  proof (cases "tag_ants_loop s tags []")
    case (Inl e')
    with err ma have "s' = s \<and> (e = e' \<or> e = NoAntsForMethod m \<and> methodAnts = [])"
      by (simp add: reserve_def split: if_splits)
    moreover from tag_ants_loop_Err[OF Inl] have "\<exists>tag \<in> set tags. e' = NoAntsForTag tag \<and>
        TrimSpace tag \<noteq> [] \<and> (\<forall>a. \<not> indexed (antByTag s) tag a)"
      by (fastforce simp: indexed_def)
    ultimately show ?thesis using indexed_empty[OF ma] by blast
  next
    case (Inr tagAnts)
    from candidates[OF inv ma Inr] obtain rs where
      loop: "candidate_loop now timeout s q t m tags (available_ants methodAnts tags tagAnts) = Ok rs"
      and rs: "set rs = candidate now s q t ` {a. eligible now timeout s m tags a}" by blast
    show ?thesis
    proof (cases "rs = []")
      case True
      with rs have "\<forall>a. \<not> eligible now timeout s m tags a" by simp
      moreover from err ma Inr loop True
      have "s' = s \<and> (e = NoAntsReserved m tags \<or> e = NoAntsForMethod m \<and> methodAnts = [])"
        by (simp add: reserve_def split: if_splits)
      ultimately show ?thesis using indexed_empty[OF ma] by blast
    next
      case False
      define c where "c = hd (sort_key rv_CurrentLoad rs)"
      have "c \<in> set rs" using hd_sort_key_min(1)[OF False] by (simp add: c_def)
      with rs obtain a where a: "eligible now timeout s m tags a" "rv_AntID c = a" by auto
      from inv eligible_live[OF a(1)] obtain allocs where
        "mget (allocationsByAnt s) (rv_AntID c) = Some allocs"
        using state_inv_registered a(2) by metis
      with err ma Inr loop False have "s' = s \<and> e = NoAntsForMethod m \<and> methodAnts = []"
        by (simp add: reserve_def Let_def c_def addAllocationsByAnt_def split: if_splits)
      with indexed_empty[OF ma] show ?thesis by blast
    qed
  qed
qed (use err in \<open>simp add: reserve_def indexed_def\<close>)

lemma reserve_Ok_iff:
  assumes inv: "state_inv s"
  shows "(\<exists>s' rv. reserve now timeout s q t m tags dryRun = (s', Ok rv)) \<longleftrightarrow>
     (\<exists>a. eligible now timeout s m tags a) \<and>
     (\<forall>tag \<in> set tags. TrimSpace tag \<noteq> [] \<longrightarrow> (\<exists>a. indexed (antByTag s) tag a))"
proof -
  have iok: "index_ok (mkeys (antRegistrations s)) (antByTag s)"
    using inv by (simp add: state_inv_iff)
  have ix: "\<exists>a. indexed (antByTag s) tag a"
    if "mget (antByTag s) tag = Some ants" "ants \<noteq> []" for tag ants
    using indexed_keys[OF iok that(1), of "fst (hd ants)"] that(2) by (auto simp: mkeys_def)
  show ?thesis
  proof (cases "\<exists>s' rv. reserve now timeout s q t m tags dryRun = (s', Ok rv)")
    case True
    then obtain s' rv where ok: "reserve now timeout s q t m tags dryRun = (s', Ok rv)" by blast
    then have "\<exists>tagAnts. tag_ants_loop s tags [] = Ok tagAnts"
      by (auto simp: reserve_def split: option.splits if_splits sum.splits)
    moreover have "\<exists>a. eligible now timeout s m tags a"
      by (rule reserve_Ok_cases[OF inv ok]) (rule exI)
    moreover have "\<forall>tag \<in> set tags. TrimSpace tag \<noteq> [] \<longrightarrow> (\<exists>a. indexed (antByTag s) tag a)"
      using ix calculation(1) unfolding tag_ants_loop_Ok_iff by blast
    ultimately show ?thesis using True by blast
  next
    case False
    obtain s' x where x: "reserve now timeout s q t m tags dryRun = (s', x)"
      by (rule prod.exhaust)
    with False obtain e where err: "reserve now timeout s q t m tags dryRun = (s', Err e)"
      by (cases x) auto
    have "\<And>a. eligible now timeout s m tags a \<Longrightarrow> indexed (antByMethod s) m a"
      by (simp add: eligible_def split: option.splits)
    with reserve_Err_cases[OF inv err] False show ?thesis by blast
  qed
qed

subsection \<open>Effect of the operations on what is held\<close>

lemma allocs_ok_mset [inv_intros]:
  "allocs_ok allocs \<Longrightarrow> al_JobRequestID al = r \<Longrightarrow> mwf (al_TaskTypes al) \<Longrightarrow>
     allocs_ok (mset r al allocs)"
  by (simp add: allocs_ok_iff)

lemma allocs_ok_mdel [inv_intros]: "allocs_ok allocs \<Longrightarrow> allocs_ok (mdel r allocs)"
  by (simp add: allocs_ok_iff)

lemma allocs_ok_Nil [simp, inv_intros]: "allocs_ok []"
  by (simp add: allocs_ok_def)

text \<open>Only the allocations of one registered ant change.\<close>

lemma state_inv_update_allocs:
  assumes "state_inv s" and "a \<in> set (mkeys (antRegistrations s))" and "allocs_ok allocs"
  shows "state_inv (s\<lparr>allocationsByAnt := mset a allocs (allocationsByAnt s)\<rparr>)"
  using assms by (auto simp: state_inv_iff mkeys_mset)

lemma state_inv_update_requests:
  assumes "state_inv s" and "index_ok (mkeys (antRegistrations s)) idx"
  shows "state_inv (s\<lparr>antsByRequest := idx\<rparr>)"
  using assms by (simp add: state_inv_iff)

lemma state_inv_containers [simp]:
  "state_inv (s\<lparr>containersEvents := c, containersEventKeysByRequestID := k\<rparr>) = state_inv s"
  by (simp add: state_inv_iff)

lemma addAllocationsByAnt_inv:
  assumes "state_inv s" and "addAllocationsByAnt now s q t rv = Ok (s1, rv1)"
  shows "state_inv s1"
    and "antRegistrations s1 = antRegistrations s"
    and "antsByRequest s1 = antsByRequest s"
    and "rv_AntID rv1 = rv_AntID rv"
proof -
  from assms(2) obtain allocs where allocs: "mget (allocationsByAnt s) (rv_AntID rv) = Some allocs"
    by (auto simp: addAllocationsByAnt_def split: option.splits)
  then have "rv_AntID rv \<in> set (mkeys (allocationsByAnt s))"
    using mget_None_iff[of "allocationsByAnt s" "rv_AntID rv"] by simp
  with assms(1) have live: "rv_AntID rv \<in> set (mkeys (antRegistrations s))"
    by (simp add: state_inv_iff)
  have ok: "allocs_ok allocs" using assms(1) allocs by (simp add: state_inv_iff)
  show "state_inv s1"
    using assms(2) allocs ok
    by (auto simp: addAllocationsByAnt_def Let_def allocs_ok_iff
        intro!: state_inv_update_allocs[OF assms(1) live] split: option.splits)
  show "antRegistrations s1 = antRegistrations s" "antsByRequest s1 = antsByRequest s"
    "rv_AntID rv1 = rv_AntID rv"
    using assms(2) allocs by (auto simp: addAllocationsByAnt_def Let_def)
qed

lemma addAntsByRequest_eq:
  "addAntsByRequest s q a = s\<lparr>antsByRequest := index_add a q (antsByRequest s)\<rparr>"
  by (simp add: addAntsByRequest_def index_add_def Let_def)

lemma reserve_inv [inv_intros]:
  assumes inv: "state_inv s"
    and r: "reserve now timeout s q t m tags dryRun = (s', x)"
  shows "state_inv s'"
proof (cases x)
  case (Inl e)
  with reserve_Err_cases[OF inv] r inv show ?thesis by blast
next
  case (Inr rv)
  with r have ok: "reserve now timeout s q t m tags dryRun = (s', Ok rv)" by simp
  show ?thesis
  proof (rule reserve_Ok_cases[OF inv ok])
    fix a rv0
    assume el: "eligible now timeout s m tags a" and a: "rv_AntID rv0 = a"
      and d: "dryRun \<Longrightarrow> rv = rv0 \<and> s' = s"
      and nd: "\<not> dryRun \<Longrightarrow> \<exists>s1. addAllocationsByAnt now s q t rv0 = Ok (s1, rv) \<and>
        s' = addAntsByRequest s1 q (rv_AntID rv)"
    show ?thesis
    proof (cases dryRun)
      case True
      with d inv show ?thesis by simp
    next
      case False
      with nd obtain s1 where s1: "addAllocationsByAnt now s q t rv0 = Ok (s1, rv)"
        and s': "s' = addAntsByRequest s1 q (rv_AntID rv)" by blast
      note p = addAllocationsByAnt_inv[OF inv s1]
      have "index_ok (mkeys (antRegistrations s1)) (index_add a q (antsByRequest s1))"
        using p(1) eligible_live[OF el] by (intro index_ok_add) (simp_all add: state_inv_iff p(2))
      with p(1,4) a show ?thesis
        unfolding s' addAntsByRequest_eq by (simp add: state_inv_update_requests)
    qed
  qed
qed

lemma allocation_of_addAllocations:
  assumes "addAllocationsByAnt now s q t rv = Ok (s1, rv1)"
  shows "allocation_of s1 a r =
     (if a = rv_AntID rv \<and> r = q then
        (let al = (case allocation_of s a r of None \<Rightarrow> NewAntAllocation now a (rv_AntTopic rv) q t
                   | Some al \<Rightarrow> al)
         in Some (al\<lparr>al_TaskTypes := mset t RESERVED (al_TaskTypes al)\<rparr>))
      else allocation_of s a r)"
  using assms
  by (auto simp: addAllocationsByAnt_def allocation_of_def Let_def split: option.splits if_splits)

lemma holds_addAllocations:
  assumes "addAllocationsByAnt now s q t rv = Ok (s1, rv1)"
  shows "holds s1 a r t' \<longleftrightarrow> holds s a r t' \<or> a = rv_AntID rv \<and> r = q \<and> t' = t"
  by (auto simp: holds_def allocation_of_addAllocations[OF assms] Let_def
      split: option.splits if_splits)

lemma holds_requests [simp]: "holds (s\<lparr>antsByRequest := x\<rparr>) = holds s"
  by (intro ext) (simp add: holds_def allocation_of_def)

lemma holds_reserve:
  assumes inv: "state_inv s" and ok: "reserve now timeout s q t m tags False = (s', Ok rv)"
  shows "holds s' a r t' \<longleftrightarrow> holds s a r t' \<or> a = rv_AntID rv \<and> r = q \<and> t' = t"
proof (rule reserve_Ok_cases[OF inv ok])
  fix b rv0 assume "rv_AntID rv0 = b"
    and "\<not> False \<Longrightarrow> \<exists>s1. addAllocationsByAnt now s q t rv0 = Ok (s1, rv) \<and>
        s' = addAntsByRequest s1 q (rv_AntID rv)"
  then obtain s1 where s1: "addAllocationsByAnt now s q t rv0 = Ok (s1, rv)"
    and s': "s' = addAntsByRequest s1 q (rv_AntID rv)" by blast
  show ?thesis
    using holds_addAllocations[OF s1] addAllocationsByAnt_inv(4)[OF inv s1]
    by (simp add: s' addAntsByRequest_eq)
qed

lemma reserve_dry_state: "fst (reserve now timeout s q t m tags True) = s"
  by (auto simp: reserve_def Let_def split: option.splits sum.splits)

lemma mget_release_request:
  "mget (release_request_of_ant q a byAnt) b =
     (if b = a then map_option (mdel q) (mget byAnt b) else mget byAnt b)"
proof (cases "mget byAnt a")
  case (Some allocs)
  show ?thesis
  proof (cases "mget allocs q")
    case None
    then have "mdel q allocs = allocs" by (simp add: mget_None_iff length_mdel_notin)
    with Some None show ?thesis by (simp add: release_request_of_ant_def)
  qed (simp add: release_request_of_ant_def Some)
qed (simp add: release_request_of_ant_def)


lemma mget_release_requests:
  "mget (fold (release_request_of_ant q) as byAnt) b =
     (if b \<in> set as then map_option (mdel q) (mget byAnt b) else mget byAnt b)"
  by (induction as arbitrary: byAnt)
     (auto simp: mget_release_request option.map_comp comp_def)

lemma mwf_release_requests: "mwf byAnt \<Longrightarrow> mwf (fold (release_request_of_ant q) as byAnt)"
proof (induction as arbitrary: byAnt)
  case (Cons a as)
  have "mwf (release_request_of_ant q a byAnt)"
    using Cons.prems by (simp add: release_request_of_ant_def split: option.splits)
  then show ?case by (simp add: Cons.IH)
qed simp

lemma mkeys_eq_iff: "set (mkeys m) = set (mkeys m') \<longleftrightarrow> (\<forall>k. mget m k = None \<longleftrightarrow> mget m' k = None)"
  by (auto simp: mget_None_iff)

lemma releaseJob_inv [inv_intros]:
  assumes inv: "state_inv s"
  shows "state_inv (releaseJob s q)"
proof (cases "mget (antsByRequest s) q")
  case (Some ants)
  let ?by = "fold (release_request_of_ant q) (mkeys ants) (allocationsByAnt s)"
  have 1: "mwf ?by" using inv by (simp add: state_inv_iff mwf_release_requests)
  have "set (mkeys ?by) = set (mkeys (allocationsByAnt s))"
    by (simp add: mkeys_eq_iff mget_release_requests)
  with inv have 2: "set (mkeys ?by) = set (mkeys (antRegistrations s))" by (simp add: state_inv_iff)
  have 3: "allocs_ok allocs" if "mget ?by a = Some allocs" for a allocs
    using that inv
    by (auto simp: mget_release_requests state_inv_iff intro: allocs_ok_mdel split: if_splits)
  from inv 1 2 3 show ?thesis
    by (simp add: releaseJob_def Some state_inv_iff index_ok_mdel)
qed (simp add: releaseJob_def inv)

end
