(* ===== verification/Resource_Ledger.thy ===== *)
theory Resource_Ledger
  imports Resource_State
begin

text \<open>
  What the operations of the resource manager's state do to the set of held ants: which task
  of which request holds which ant (\<open>holds\<close>), the invariant \<open>state_inv\<close>, and the ledger
  property that lets \<open>releaseJob\<close> find every ant of a request.  The step relation \<open>rm_step\<close>
  interleaves the operations in any order; its reachable states satisfy the invariant.
\<close>

text \<open>One operation of the resource manager.  \<open>Reorder\<close> changes no entry of any map, only the
  order in which the next iteration over a map will visit it.\<close>

definition same_maps :: "State \<Rightarrow> State \<Rightarrow> bool" where
  "same_maps s s' =
     (mwf (antRegistrations s') \<and> mget (antRegistrations s') = mget (antRegistrations s) \<and>
      mwf (antByTag s') \<and> mget (antByTag s') = mget (antByTag s) \<and>
      mwf (antByMethod s') \<and> mget (antByMethod s') = mget (antByMethod s) \<and>
      mwf (antsByRequest s') \<and> mget (antsByRequest s') = mget (antsByRequest s) \<and>
      mwf (allocationsByAnt s') \<and> mget (allocationsByAnt s') = mget (allocationsByAnt s))"

inductive rm_step :: "int \<Rightarrow> State \<Rightarrow> State \<Rightarrow> bool" for timeout where
  Step_reserve: "reserve now timeout s q t m tags dryRun = (s', x) \<Longrightarrow> rm_step timeout s s'"
| Step_release: "rm_step timeout s (release s rv)"
| Step_releaseJob: "rm_step timeout s (releaseJob s q)"
| Step_register: "registration_ok reg \<Longrightarrow> addRegistration s reg = (s', fetch) \<Longrightarrow> rm_step timeout s s'"
| Step_unregister: "removeRegistration s a = (s', ts, ms, n) \<Longrightarrow> rm_step timeout s s'"
| Step_container: "rm_step timeout s (updateContainer s cnt)"
| Step_reorder: "same_maps s s' \<Longrightarrow> rm_step timeout s s'"

inductive rm_reachable :: "int \<Rightarrow> State \<Rightarrow> bool" for timeout where
  Reach_init: "rm_reachable timeout NewState"
| Reach_step: "rm_reachable timeout s \<Longrightarrow> rm_step timeout s s' \<Longrightarrow> rm_reachable timeout s'"

subsection \<open>Release\<close>

lemma holds_release:
  "holds (release s rv) a r t \<longleftrightarrow>
     holds s a r t \<and> \<not> (a = rv_AntID rv \<and> r = rv_JobRequestID rv \<and> t = rv_TaskType rv)"
proof (cases "allocation_of s (rv_AntID rv) (rv_JobRequestID rv)")
  case None
  then have "release s rv = s" by (auto simp: release_def allocation_of_def split: option.splits)
  with None show ?thesis by (auto simp: holds_def)
next
  case (Some al)
  then obtain allocs where allocs: "mget (allocationsByAnt s) (rv_AntID rv) = Some allocs"
    "mget allocs (rv_JobRequestID rv) = Some al"
    by (auto simp: allocation_of_def split: option.splits)
  have gone: "mget (al_TaskTypes al) t = None \<or> t = rv_TaskType rv"
    if "mdel (rv_TaskType rv) (al_TaskTypes al) = []"
    using mget_mdel[of "rv_TaskType rv" "al_TaskTypes al" t] that by (auto split: if_splits)
  show ?thesis
    using allocs gone
    by (auto simp: release_def holds_def allocation_of_def Let_def split: option.splits if_splits)
qed

lemma release_inv [inv_intros]:
  assumes inv: "state_inv s"
  shows "state_inv (release s rv)"
proof (cases "allocation_of s (rv_AntID rv) (rv_JobRequestID rv)")
  case None
  then have "release s rv = s" by (auto simp: release_def allocation_of_def split: option.splits)
  with inv show ?thesis by simp
next
  case (Some al)
  then obtain allocs where allocs: "mget (allocationsByAnt s) (rv_AntID rv) = Some allocs"
    "mget allocs (rv_JobRequestID rv) = Some al"
    by (auto simp: allocation_of_def split: option.splits)
  have live: "rv_AntID rv \<in> set (mkeys (antRegistrations s))"
    using inv allocs(1) mget_None_iff[of "allocationsByAnt s" "rv_AntID rv"]
    by (simp add: state_inv_iff)
  have ok: "allocs_ok allocs" using inv allocs by (simp add: state_inv_iff)
  then have al: "al_JobRequestID al = rv_JobRequestID rv" "mwf (al_TaskTypes al)"
    using allocs(2) by (simp_all add: allocs_ok_iff)
  have 1: "state_inv (s\<lparr>allocationsByAnt := mset (rv_AntID rv)
     (mdel (rv_JobRequestID rv) allocs) (allocationsByAnt s)\<rparr>)"
    by (rule state_inv_update_allocs[OF inv live allocs_ok_mdel[OF ok]])
  have "index_ok (mkeys (antRegistrations s)) (mdel (rv_JobRequestID rv) (antsByRequest s))"
    using inv by (simp add: state_inv_iff index_ok_mdel)
  with state_inv_update_requests[OF 1] have
    "state_inv (s\<lparr>allocationsByAnt := mset (rv_AntID rv)
      (mdel (rv_JobRequestID rv) allocs) (allocationsByAnt s),
      antsByRequest := mdel (rv_JobRequestID rv) (antsByRequest s)\<rparr>)" by simp
  moreover have "state_inv (s\<lparr>allocationsByAnt := mset (rv_AntID rv) (mset (rv_JobRequestID rv)
     (al\<lparr>al_TaskTypes := mdel (rv_TaskType rv) (al_TaskTypes al)\<rparr>) allocs) (allocationsByAnt s)\<rparr>)"
    using al by (intro state_inv_update_allocs[OF inv live] allocs_ok_mset[OF ok]) simp_all
  ultimately show ?thesis using allocs by (simp add: release_def Let_def)
qed

subsection \<open>Releasing a whole request\<close>

lemma allocation_of_releaseJob:
  assumes "state_inv s"
  shows "allocation_of (releaseJob s q) a r =
     (if r = q \<and> indexed (antsByRequest s) q a then None else allocation_of s a r)"
proof (cases "mget (antsByRequest s) q")
  case (Some ants)
  have "index_ok (mkeys (antRegistrations s)) (antsByRequest s)"
    using assms by (simp add: state_inv_iff)
  from indexed_keys[OF this Some, of a] show ?thesis
    by (auto simp: releaseJob_def Some allocation_of_def mget_release_requests
        split: option.splits)
qed (simp add: releaseJob_def indexed_def)

lemma holds_releaseJob:
  "state_inv s \<Longrightarrow> holds (releaseJob s q) a r t \<longleftrightarrow>
     holds s a r t \<and> \<not> (r = q \<and> indexed (antsByRequest s) q a)"
  by (simp add: holds_def allocation_of_releaseJob)

lemma indexed_releaseJob:
  "indexed (antsByRequest (releaseJob s q)) r a \<longleftrightarrow> indexed (antsByRequest s) r a \<and> r \<noteq> q"
  by (auto simp: releaseJob_def indexed_def split: option.splits)

subsection \<open>Registration\<close>

lemma merge_allocation_ok [inv_intros]:
  assumes "allocs_ok allocs" and "mwf (al_TaskTypes al)"
  shows "allocs_ok (merge_allocation al allocs)"
  using assms
  by (auto simp: merge_allocation_def allocs_ok_iff intro: mwf_fold_pairs split: option.splits)

lemma merge_allocations_ok [inv_intros]:
  "allocs_ok allocs \<Longrightarrow> \<forall>al \<in> set als. mwf (al_TaskTypes al) \<Longrightarrow>
     allocs_ok (fold merge_allocation als allocs)"
  by (induction als arbitrary: allocs) (simp_all add: merge_allocation_ok)

lemma addRegistration_fields:
  assumes "addRegistration s reg = (s', fetch)"
  shows "antRegistrations s' = mset (rg_AntID reg) reg (antRegistrations s)"
    "antByMethod s' = fold (index_add (rg_AntID reg)) (rg_Methods reg) (antByMethod s)"
    "antByTag s' = fold (index_add (rg_AntID reg)) (rg_Tags reg) (antByTag s)"
    "antsByRequest s' = antsByRequest s"
    "allocationsByAnt s' = mset (rg_AntID reg)
       (fold merge_allocation (mvals (rg_Allocations reg))
         (case mget (allocationsByAnt s) (rg_AntID reg) of None \<Rightarrow> [] | Some m \<Rightarrow> m))
       (allocationsByAnt s)"
    "fetch = (mget (allocationsByAnt s) (rg_AntID reg) = None)"
  using assms
  by (auto simp: addRegistration_def updateAntsByMethods_def updateAntsByTags_def Let_def)

lemma addRegistration_inv [inv_intros]:
  assumes inv: "state_inv s" and ok: "registration_ok reg"
    and add: "addRegistration s reg = (s', fetch)"
  shows "state_inv s'"
proof -
  note f = addRegistration_fields[OF add]
  let ?a = "rg_AntID reg" and ?live = "mkeys (antRegistrations s')"
  have live: "set ?live = insert ?a (set (mkeys (antRegistrations s)))"
    by (simp add: f mkeys_mset)
  have "index_ok ?live (antByTag s)" "index_ok ?live (antByMethod s)" "index_ok ?live (antsByRequest s)"
    using inv live by (auto simp: state_inv_iff intro: index_ok_mono)
  then have ix: "index_ok ?live (antByTag s')" "index_ok ?live (antByMethod s')"
    "index_ok ?live (antsByRequest s')"
    using live by (simp_all add: f index_ok_add_fold)
  have "allocs_ok (fold merge_allocation (mvals (rg_Allocations reg))
      (case mget (allocationsByAnt s) ?a of None \<Rightarrow> [] | Some m \<Rightarrow> m))"
    using inv ok by (intro merge_allocations_ok)
      (auto simp: state_inv_iff registration_ok_def split: option.splits)
  then have al: "\<forall>a allocs. mget (allocationsByAnt s') a = Some allocs \<longrightarrow> allocs_ok allocs"
    using inv by (simp add: f state_inv_iff)
  have keys: "set (mkeys (allocationsByAnt s')) = set ?live"
    using inv by (simp add: f mkeys_mset state_inv_iff)
  have "mwf (antRegistrations s')" "mwf (allocationsByAnt s')"
    using inv by (simp_all add: f state_inv_iff)
  moreover have "\<forall>a r. mget (antRegistrations s') a = Some r \<longrightarrow> rg_AntID r = a \<and>
      (\<forall>m \<in> set (rg_Methods r). indexed (antByMethod s') m a) \<and>
      (\<forall>t \<in> set (rg_Tags r). indexed (antByTag s') t a)"
    using inv by (simp add: f state_inv_iff)
  ultimately show ?thesis using ix al keys unfolding state_inv_iff by blast
qed

lemma removeRegistration_fields:
  assumes "removeRegistration s a = (s', ts, ms, n)"
  shows "antRegistrations s' = mdel a (antRegistrations s)"
    "allocationsByAnt s' = mdel a (allocationsByAnt s)"
    "antByTag s' = drop_ant a (antByTag s)"
    "antByMethod s' = drop_ant a (antByMethod s)"
    "antsByRequest s' = drop_ant a (antsByRequest s)"
  using assms by (auto simp: removeRegistration_def)

lemma removeRegistration_inv [inv_intros]:
  assumes inv: "state_inv s" and rm: "removeRegistration s a = (s', ts, ms, n)"
  shows "state_inv s'"
proof -
  note f = removeRegistration_fields[OF rm]
  have live: "set (mkeys (antRegistrations s')) = set (mkeys (antRegistrations s)) - {a}"
    by (simp add: f mkeys_mdel)
  have "index_ok (mkeys (antRegistrations s')) (antByTag s')"
    "index_ok (mkeys (antRegistrations s')) (antByMethod s')"
    "index_ok (mkeys (antRegistrations s')) (antsByRequest s')"
    using inv by (simp_all add: f state_inv_iff index_ok_drop_ant[OF _ live[unfolded f]])
  with inv show ?thesis by (simp add: state_inv_iff f mkeys_mdel)
qed

lemma holds_removeRegistration:
  assumes "removeRegistration s a = (s', ts, ms, n)"
  shows "holds s' b r t \<longleftrightarrow> holds s b r t \<and> b \<noteq> a"
  by (auto simp: holds_def allocation_of_def removeRegistration_fields[OF assms]
      split: option.splits)

lemma merge_allocation_holds:
  "(case mget (merge_allocation al allocs) r of None \<Rightarrow> False
    | Some al' \<Rightarrow> mget (al_TaskTypes al') t \<noteq> None) \<longleftrightarrow>
   (case mget allocs r of None \<Rightarrow> False | Some al' \<Rightarrow> mget (al_TaskTypes al') t \<noteq> None) \<or>
   al_JobRequestID al = r \<and> mget (al_TaskTypes al) t \<noteq> None"
proof -
  have keys: "map_of (rev ps) t = None \<longleftrightarrow> mget ps t = None" for ps :: "(string, RequestState) gomap"
    by (simp add: mget_def map_of_eq_None_iff)
  show ?thesis
  proof (cases "mget allocs (al_JobRequestID al)")
    case (Some old)
    then show ?thesis
      using keys[of "al_TaskTypes al"]
      by (auto simp: merge_allocation_def mget_fold_pairs split: option.splits)
  qed (auto simp: merge_allocation_def)
qed

lemma merge_allocations_holds:
  "(case mget (fold merge_allocation als allocs) r of None \<Rightarrow> False
    | Some al' \<Rightarrow> mget (al_TaskTypes al') t \<noteq> None) \<longleftrightarrow>
   (case mget allocs r of None \<Rightarrow> False | Some al' \<Rightarrow> mget (al_TaskTypes al') t \<noteq> None) \<or>
   (\<exists>al \<in> set als. al_JobRequestID al = r \<and> mget (al_TaskTypes al) t \<noteq> None)"
  by (induction als arbitrary: allocs) (auto simp: merge_allocation_holds)

lemma holds_addRegistration:
  assumes "addRegistration s reg = (s', fetch)"
  shows "holds s' a r t \<longleftrightarrow> holds s a r t \<or>
     a = rg_AntID reg \<and> (\<exists>al \<in> set (mvals (rg_Allocations reg)).
       al_JobRequestID al = r \<and> mget (al_TaskTypes al) t \<noteq> None)"
proof (cases "a = rg_AntID reg")
  case True
  then show ?thesis
    by (cases "mget (allocationsByAnt s) a")
       (simp_all add: holds_def allocation_of_def addRegistration_fields[OF assms]
        merge_allocations_holds)
qed (simp add: holds_def allocation_of_def addRegistration_fields[OF assms])

subsection \<open>The ledger\<close>

lemma ledger_iff:
  "mwf (allocationsByAnt s) \<Longrightarrow>
   ledger s \<longleftrightarrow> (\<forall>a r. allocation_of s a r \<noteq> None \<longrightarrow> indexed (antsByRequest s) r a)"
proof -
  assume w: "mwf (allocationsByAnt s)"
  have "ledger s \<longleftrightarrow> (\<forall>a allocs. mget (allocationsByAnt s) a = Some allocs \<longrightarrow>
      (\<forall>r. mget allocs r \<noteq> None \<longrightarrow> indexed (antsByRequest s) r a))"
    by (auto simp: ledger_def mget_eq_Some_iff[OF w] mget_None_iff)
  then show ?thesis by (simp add: allocation_of_def split: option.splits) metis
qed

lemma ledgerD:
  "state_inv s \<Longrightarrow> ledger s \<Longrightarrow> holds s a r t \<Longrightarrow> indexed (antsByRequest s) r a"
  by (auto simp: state_inv_iff ledger_iff holds_def split: option.splits)

lemma ledger_NewState: "ledger NewState"
  by (simp add: ledger_def NewState_def)

lemma reserve_ledger:
  assumes inv: "state_inv s" and led: "ledger s"
    and r: "reserve now timeout s q t m tags dryRun = (s', x)"
  shows "ledger s'"
proof (cases "s' = s")
  case False
  then have nd: "\<not> dryRun" using r reserve_dry_state[of now timeout s q t m tags] by force
  from False r reserve_Err_cases[OF inv] obtain rv where "x = Ok rv" by (cases x) blast+
  with r nd have ok: "reserve now timeout s q t m tags False = (s', Ok rv)" by simp
  show ?thesis
  proof (rule reserve_Ok_cases[OF inv ok])
    fix b rv0 assume "rv_AntID rv0 = b"
      and "\<not> False \<Longrightarrow> \<exists>s1. addAllocationsByAnt now s q t rv0 = Ok (s1, rv) \<and>
        s' = addAntsByRequest s1 q (rv_AntID rv)"
    then obtain s1 where s1: "addAllocationsByAnt now s q t rv0 = Ok (s1, rv)"
      and s': "s' = addAntsByRequest s1 q (rv_AntID rv)" by blast
    note p = addAllocationsByAnt_inv[OF inv s1]
    have "mwf (allocationsByAnt s1)" "mwf (allocationsByAnt s)"
      using p(1) inv by (simp_all add: state_inv_iff)
    then show ?thesis
      using led allocation_of_addAllocations[OF s1]
      by (simp add: s' addAntsByRequest_eq ledger_iff p(3,4))
         (auto simp: allocation_of_def Let_def split: if_splits)
  qed
qed (use led in simp)

lemma releaseJob_ledger:
  assumes "state_inv s" and "ledger s"
  shows "ledger (releaseJob s q)"
proof -
  have "mwf (allocationsByAnt s)" "mwf (allocationsByAnt (releaseJob s q))"
    using assms releaseJob_inv[of s q] by (simp_all add: state_inv_iff)
  with assms show ?thesis
    by (auto simp: ledger_iff allocation_of_releaseJob indexed_releaseJob split: if_splits)
qed

lemma removeRegistration_ledger:
  assumes "state_inv s" and "ledger s" and "removeRegistration s a = (s', ts, ms, n)"
  shows "ledger s'"
proof -
  note f = removeRegistration_fields[OF assms(3)]
  have "mwf (allocationsByAnt s)" "mwf (allocationsByAnt s')"
    using assms(1) by (simp_all add: state_inv_iff f)
  with assms(2) show ?thesis
    by (simp add: ledger_iff f allocation_of_def split: option.splits)
qed

text \<open>\<open>release\<close> drops the whole entry of the request from \<open>antsByRequest\<close> when the last task
  of the request on one ant is released; the ledger survives when no other ant serves it.\<close>

lemma release_ledger:
  assumes inv: "state_inv s" and led: "ledger s"
    and only: "\<forall>a. a \<noteq> rv_AntID rv \<longrightarrow> allocation_of s a (rv_JobRequestID rv) = None"
  shows "ledger (release s rv)"
proof -
  have w: "mwf (allocationsByAnt s)" "mwf (allocationsByAnt (release s rv))"
    using inv release_inv[OF inv] by (simp_all add: state_inv_iff)
  from led only show ?thesis
    unfolding ledger_iff[OF w(1)] ledger_iff[OF w(2)]
    by (auto simp: release_def allocation_of_def indexed_def Let_def
        split: option.splits if_splits)
qed

subsection \<open>Reachable states\<close>

lemma updateContainer_inv [inv_intros]: "state_inv s \<Longrightarrow> state_inv (updateContainer s cnt)"
  by (simp add: updateContainer_def state_inv_iff Let_def)

lemma same_maps_keys:
  "mget m' = mget m \<Longrightarrow> set (mkeys m') = set (mkeys m)"
  by (simp add: mkeys_eq_iff)

lemma index_ok_same:
  "index_ok live idx \<Longrightarrow> mwf idx' \<Longrightarrow> mget idx' = mget idx \<Longrightarrow> set live' = set live \<Longrightarrow>
     index_ok live' idx'"
  by (simp add: index_ok_iff ants_ok_iff)

lemma same_maps_inv [inv_intros]:
  assumes "state_inv s" and "same_maps s s'"
  shows "state_inv s'"
proof -
  have k: "set (mkeys (antRegistrations s')) = set (mkeys (antRegistrations s))"
    "set (mkeys (allocationsByAnt s')) = set (mkeys (allocationsByAnt s))"
    using assms(2) by (auto simp: same_maps_def intro!: same_maps_keys)
  have ix: "index_ok (mkeys (antRegistrations s')) (antByMethod s')"
    "index_ok (mkeys (antRegistrations s')) (antByTag s')"
    "index_ok (mkeys (antRegistrations s')) (antsByRequest s')"
    using assms index_ok_same[OF _ _ _ k(1), of "antByMethod s" "antByMethod s'"]
      index_ok_same[OF _ _ _ k(1), of "antByTag s" "antByTag s'"]
      index_ok_same[OF _ _ _ k(1), of "antsByRequest s" "antsByRequest s'"]
    by (simp_all add: state_inv_iff same_maps_def)
  have id: "indexed (antByMethod s') = indexed (antByMethod s)"
    "indexed (antByTag s') = indexed (antByTag s)"
    using assms(2) by (auto simp: same_maps_def indexed_def fun_eq_iff)
  show ?thesis
    using assms ix by (simp add: state_inv_iff same_maps_def k id)
qed

lemma rm_step_inv:
  "rm_step timeout s s' \<Longrightarrow> state_inv s \<Longrightarrow> state_inv s'"
  by (induction rule: rm_step.induct)
     (blast intro: reserve_inv release_inv releaseJob_inv addRegistration_inv
        removeRegistration_inv updateContainer_inv same_maps_inv)+

lemma rm_reachable_inv: "rm_reachable timeout s \<Longrightarrow> state_inv s"
  by (induction rule: rm_reachable.induct) (auto simp: state_inv_NewState intro: rm_step_inv)

end
