(* ===== verification/Resource_Manager.thy ===== *)
theory Resource_Manager
  imports Resource_Ledger Job_Definition
begin

text \<open>
  The resource manager (\<open>queen/resource/resource_manager.go\<close>, \<open>resource_manager_reaper.go\<close> and
  \<open>resource_manager_subscription.go\<close>): reservation of the ants of a whole job, the check that
  live ants exist, release, the reaper and the handlers of life-cycle events.

  The locale \<open>ant_pool\<close> is what reserving a job needs of the pool of ants: the effect of
  reserving one task and of releasing a request on the set of held ants.  It is interpreted
  on the operations of \<open>Resource_State\<close>.  Subscription to queues, the ticker of the reaper
  and decoding of events are outside the model; a handler takes the decoded event.
\<close>

subsection \<open>Reserving\<close>

definition doReserve ::
  "int \<Rightarrow> int \<Rightarrow> State \<Rightarrow> string \<Rightarrow> string \<Rightarrow> TaskMethod \<Rightarrow> string list \<Rightarrow> bool \<Rightarrow>
   State \<times> (resource_error, AntReservation) result" where
  "doReserve now timeout s requestID taskType m tags dryRun =
     (if m = NoMethod then (s, Err MethodNotSpecified)
      else reserve now timeout s requestID taskType m tags dryRun)"

definition Reserve ::
  "int \<Rightarrow> int \<Rightarrow> State \<Rightarrow> string \<Rightarrow> string \<Rightarrow> TaskMethod \<Rightarrow> string list \<Rightarrow>
   State \<times> (resource_error, AntReservation) result" where
  "Reserve now timeout s requestID taskType m tags =
     doReserve now timeout s requestID taskType m tags False"

text \<open>The loop of \<open>doReserveJobResources\<close> over an arbitrary pool: \<open>res\<close> reserves one task,
  \<open>rel\<close> releases the request.  The map built so far is returned with the error.\<close>

fun reserve_tasks ::
  "('s \<Rightarrow> string \<Rightarrow> TaskMethod \<Rightarrow> string list \<Rightarrow> 's \<times> (resource_error, AntReservation) result) \<Rightarrow>
   ('s \<Rightarrow> 's) \<Rightarrow> bool \<Rightarrow> TaskDefinition list \<Rightarrow> (string, AntReservation) gomap \<Rightarrow> 's \<Rightarrow>
   's \<times> (string, AntReservation) gomap \<times> resource_error option" where
  "reserve_tasks res rel dryRun [] reservations s = (s, reservations, None)"
| "reserve_tasks res rel dryRun (task # tasks) reservations s =
     (case res s (td_TaskType task) (td_Method task) (td_Tags task) of
        (s1, Inr alloc) \<Rightarrow>
          reserve_tasks res rel dryRun tasks (mset (td_TaskType task) alloc reservations) s1
      | (s1, Inl e) \<Rightarrow> ((if dryRun then s1 else rel s1), reservations, Some e))"

definition ReleaseJobResources :: "State \<Rightarrow> string \<Rightarrow> State" where
  "ReleaseJobResources s requestID = releaseJob s requestID"

definition doReserveJobResources ::
  "int \<Rightarrow> int \<Rightarrow> State \<Rightarrow> string \<Rightarrow> JobDefinition \<Rightarrow> bool \<Rightarrow>
   State \<times> (string, AntReservation) gomap \<times> resource_error option" where
  "doReserveJobResources now timeout s requestID jd dryRun =
     reserve_tasks (\<lambda>st taskType m tags. doReserve now timeout st requestID taskType m tags dryRun)
       (\<lambda>st. ReleaseJobResources st requestID) dryRun (jd_Tasks jd) [] s"

definition CheckJobResources ::
  "int \<Rightarrow> int \<Rightarrow> State \<Rightarrow> JobDefinition \<Rightarrow> (resource_error, AntReservation list) result" where
  "CheckJobResources now timeout s jd =
     (case doReserveJobResources now timeout s [] jd True of
        (_, _, Some e) \<Rightarrow> Err e
      | (_, reservationsByTask, None) \<Rightarrow> Ok (sort_key rv_AntID (mvals reservationsByTask)))"

definition ReserveJobResources ::
  "int \<Rightarrow> int \<Rightarrow> State \<Rightarrow> string \<Rightarrow> JobDefinition \<Rightarrow>
   State \<times> (string, AntReservation) gomap \<times> resource_error option" where
  "ReserveJobResources now timeout s requestID jd =
     doReserveJobResources now timeout s requestID jd False"

definition Release :: "State \<Rightarrow> AntReservation option \<Rightarrow> State \<times> resource_error option" where
  "Release s reservation =
     (case reservation of
        None \<Rightarrow> (s, Some ReservationNotSpecified)
      | Some rv \<Rightarrow>
          if getRegistrationByAnt s (rv_AntID rv) = None then (s, Some (AntNotRegistered (rv_AntID rv)))
          else (release s rv, None))"

subsection \<open>Availability\<close>

definition live_ants_of_method :: "int \<Rightarrow> int \<Rightarrow> State \<Rightarrow> TaskMethod \<Rightarrow> string list" where
  "live_ants_of_method now timeout s m =
     filter (\<lambda>antID. case getRegistrationByAnt s antID of
         None \<Rightarrow> False | Some reg \<Rightarrow> Supports now reg m [] timeout)
       (getAntIDsByMethod s m)"

definition tag_ant_matches :: "int \<Rightarrow> int \<Rightarrow> State \<Rightarrow> string \<Rightarrow> bool" where
  "tag_ant_matches now timeout s antID =
     (case (getRegistrationByAnt s antID, getAllocationsByAnt s antID) of
        (Some registration, Some allocations) \<Rightarrow>
          IsAlive now registration timeout \<and> int (length allocations) \<le> rg_MaxCapacity registration
      | _ \<Rightarrow> False)"

fun check_methods :: "int \<Rightarrow> int \<Rightarrow> State \<Rightarrow> TaskMethod list \<Rightarrow> resource_error option" where
  "check_methods now timeout s [] = None"
| "check_methods now timeout s (m # ms) =
     (if length (live_ants_of_method now timeout s m) = 0 then Some (NoLiveAntForMethod m)
      else check_methods now timeout s ms)"

fun check_tags :: "int \<Rightarrow> int \<Rightarrow> State \<Rightarrow> string list \<Rightarrow> resource_error option" where
  "check_tags now timeout s [] = None"
| "check_tags now timeout s (tag # tags) =
     (let antIDs = fst (getAntsByTag s tag)
      in if length antIDs = 0 then Some (NoAntsForTag tag)
         else if \<not> list_ex (tag_ant_matches now timeout s) antIDs then Some (NoMatchingAntForTag tag)
         else check_tags now timeout s tags)"

definition HasAntsForJobTags ::
  "int \<Rightarrow> int \<Rightarrow> State \<Rightarrow> TaskMethod list \<Rightarrow> string list \<Rightarrow> resource_error option" where
  "HasAntsForJobTags now timeout s methods tags =
     (if length methods = 0 then Some MethodsNotSpecified
      else case check_methods now timeout s methods of
             Some e \<Rightarrow> Some e
           | None \<Rightarrow> check_tags now timeout s tags)"

subsection \<open>Container events by page\<close>

text \<open>The result slice has one slot per returned event; a slot that the loop does not fill
  stays nil.  None is the panic of \<open>make\<close> with a negative length.\<close>

fun page_loop :: "'a list \<Rightarrow> int \<Rightarrow> int \<Rightarrow> nat \<Rightarrow> 'a option list \<Rightarrow> 'a option list" where
  "page_loop [] j offset i res = res"
| "page_loop (cnt # all) j offset i res =
     (if j < offset then page_loop all (j + 1) offset i res
      else if i \<ge> length res then res
      else page_loop all (j + 1) offset (i + 1) (res[i := Some cnt]))"

definition page_slots :: "'a list \<Rightarrow> int \<Rightarrow> int \<Rightarrow> 'a option list option" where
  "page_slots all offset limit =
     (let n = min limit (int (length all))
      in if n < 0 then None else Some (page_loop all 0 offset 0 (replicate (nat n) None)))"

definition GetContainerEvents ::
  "int \<Rightarrow> State \<Rightarrow> int \<Rightarrow> int \<Rightarrow> string \<Rightarrow> (ContainerLifecycleEvent option list \<times> nat) option" where
  "GetContainerEvents now s offset limit sortBy =
     (let all = getContainerEvents now s sortBy
      in map_option (\<lambda>res. (res, length all)) (page_slots all offset limit))"

subsection \<open>Registration and the reaper\<close>

definition Register :: "int \<Rightarrow> State \<Rightarrow> AntRegistration \<Rightarrow> State \<times> bool" where
  "Register now s registration = addRegistration s (registration\<lparr>rg_ReceivedAt := now\<rparr>)"

definition Unregister :: "State \<Rightarrow> string \<Rightarrow> State \<times> bool" where
  "Unregister s antID =
     (case removeRegistration s antID of (s', _, _, count) \<Rightarrow> (s', count > 0))"

definition stale_ants :: "int \<Rightarrow> int \<Rightarrow> State \<Rightarrow> string list" where
  "stale_ants now timeout s =
     concat (map (\<lambda>r.
         (if age now (rg_ReceivedAt r) > timeout then [rg_AntID r] else []) @
         (case rg_ValidRegistration r of
            None \<Rightarrow> []
          | Some valid \<Rightarrow> if \<not> valid now then [rg_AntID r] else []))
       (getRegistrations s))"

definition reapStaleAnts :: "int \<Rightarrow> int \<Rightarrow> State \<Rightarrow> State \<times> nat" where
  "reapStaleAnts now timeout s =
     (fold (\<lambda>antID st. fst (removeRegistration st antID)) (stale_ants now timeout s) s,
      length (stale_ants now timeout s))"

definition reapStaleAllocations :: "int \<Rightarrow> int \<Rightarrow> State \<Rightarrow> State \<times> nat" where
  "reapStaleAllocations now timeout s =
     (let removed = state_reapStaleAllocations now s timeout
      in (fold (\<lambda>rv st. fst (Release st (Some rv))) removed s, length removed))"

subsection \<open>Life-cycle events\<close>

datatype rm_event =
    RegistrationEvent AntRegistration
  | JobLifecycleEvent string RequestState
  | TaskLifecycleEvent string string string RequestState
  | ContainerEvent ContainerLifecycleEvent

text \<open>The callbacks of the four subscriptions, each on the decoded event.  Decoding a registration
  validates it, and its failure is the error of the callback; an error of \<open>Register\<close> is only
  logged.\<close>

definition on_registration :: "int \<Rightarrow> State \<Rightarrow> AntRegistration \<Rightarrow> State \<times> resource_error option" where
  "on_registration now s registration =
     (case registration_Validate registration of
        Inl e \<Rightarrow> (s, Some (InvalidRegistration e))
      | Inr r \<Rightarrow> (fst (Register now s r), None))"

definition on_job_lifecycle :: "State \<Rightarrow> string \<Rightarrow> RequestState \<Rightarrow> State \<times> resource_error option" where
  "on_job_lifecycle s requestID state =
     (if IsTerminal state then (ReleaseJobResources s requestID, None) else (s, None))"

definition on_task_lifecycle ::
  "int \<Rightarrow> State \<Rightarrow> string \<Rightarrow> string \<Rightarrow> string \<Rightarrow> RequestState \<Rightarrow> State \<times> resource_error option" where
  "on_task_lifecycle now s requestID taskType antID state =
     (if Completed state
      then Release s (Some (NewAntReservation now antID [] requestID taskType [] 0 0))
      else (s, None))"

definition on_container :: "State \<Rightarrow> ContainerLifecycleEvent \<Rightarrow> State \<times> resource_error option" where
  "on_container s cnt = (updateContainer s cnt, None)"

definition handle_event :: "int \<Rightarrow> State \<Rightarrow> rm_event \<Rightarrow> State \<times> resource_error option" where
  "handle_event now s ev =
     (case ev of
        RegistrationEvent registration \<Rightarrow> on_registration now s registration
      | JobLifecycleEvent requestID state \<Rightarrow> on_job_lifecycle s requestID state
      | TaskLifecycleEvent requestID taskType antID state \<Rightarrow>
          on_task_lifecycle now s requestID taskType antID state
      | ContainerEvent cnt \<Rightarrow> on_container s cnt)"

subsection \<open>The interface of the pool of ants\<close>

locale ant_pool =
  fixes res :: "'s \<Rightarrow> string \<Rightarrow> TaskMethod \<Rightarrow> string list \<Rightarrow> 's \<times> (resource_error, AntReservation) result"
    and rel :: "'s \<Rightarrow> 's"
    and mine :: "'s \<Rightarrow> (string \<times> string) set"
    and others :: "'s \<Rightarrow> (string \<times> string \<times> string) set"
    and good :: "'s \<Rightarrow> bool"
  assumes res_good: "good s \<Longrightarrow> res s t m tags = (s', x) \<Longrightarrow> good s'"
    and res_ok: "good s \<Longrightarrow> res s t m tags = (s', Ok rv) \<Longrightarrow>
      mine s' = insert (rv_AntID rv, t) (mine s) \<and> others s' = others s"
    and res_err: "good s \<Longrightarrow> res s t m tags = (s', Err e) \<Longrightarrow> mine s' = mine s \<and> others s' = others s"
    and rel_good: "good s \<Longrightarrow> good (rel s)"
    and rel_mine: "good s \<Longrightarrow> mine (rel s) = {} \<and> others (rel s) = others s"
begin

lemma reserve_tasks_good:
  "good s \<Longrightarrow> reserve_tasks res rel False ts m s = (s', m', x) \<Longrightarrow> good s'"
  by (induction ts arbitrary: m s) (auto split: prod.splits sum.splits dest: res_good intro: rel_good)

lemma reserve_tasks_others:
  "good s \<Longrightarrow> reserve_tasks res rel False ts m s = (s', m', x) \<Longrightarrow> others s' = others s"
proof (induction ts arbitrary: m s)
  case (Cons t ts)
  obtain s1 y where r: "res s (td_TaskType t) (td_Method t) (td_Tags t) = (s1, y)"
    by (rule prod.exhaust)
  have g: "good s1" by (rule res_good[OF Cons.prems(1) r])
  show ?case
  proof (cases y)
    case (Inl e)
    with Cons.prems r res_err[OF Cons.prems(1)] rel_mine[OF g] show ?thesis by auto
  next
    case (Inr rv)
    with Cons.prems r have "reserve_tasks res rel False ts (mset (td_TaskType t) rv m) s1 = (s', m', x)"
      by simp
    from Cons.IH[OF g this] Inr r res_ok[OF Cons.prems(1)] show ?thesis by auto
  qed
qed simp

text \<open>A failed reservation of a job leaves nothing held for the request.\<close>

lemma reserve_tasks_failed:
  "good s \<Longrightarrow> reserve_tasks res rel False ts m s = (s', m', Some e) \<Longrightarrow> mine s' = {}"
proof (induction ts arbitrary: m s)
  case (Cons t ts)
  obtain s1 y where r: "res s (td_TaskType t) (td_Method t) (td_Tags t) = (s1, y)"
    by (rule prod.exhaust)
  have g: "good s1" by (rule res_good[OF Cons.prems(1) r])
  with Cons.prems Cons.IH[OF g] rel_mine[OF g] r show ?case by (cases y) auto
qed simp

text \<open>A successful one holds one ant per task, the one in the returned map.\<close>

lemma reserve_tasks_done:
  assumes "good s" and "reserve_tasks res rel False ts m s = (s', m', None)"
    and "distinct (map td_TaskType ts)"
  shows "mine s' = mine s \<union> {(rv_AntID rv, ty) | ty rv. ty \<in> td_TaskType ` set ts \<and> mget m' ty = Some rv}"
    and "\<forall>ty. ty \<in> td_TaskType ` set ts \<longrightarrow> mget m' ty \<noteq> None"
    and "\<forall>ty. ty \<notin> td_TaskType ` set ts \<longrightarrow> mget m' ty = mget m ty"
  using assms
proof (induction ts arbitrary: m s)
  case Nil
  { case 1 then show ?case by simp }
  { case 2 then show ?case by simp }
  { case 3 then show ?case by simp }
next
  case (Cons t ts)
  { case 1
    then obtain s1 rv where r: "res s (td_TaskType t) (td_Method t) (td_Tags t) = (s1, Ok rv)"
      and rest: "reserve_tasks res rel False ts (mset (td_TaskType t) rv m) s1 = (s', m', None)"
      by (auto split: prod.splits sum.splits)
    note g = res_good[OF 1(1) r]
    have d: "distinct (map td_TaskType ts)" "td_TaskType t \<notin> td_TaskType ` set ts" using 1 by auto
    from Cons.IH[OF g rest d(1)] d(2) res_ok[OF 1(1) r] show ?case by auto }
  { case 2
    then obtain s1 rv where r: "res s (td_TaskType t) (td_Method t) (td_Tags t) = (s1, Ok rv)"
      and rest: "reserve_tasks res rel False ts (mset (td_TaskType t) rv m) s1 = (s', m', None)"
      by (auto split: prod.splits sum.splits)
    have d: "distinct (map td_TaskType ts)" "td_TaskType t \<notin> td_TaskType ` set ts" using 2 by auto
    from Cons.IH(2,3)[OF res_good[OF 2(1) r] rest d(1)] d(2) show ?case by auto }
  { case 3
    then obtain s1 rv where r: "res s (td_TaskType t) (td_Method t) (td_Tags t) = (s1, Ok rv)"
      and rest: "reserve_tasks res rel False ts (mset (td_TaskType t) rv m) s1 = (s', m', None)"
      by (auto split: prod.splits sum.splits)
    have d: "distinct (map td_TaskType ts)" using 3 by auto
    from Cons.IH(3)[OF res_good[OF 3(1) r] rest d(1)] show ?case by auto }
qed

end

subsection \<open>The state as a pool of ants\<close>

definition held_by :: "string \<Rightarrow> State \<Rightarrow> (string \<times> string) set" where
  "held_by q s = {(a, t). holds s a q t}"

definition held_by_others :: "string \<Rightarrow> State \<Rightarrow> (string \<times> string \<times> string) set" where
  "held_by_others q s = {(a, r, t). holds s a r t \<and> r \<noteq> q}"

lemma doReserve_inv:
  "state_inv s \<Longrightarrow> doReserve now timeout s q t m tags dry = (s', x) \<Longrightarrow> state_inv s'"
  by (auto simp: doReserve_def split: if_splits intro: reserve_inv)

lemma doReserve_ledger:
  "state_inv s \<Longrightarrow> ledger s \<Longrightarrow> doReserve now timeout s q t m tags dry = (s', x) \<Longrightarrow> ledger s'"
  by (auto simp: doReserve_def split: if_splits intro: reserve_ledger)

lemma doReserve_Ok:
  "doReserve now timeout s q t m tags dry = (s', Ok rv) \<Longrightarrow>
     reserve now timeout s q t m tags dry = (s', Ok rv) \<and> m \<noteq> NoMethod"
  by (auto simp: doReserve_def split: if_splits)

lemma doReserve_Err:
  "state_inv s \<Longrightarrow> doReserve now timeout s q t m tags dry = (s', Err e) \<Longrightarrow> s' = s"
  by (auto simp: doReserve_def split: if_splits dest: reserve_Err_cases)

lemma releaseJob_held:
  assumes "state_inv s" and "ledger s"
  shows "holds (releaseJob s q) a r t \<longleftrightarrow> holds s a r t \<and> r \<noteq> q"
  using assms holds_releaseJob[OF assms(1)] ledgerD[OF assms] by blast

interpretation pool: ant_pool
  "\<lambda>s t m tags. doReserve now timeout s q t m tags False" "\<lambda>s. ReleaseJobResources s q"
  "held_by q" "held_by_others q" "\<lambda>s. state_inv s \<and> ledger s"
  for now timeout q
proof unfold_locales
  fix s t m tags s' x
  assume g: "state_inv s \<and> ledger s" and r: "doReserve now timeout s q t m tags False = (s', x)"
  then show "state_inv s' \<and> ledger s'" by (blast intro: doReserve_inv doReserve_ledger)
next
  fix s t m tags s' rv
  assume g: "state_inv s \<and> ledger s" and r: "doReserve now timeout s q t m tags False = (s', Ok rv)"
  then show "held_by q s' = insert (rv_AntID rv, t) (held_by q s) \<and>
      held_by_others q s' = held_by_others q s"
    using holds_reserve[of s now timeout q t m tags s' rv] doReserve_Ok[OF r]
    by (auto simp: held_by_def held_by_others_def)
next
  fix s t m tags s' e
  assume g: "state_inv s \<and> ledger s" and r: "doReserve now timeout s q t m tags False = (s', Err e)"
  then show "held_by q s' = held_by q s \<and> held_by_others q s' = held_by_others q s"
    using doReserve_Err by blast
next
  fix s assume g: "state_inv s \<and> ledger s"
  then show "state_inv (ReleaseJobResources s q) \<and> ledger (ReleaseJobResources s q)"
    by (simp add: ReleaseJobResources_def releaseJob_inv releaseJob_ledger)
  from g show "held_by q (ReleaseJobResources s q) = {} \<and>
      held_by_others q (ReleaseJobResources s q) = held_by_others q s"
    by (auto simp: held_by_def held_by_others_def ReleaseJobResources_def releaseJob_held)
qed

subsection \<open>Dry runs\<close>

lemma reserve_tasks_dry:
  "(\<And>st t m tags. fst (res st t m tags) = st) \<Longrightarrow>
     fst (reserve_tasks res rel True ts m s) = s"
proof (induction ts arbitrary: m s)
  case (Cons a ts)
  obtain s1 y where r: "res s (td_TaskType a) (td_Method a) (td_Tags a) = (s1, y)"
    by (rule prod.exhaust)
  with Cons.prems have "s1 = s" by (metis fst_conv)
  with r Cons show ?case by (cases y) auto
qed simp

lemma doReserveJobResources_dry:
  "fst (doReserveJobResources now timeout s q jd True) = s"
  unfolding doReserveJobResources_def
  by (rule reserve_tasks_dry) (simp add: doReserve_def reserve_dry_state)

subsection \<open>Availability\<close>

lemma check_methods_None:
  "check_methods now timeout s ms = None \<longleftrightarrow>
     (\<forall>m \<in> set ms. live_ants_of_method now timeout s m \<noteq> [])"
  by (induction ms) auto

lemma live_ants_of_method_iff:
  assumes "state_inv s"
  shows "a \<in> set (live_ants_of_method now timeout s m) \<longleftrightarrow> eligible now timeout s m [] a"
proof -
  have ix: "index_ok (mkeys (antRegistrations s)) (antByMethod s)"
    using assms by (simp add: state_inv_iff)
  have "a \<in> set (getAntIDsByMethod s m) \<longleftrightarrow> indexed (antByMethod s) m a"
    by (cases "mget (antByMethod s) m")
       (simp_all add: getAntIDsByMethod_def indexed_keys[OF ix] indexed_def[of _ m a])
  then show ?thesis
    by (auto simp: live_ants_of_method_def eligible_def getRegistrationByAnt_def
        split: option.splits)
qed

lemma check_tags_None:
  "check_tags now timeout s tags = None \<longleftrightarrow>
     (\<forall>tag \<in> set tags. \<exists>a \<in> set (fst (getAntsByTag s tag)). tag_ant_matches now timeout s a)"
  by (induction tags) (auto simp: Let_def list_ex_iff)

subsection \<open>The reaper\<close>

lemma stale_ants_iff:
  assumes "state_inv s"
  shows "a \<in> set (stale_ants now timeout s) \<longleftrightarrow>
     (\<exists>r. mget (antRegistrations s) a = Some r \<and> \<not> IsAlive now r timeout)"
proof -
  have w: "mwf (antRegistrations s)" using assms by (simp add: state_inv_iff)
  have "a \<in> set (stale_ants now timeout s) \<longleftrightarrow>
      (\<exists>r \<in> set (mvals (antRegistrations s)). rg_AntID r = a \<and> \<not> IsAlive now r timeout)"
    by (auto simp: stale_ants_def getRegistrations_def IsAlive_def split: option.splits if_splits)
  also have "\<dots> \<longleftrightarrow> (\<exists>k r. mget (antRegistrations s) k = Some r \<and> rg_AntID r = a \<and> \<not> IsAlive now r timeout)"
    using w by (auto simp: mvals_def mget_eq_Some_iff) force+
  also have "\<dots> \<longleftrightarrow> (\<exists>r. mget (antRegistrations s) a = Some r \<and> \<not> IsAlive now r timeout)"
    using assms by (auto simp: state_inv_iff)
  finally show ?thesis .
qed

lemma fold_remove:
  assumes "state_inv s"
  shows "state_inv (fold (\<lambda>a st. fst (removeRegistration st a)) as s) \<and>
     (\<forall>a. mget (antRegistrations (fold (\<lambda>a st. fst (removeRegistration st a)) as s)) a =
        (if a \<in> set as then None else mget (antRegistrations s) a)) \<and>
     (\<forall>a r t. holds (fold (\<lambda>a st. fst (removeRegistration st a)) as s) a r t \<longleftrightarrow>
        holds s a r t \<and> a \<notin> set as)"
  using assms
proof (induction as arbitrary: s)
  case (Cons a as)
  obtain s1 ts ms n where r: "removeRegistration s a = (s1, ts, ms, n)" by (metis prod.exhaust)
  from Cons.IH[OF removeRegistration_inv[OF Cons.prems r]]
  show ?case by (auto simp: r removeRegistration_fields(1)[OF r] holds_removeRegistration[OF r])
qed simp

subsection \<open>Pages\<close>

lemma page_loop_fill:
  "offset \<le> j \<Longrightarrow> i \<le> length res \<Longrightarrow>
     page_loop all j offset i res =
       take i res @ map Some (take (length res - i) all) @ drop (i + length all) res"
proof (induction all arbitrary: j i res)
  case (Cons c all)
  show ?case
  proof (cases "i \<ge> length res")
    case False
    then have "take (Suc i) (res[i := Some c]) = take i res @ [Some c]"
      by (simp add: take_Suc_conv_app_nth)
    moreover have "take (length res - i) (c # all) = c # take (length res - Suc i) all"
      using False by (simp add: take_Cons')
    ultimately show ?thesis using False Cons.prems Cons.IH[of "j + 1" "Suc i" "res[i := Some c]"] by simp
  qed (use Cons.prems in simp)
qed simp

lemma page_loop_skip:
  "page_loop all j offset i res = page_loop (drop (nat (offset - j)) all) (max j offset) offset i res"
proof (induction all arbitrary: j)
  case (Cons c all)
  show ?case
  proof (cases "j < offset")
    case True
    then have "nat (offset - j) = Suc (nat (offset - (j + 1)))" by linarith
    with True Cons.IH[of "j + 1"] show ?thesis by simp
  qed simp
qed simp

lemma page_slots_eq:
  assumes "0 \<le> limit"
  shows "page_slots all offset limit =
     (let n = min (nat limit) (length all); page = take n (drop (nat offset) all)
      in Some (map Some page @ replicate (n - length page) None))"
proof -
  define n where "n = min (nat limit) (length all)"
  have n: "nat (min limit (int (length all))) = n" "0 \<le> min limit (int (length all))"
    using assms by (auto simp: n_def min_def)
  let ?d = "drop (nat offset) all"
  have "page_loop all 0 offset 0 (replicate n None) =
      page_loop ?d (max 0 offset) offset 0 (replicate n None)"
    using page_loop_skip[of all 0 offset] by simp
  also have "\<dots> = map Some (take n ?d) @ replicate (n - length ?d) None"
    by (simp add: page_loop_fill)
  also have "n - length ?d = n - length (take n ?d)" by simp
  finally show ?thesis using n by (simp add: page_slots_def n_def Let_def)
qed

subsection \<open>A small pool\<close>

text \<open>Two shell ants; the state on which the witnesses evaluate the operations.\<close>

definition sample_registration :: "string \<Rightarrow> AntRegistration" where
  "sample_registration a =
     \<lparr>rg_AntID = a, rg_AntTopic = ''topic'', rg_EncryptionKey = [], rg_MaxCapacity = 1,
      rg_Tags = [], rg_Methods = [Shell], rg_CurrentLoad = 0, rg_TotalExecuted = 0,
      rg_Allocations = [], rg_CreatedAt = 0, rg_AntStartedAt = 0, rg_AutoRefresh = False,
      rg_ReceivedAt = 0, rg_ValidRegistration = None\<rparr>"

definition sample_state :: State where
  "sample_state =
     fst (addRegistration (fst (addRegistration NewState (sample_registration ''a'')))
           (sample_registration ''b''))"

definition sample_job :: JobDefinition where
  "sample_job = (NewJobDefinition ''job'')\<lparr>jd_Tasks := [NewTaskDefinition ''t'' Shell]\<rparr>"

definition sample_bad_job :: JobDefinition where
  "sample_bad_job = (NewJobDefinition ''job'')\<lparr>jd_Tasks :=
     [NewTaskDefinition ''t'' Shell, NewTaskDefinition ''u'' Docker]\<rparr>"

lemma sample_registration_ok: "registration_ok (sample_registration a)"
  by (simp add: registration_ok_def sample_registration_def mvals_def)

lemma sample_reachable: "rm_reachable timeout sample_state"
proof -
  have step: "rm_reachable timeout (fst (addRegistration s (sample_registration a)))"
    if "rm_reachable timeout s" for s a
    by (rule Reach_step[OF that], rule Step_register[OF sample_registration_ok])
       (rule prod.collapse[symmetric])
  show ?thesis unfolding sample_state_def by (intro step Reach_init)
qed

lemmas sample_inv = rm_reachable_inv[OF sample_reachable]

lemma sample_ledger: "ledger sample_state"
  by (simp add: ledger_def sample_state_def sample_registration_def addRegistration_def NewState_def
      updateAntsByMethods_def updateAntsByTags_def Let_def gomap_eval mvals_def mkeys_def)

lemmas sample_simps = sample_state_def sample_registration_def addRegistration_def NewState_def
  updateAntsByMethods_def updateAntsByTags_def Let_def gomap_eval mvals_def mkeys_def index_add_def

lemma sample_eligible: "eligible 0 60 sample_state Shell [] ''a''"
  by (simp add: sample_simps eligible_def indexed_def Supports_def age_def unix_secs_def i64_def)

text \<open>Two tasks of one request, placed on the two ants.\<close>

definition sample_two :: State where
  "sample_two = fst (reserve 0 60 (fst (reserve 0 60 sample_state ''r'' ''t'' Shell [] False))
     ''r'' ''u'' Shell [] False)"

lemmas reserve_eval = reserve_def available_ants_def ant_load_def Supports_def age_def
  unix_secs_def i64_def calculateLoad_def addAllocationsByAnt_def addAntsByRequest_def
  NewAntReservation_def NewAntAllocation_def sort_key_def

lemma sample_two_holds:
  "holds sample_two ''a'' ''r'' ''t'' \<and> holds sample_two ''b'' ''r'' ''u'' \<and> ledger sample_two \<and>
   (\<exists>al. allocation_of sample_two ''a'' ''r'' = Some al \<and> mdel ''t'' (al_TaskTypes al) = [])"
  by (simp add: sample_two_def sample_simps reserve_eval holds_def allocation_of_def ledger_def
      indexed_def)

lemma sample_two_reachable: "rm_reachable 60 sample_two"
  unfolding sample_two_def
  by (intro Reach_step[OF _ Step_reserve[OF prod.collapse[symmetric]]] sample_reachable)

lemma sample_reserve:
  "\<exists>s' rv. reserve 0 60 sample_state ''r'' ''t'' Shell [] False = (s', Ok rv)"
  using reserve_Ok_iff[OF sample_inv] sample_eligible by auto

subsection \<open>Properties\<close>

text \<open>C1: In every reachable state, a successful reservation picks a live registered ant that
  supports the method and the tags, one with the least load among all such ants, and exactly the
  triple of that ant, the request and the task is added to what is held.\<close>

theorem reserve_least_loaded:
  assumes "rm_reachable timeout s" and "reserve now timeout s q t m tags False = (s', Ok rv)"
  shows "eligible now timeout s m tags (rv_AntID rv) \<and>
     (\<forall>b. eligible now timeout s m tags b \<longrightarrow> ant_load s (rv_AntID rv) \<le> ant_load s b) \<and>
     (\<forall>a r u. holds s' a r u \<longleftrightarrow> holds s a r u \<or> a = rv_AntID rv \<and> r = q \<and> u = t)"
proof -
  note inv = rm_reachable_inv[OF assms(1)]
  have "eligible now timeout s m tags (rv_AntID rv) \<and>
      (\<forall>b. eligible now timeout s m tags b \<longrightarrow> ant_load s (rv_AntID rv) \<le> ant_load s b)"
  proof (rule reserve_Ok_cases[OF inv assms(2)])
    fix a rv0
    assume el: "eligible now timeout s m tags a" and a: "rv_AntID rv0 = a"
      and min: "\<not> False \<Longrightarrow> \<forall>b. eligible now timeout s m tags b \<longrightarrow> ant_load s a \<le> ant_load s b"
      and nd: "\<not> False \<Longrightarrow> \<exists>s1. addAllocationsByAnt now s q t rv0 = Ok (s1, rv) \<and>
        s' = addAntsByRequest s1 q (rv_AntID rv)"
    from nd obtain s1 where "addAllocationsByAnt now s q t rv0 = Ok (s1, rv)" by blast
    from addAllocationsByAnt_inv(4)[OF inv this] a have "rv_AntID rv = a" by simp
    with el min show ?thesis by simp
  qed
  then show ?thesis using holds_reserve[OF inv assms(2)] by blast
qed

theorem reserve_least_loaded_witness:
  "\<exists>s' rv. reserve 0 60 sample_state ''r'' ''t'' Shell [] False = (s', Ok rv) \<and>
     eligible 0 60 sample_state Shell [] (rv_AntID rv) \<and> holds s' (rv_AntID rv) ''r'' ''t''"
proof -
  obtain s' rv where r: "reserve 0 60 sample_state ''r'' ''t'' Shell [] False = (s', Ok rv)"
    using sample_reserve by blast
  from reserve_least_loaded[OF sample_reachable r] r show ?thesis by blast
qed



text \<open>C3: Reserving the ants of a job is all or nothing: when some task cannot be placed, no ant
  is held for the request afterwards; when every task is placed, the ants held for the request are
  those held before and, for every task, the ant of the returned map.  What other requests hold is
  untouched in both cases.\<close>

theorem ReserveJobResources_atomic:
  assumes "state_inv s" and "ledger s" and "distinct (map td_TaskType (jd_Tasks jd))"
    and "ReserveJobResources now timeout s q jd = (s', reservations, err)"
  shows "held_by_others q s' = held_by_others q s \<and>
     (case err of
        Some e \<Rightarrow> held_by q s' = {}
      | None \<Rightarrow> held_by q s' = held_by q s \<union>
          {(rv_AntID rv, ty) | ty rv. ty \<in> td_TaskType ` set (jd_Tasks jd) \<and>
             mget reservations ty = Some rv} \<and>
          (\<forall>ty \<in> td_TaskType ` set (jd_Tasks jd). mget reservations ty \<noteq> None))"
proof -
  have g: "state_inv s \<and> ledger s" using assms by simp
  have r: "reserve_tasks (\<lambda>st taskType m tags. doReserve now timeout st q taskType m tags False)
      (\<lambda>st. ReleaseJobResources st q) False (jd_Tasks jd) [] s = (s', reservations, err)"
    using assms(4) by (simp add: ReserveJobResources_def doReserveJobResources_def)
  note others = pool.reserve_tasks_others[OF g r]
  show ?thesis
  proof (cases err)
    case None
    note d = pool.reserve_tasks_done[OF g r[unfolded None] assms(3)]
    show ?thesis using others d(1,2) None by auto
  next
    case (Some e)
    with others pool.reserve_tasks_failed[OF g r[unfolded Some]] show ?thesis by simp
  qed
qed

theorem ReserveJobResources_atomic_witness:
  "\<exists>s' m e. ReserveJobResources 0 60 sample_state ''r'' sample_bad_job = (s', m, Some e) \<and>
     held_by ''r'' s' = {}"
proof -
  obtain s' m err where r: "ReserveJobResources 0 60 sample_state ''r'' sample_bad_job = (s', m, err)"
    by (metis prod.exhaust)
  have "err \<noteq> None"
  proof
    assume "err = None"
    with r obtain s1 rv s2 rv2 where "doReserve 0 60 sample_state ''r'' ''t'' Shell [] False = (s1, Ok rv)"
      and u: "doReserve 0 60 s1 ''r'' ''u'' Docker [] False = (s2, Ok rv2)"
      by (auto simp: ReserveJobResources_def doReserveJobResources_def sample_bad_job_def
          NewTaskDefinition_def split: prod.splits sum.splits)
    moreover have "antByMethod s1 = antByMethod sample_state"
      using calculation(1) by (auto simp: doReserve_def reserve_def addAllocationsByAnt_def
          addAntsByRequest_def Let_def split: option.splits if_splits sum.splits)
    ultimately show False
      by (simp add: doReserve_def reserve_def sample_simps)
  qed
  then obtain e where e: "err = Some e" by blast
  have "distinct (map td_TaskType (jd_Tasks sample_bad_job))"
    by (simp add: sample_bad_job_def NewTaskDefinition_def)
  from ReserveJobResources_atomic[OF sample_inv sample_ledger this r] r e show ?thesis by auto
qed



text \<open>C7: Releasing the last task of a request on one ant forgets the whole entry of the request,
  so that a later release of the request does not free what it holds on any other ant: an ant
  leaks although \<open>releaseJob\<close> reports success.\<close>

theorem release_leaks_other_ants:
  assumes "allocation_of s a q = Some al" and "mdel t (al_TaskTypes al) = []"
    and "b \<noteq> a" and "holds s b q u"
    and "rv_AntID rv = a" and "rv_JobRequestID rv = q" and "rv_TaskType rv = t"
  shows "holds (releaseJob (release s rv) q) b q u"
proof -
  from assms(1) obtain allocs where "mget (allocationsByAnt s) a = Some allocs" "mget allocs q = Some al"
    by (auto simp: allocation_of_def split: option.splits)
  with assms have "mget (antsByRequest (release s rv)) q = None"
    by (simp add: release_def Let_def)
  then have "releaseJob (release s rv) q = release s rv" by (simp add: releaseJob_def)
  with assms show ?thesis by (simp add: holds_release)
qed

theorem release_leaks_other_ants_witness:
  "\<exists>s. rm_reachable 60 s \<and> ledger s \<and> holds s ''a'' ''r'' ''t'' \<and> holds s ''b'' ''r'' ''u'' \<and>
     holds (releaseJob (release s (NewAntReservation 0 ''a'' [] ''r'' ''t'' [] 0 0)) ''r'') ''b'' ''r'' ''u''"
proof -
  obtain al where two: "holds sample_two ''a'' ''r'' ''t''" "holds sample_two ''b'' ''r'' ''u''"
    "ledger sample_two" "allocation_of sample_two ''a'' ''r'' = Some al" "mdel ''t'' (al_TaskTypes al) = []"
    using sample_two_holds by blast
  then show ?thesis
    using sample_two_reachable release_leaks_other_ants[OF two(4,5) _ two(2),
        of "NewAntReservation 0 ''a'' [] ''r'' ''t'' [] 0 0"]
    by auto
qed

text \<open>C30: The reaper of ants leaves exactly the live registrations: afterwards every registered ant
  is alive, an ant that was alive is still registered as it was, and what live ants hold is kept.\<close>

theorem reapStaleAnts_alive:
  assumes "state_inv s" and "fst (reapStaleAnts now timeout s) = s'"
  shows "(\<forall>a. mget (antRegistrations s') a =
       (case mget (antRegistrations s) a of
          None \<Rightarrow> None | Some r \<Rightarrow> if IsAlive now r timeout then Some r else None)) \<and>
     (\<forall>a q t. holds s' a q t \<longleftrightarrow> holds s a q t \<and>
       (\<exists>r. mget (antRegistrations s) a = Some r \<and> IsAlive now r timeout))"
proof -
  note f = fold_remove[OF assms(1), of "stale_ants now timeout s"]
  have s': "s' = fold (\<lambda>a st. fst (removeRegistration st a)) (stale_ants now timeout s) s"
    using assms(2) by (simp add: reapStaleAnts_def)
  have held_reg: "\<exists>r. mget (antRegistrations s) a = Some r" if "holds s a q t" for a q t
  proof -
    from that have "a \<in> set (mkeys (allocationsByAnt s))"
      using mget_None_iff[of "allocationsByAnt s" a]
      by (auto simp: holds_def allocation_of_def split: option.splits)
    with assms(1) show ?thesis
      using mget_None_iff[of "antRegistrations s" a] by (auto simp: state_inv_iff)
  qed
  have "holds s a q t \<and> a \<notin> set (stale_ants now timeout s) \<longleftrightarrow>
      holds s a q t \<and> (\<exists>r. mget (antRegistrations s) a = Some r \<and> IsAlive now r timeout)" for a q t
    using held_reg[of a q t] by (auto simp: stale_ants_iff[OF assms(1)])
  moreover have "mget (antRegistrations s') a = (case mget (antRegistrations s) a of
      None \<Rightarrow> None | Some r \<Rightarrow> if IsAlive now r timeout then Some r else None)" for a
    using f unfolding s' by (simp add: stale_ants_iff[OF assms(1)] split: option.splits)
  ultimately show ?thesis using f unfolding s' by simp
qed

theorem reapStaleAnts_alive_witness:
  "mget (antRegistrations (fst (reapStaleAnts (100 * Second) (60 * Second) sample_state))) ''a'' = None \<and>
   mget (antRegistrations (fst (reapStaleAnts (50 * Second) (60 * Second) sample_state))) ''a'' \<noteq> None"
  using reapStaleAnts_alive[OF sample_inv refl, of "100 * Second" "60 * Second"]
    reapStaleAnts_alive[OF sample_inv refl, of "50 * Second" "60 * Second"]
  by (simp add: sample_simps IsAlive_def age_def unix_secs_def i64_def)



text \<open>A page of container events is the requested window of the sorted events followed by nil
  slots: the result has as many slots as the smaller of the limit and the total, so a page that
  starts at a positive offset can end with nil entries.\<close>

theorem GetContainerEvents_page:
  assumes "0 \<le> limit"
  shows "GetContainerEvents now s offset limit sortBy =
     (let all = getContainerEvents now s sortBy; n = min (nat limit) (length all);
          page = take n (drop (nat offset) all)
      in Some (map Some page @ replicate (n - length page) None, length all))"
  by (simp add: GetContainerEvents_def page_slots_eq[OF assms] Let_def)

theorem GetContainerEvents_page_witness:
  "\<exists>s. map_option fst (GetContainerEvents 0 s 1 10 []) = Some [None]"
proof -
  let ?e = "\<lparr>ce_ID = [], ce_CreatedAt = 0, ce_UserID = [], ce_AntID = ''a'', ce_Method = Shell,
    ce_ContainerName = ''c'', ce_ContainerID = ''c'', ce_ContainerState = EXECUTING,
    ce_Labels = [], ce_StartedAt = 0, ce_EndedAt = None\<rparr>"
  show ?thesis
    using GetContainerEvents_page[of 10 0 "updateContainer NewState ?e" 1 "[]"]
    by (intro exI[of _ "updateContainer NewState ?e"])
       (simp add: getContainerEvents_def updateContainer_def NewState_def Done_def mvals_def
        container_RequestID_def container_Key_def ContainerLifecycleEventKey_def Let_def)
qed

subsection \<open>Deviations\<close>

text \<open>Whatever the queue or the ant answers, terminating a container of a registered ant reports
  success once the request is encoded.\<close>

lemma terminateContainer_ignores_reply:
  assumes "getRegistrationByAnt s antID = Some r" and "marshal (rg_EncryptionKey r) cid m = Ok b"
  shows "terminateContainer marshal (\<lambda>_ _. Err ''send failed'') unmarshal s cid antID m = None"
    and "terminateContainer marshal (\<lambda>_ _. Ok res) (\<lambda>_ _. Ok FAILED) s cid antID m = None"
  using assms by (simp_all add: terminateContainer_def)

text \<open>An ant registered under a tag with capital letters supports the lower-case tag, yet cannot
  be reserved for it: the index is by the exact text.\<close>

lemma reserve_tag_case:
  "let r = (sample_registration ''a'')\<lparr>rg_Tags := [''GPU'']\<rparr>; s = fst (addRegistration NewState r)
   in Supports 0 r Shell [''gpu''] 60 \<and>
      snd (reserve 0 60 s ''r'' ''t'' Shell [''gpu''] True) = Err (NoAntsForTag ''gpu'')"
  by (simp add: sample_simps Supports_def age_def unix_secs_def i64_def MatchTagsArray_def
      EqualFold_def ToLower_def lower_char_def reserve_def TrimSpace_def is_space_def; code_simp)

text \<open>An ant at its capacity passes the availability check.\<close>

lemma full_ant_accepted:
  assumes "mget (antRegistrations s) a = Some r" and "mget (allocationsByAnt s) a = Some allocs"
    and "IsAlive now r timeout" and "int (length allocs) = rg_MaxCapacity r"
  shows "tag_ant_matches now timeout s a"
  using assms by (simp add: tag_ant_matches_def getRegistrationByAnt_def getAllocationsByAnt_def)

end
