(* ===== verification/Task_Execution.thy ===== *)
theory Task_Execution
  imports Complex_Main Task_Definition Ant_Types
begin

text \<open>
  The execution of a task (\<open>queen/types/task_execution.go\<close>): its record, its context rows with
  their lookup map, its cost, comparison and reloading.  A context row is the named value it
  holds; ids and creation times of rows play no part.  Cost factors are rational numbers: the
  rounding of products of \<open>float64\<close> is not modelled.

  The contexts of a task are a named store; the interpretation \<open>task_ctx\<close> proves it.
\<close>

record Artifact =
  ar_ID :: string
  ar_Kind :: string

record TaskExecution =
  te_ID :: string
  te_JobExecutionID :: string
  te_TaskType :: string
  te_Method :: TaskMethod
  te_TaskState :: RequestState
  te_AllowFailure :: bool
  te_ExitCode :: string
  te_ExitMessage :: string
  te_ErrorCode :: string
  te_ErrorMessage :: string
  te_FailedCommand :: string
  te_Comments :: string
  te_AntID :: string
  te_AntHost :: string
  te_Retried :: int
  te_Contexts :: "NameTypeValue list"
  te_Artifacts :: "Artifact list"
  te_TaskOrder :: int
  te_CountServices :: int
  te_CostFactor :: rat
  te_StartedAt :: int
  te_EndedAt :: "int option"
  te_UpdatedAt :: int
  te_Active :: bool
  te_Stdout :: "string list"
  te_lookupContexts :: "(string, NameTypeValue) gomap"

definition NewTaskExecution :: "int \<Rightarrow> TaskDefinition \<Rightarrow> TaskExecution" where
  "NewTaskExecution now task =
     \<lparr>te_ID = [], te_JobExecutionID = [], te_TaskType = td_TaskType task, te_Method = td_Method task,
      te_TaskState = READY, te_AllowFailure = td_AllowFailure task, te_ExitCode = [],
      te_ExitMessage = [], te_ErrorCode = [], te_ErrorMessage = [], te_FailedCommand = [], te_Comments = [],
      te_AntID = [], te_AntHost = [], te_Retried = 0, te_Contexts = [], te_Artifacts = [],
      te_TaskOrder = 0, te_CountServices = 0, te_CostFactor = 0, te_StartedAt = now,
      te_EndedAt = None, te_UpdatedAt = now, te_Active = False, te_Stdout = [],
      te_lookupContexts = []\<rparr>"

subsection \<open>Contexts\<close>

definition task_GetContext :: "string \<Rightarrow> TaskExecution \<Rightarrow> NameTypeValue option" where
  "task_GetContext name te = mget (te_lookupContexts te) name"

definition task_AddContext :: "string \<Rightarrow> any \<Rightarrow> TaskExecution \<Rightarrow> (value_error, TaskExecution) result" where
  "task_AddContext name v te =
     (case NewNameTypeValue name v False of
        Inl e \<Rightarrow> Err e
      | Inr ctx \<Rightarrow>
          Ok (te\<lparr>te_Contexts :=
                   (if mget (te_lookupContexts te) name = None then te_Contexts te @ [ctx]
                    else map (\<lambda>next. if nv_Name next = name then next\<lparr>nv_Value := nv_Value ctx\<rparr> else next)
                           (te_Contexts te)),
                 te_lookupContexts := mset name ctx (te_lookupContexts te)\<rparr>))"

definition task_DeleteContext :: "string \<Rightarrow> TaskExecution \<Rightarrow> TaskExecution" where
  "task_DeleteContext name te =
     (if mget (te_lookupContexts te) name = None then te
      else te\<lparr>te_Contexts := remove_first name (te_Contexts te),
              te_lookupContexts := mdel name (te_lookupContexts te)\<rparr>)"

definition task_ContextMap :: "(string \<Rightarrow> string \<Rightarrow> any option) \<Rightarrow> TaskExecution \<Rightarrow> (string, any) gomap" where
  "task_ContextMap dec te = rows_map dec (te_Contexts te)"

definition task_AfterLoad ::
  "(string \<Rightarrow> string \<Rightarrow> any option) \<Rightarrow> TaskExecution \<Rightarrow> (value_error, TaskExecution) result" where
  "task_AfterLoad dec te =
     (case rows_load dec (te_Contexts te) [] of
        Inl e \<Rightarrow> Err e
      | Inr lookup \<Rightarrow> Ok (te\<lparr>te_lookupContexts := lookup\<rparr>))"

subsection \<open>Cost\<close>

definition previousTaskExecutionCostSecs :: string where
  "previousTaskExecutionCostSecs = ''PreviousTaskExecutionCostSecs''"

text \<open>The value of \<open>strconv.ParseInt\<close> when its error is ignored: 0 on a syntax error, the nearest
  64-bit integer when the number is out of range.\<close>

definition ParseInt_value :: "string \<Rightarrow> int" where
  "ParseInt_value s =
     (case ParseInt s of
        Some n \<Rightarrow> n
      | None \<Rightarrow>
          (case s of
             [] \<Rightarrow> 0
           | c # cs \<Rightarrow>
               if c = CHR ''-'' then (if parse_digits cs = None then 0 else - (2 ^ 63))
               else (if parse_digits (if c = CHR ''+'' then cs else s) = None then 0 else 2 ^ 63 - 1)))"

definition GetPreviousExecutionCostSecs :: "TaskExecution \<Rightarrow> int" where
  "GetPreviousExecutionCostSecs te =
     (case rows_find previousTaskExecutionCostSecs (te_Contexts te) of
        None \<Rightarrow> 0
      | Some c \<Rightarrow> ParseInt_value (nv_Value c))"

text \<open>The parameter \<open>previousTaskExecutionID\<close> hides the constant of that name, so the id is stored
  under itself.\<close>

definition AddPreviousExecutionCostSecs :: "string \<Rightarrow> int \<Rightarrow> TaskExecution \<Rightarrow> TaskExecution" where
  "AddPreviousExecutionCostSecs previousTaskExecutionID secs te =
     (if secs > 0 then
        (let te1 = (case task_AddContext previousTaskExecutionCostSecs (AnyInt ''int64'' secs) te of
                      Inl _ \<Rightarrow> te | Inr t \<Rightarrow> t)
         in case task_AddContext previousTaskExecutionID (AnyString previousTaskExecutionID) te1 of
              Inl _ \<Rightarrow> te1 | Inr t \<Rightarrow> t)
      else te)"

definition trunc :: "rat \<Rightarrow> int" where
  "trunc x = (if x < 0 then - \<lfloor>- x\<rfloor> else \<lfloor>x\<rfloor>)"

definition Seconds :: "int \<Rightarrow> rat" where
  "Seconds d = of_int d / of_int Second"

definition task_ExecutionCostSecs :: "int \<Rightarrow> TaskExecution \<Rightarrow> int" where
  "task_ExecutionCostSecs now te =
     (let ended = (case te_EndedAt te of
                     None \<Rightarrow> now | Some e \<Rightarrow> if te_TaskState te = EXECUTING then now else e);
          d = time_Sub ended (te_StartedAt te);
          cost = i64 (max (trunc (Seconds d * te_CostFactor te)) (trunc (Seconds d)) +
                      GetPreviousExecutionCostSecs te)
      in if te_CostFactor te = 0 then i64 (cost + te_CountServices te * cost) else max cost 0)"

subsection \<open>Other operations\<close>

datatype execution_error = NilOther | NoTaskType | TaskTypeDiffers | ContextCount | ContextDiffers string
  | NoJobType | NoJobState | JobTypeDiffers | TaskCount | TaskNotFound string

definition task_exec_Validate :: "TaskExecution \<Rightarrow> execution_error option" where
  "task_exec_Validate te = (if te_TaskType te = [] then Some NoTaskType else None)"

text \<open>The rows of the other side against the lookup map, in the order of the rows.\<close>

fun contexts_differ ::
  "(string, NameTypeValue) gomap \<Rightarrow> NameTypeValue list \<Rightarrow> execution_error option" where
  "contexts_differ lookup [] = None"
| "contexts_differ lookup (c # cs) =
     (case mget lookup (nv_Name c) of
        None \<Rightarrow> Some (ContextDiffers (nv_Name c))
      | Some l \<Rightarrow> if nv_Value l \<noteq> nv_Value c then Some (ContextDiffers (nv_Name c))
                  else contexts_differ lookup cs)"

definition task_Equals :: "TaskExecution \<Rightarrow> TaskExecution option \<Rightarrow> execution_error option" where
  "task_Equals te other =
     (case other of
        None \<Rightarrow> Some NilOther
      | Some te' \<Rightarrow>
          if task_exec_Validate te \<noteq> None then task_exec_Validate te
          else if task_exec_Validate te' \<noteq> None then task_exec_Validate te'
          else if te_TaskType te \<noteq> te_TaskType te' then Some TaskTypeDiffers
          else if length (te_Contexts te) \<noteq> length (te_Contexts te') then Some ContextCount
          else contexts_differ (te_lookupContexts te) (te_Contexts te'))"

definition task_inv :: "TaskExecution \<Rightarrow> bool" where
  "task_inv te = rows_inv (te_Contexts te, te_lookupContexts te)"

subsection \<open>Lemmas\<close>

lemma task_AddContext_rows:
  "task_AddContext name v te =
     (case NewNameTypeValue name v False of
        Inl e \<Rightarrow> Err e
      | Inr ctx \<Rightarrow> (case rows_add ctx (te_Contexts te, te_lookupContexts te) of (rows, lookup) \<Rightarrow>
          Ok (te\<lparr>te_Contexts := rows, te_lookupContexts := lookup\<rparr>)))"
  by (auto simp: task_AddContext_def rows_add_def Let_def split: sum.splits dest: NewNameTypeValue_Ok)

lemma task_AddContext_Ok:
  assumes "task_AddContext name v te = Ok te'"
  obtains ctx where "NewNameTypeValue name v False = Ok ctx" "nv_Name ctx = name"
    "(te_Contexts te', te_lookupContexts te') = rows_add ctx (te_Contexts te, te_lookupContexts te)"
    "te' = te\<lparr>te_Contexts := te_Contexts te', te_lookupContexts := te_lookupContexts te'\<rparr>"
  using assms by (auto simp: task_AddContext_rows split: sum.splits prod.splits dest: NewNameTypeValue_Ok)

lemma task_AddContext_inv: "task_inv te \<Longrightarrow> task_AddContext name v te = Ok te' \<Longrightarrow> task_inv te'"
  by (erule task_AddContext_Ok) (simp add: task_inv_def rows_add_inv)

lemma task_DeleteContext_rows:
  "(te_Contexts (task_DeleteContext name te), te_lookupContexts (task_DeleteContext name te)) =
     rows_delete name (te_Contexts te, te_lookupContexts te)"
  by (simp add: task_DeleteContext_def rows_delete_def)

lemma contexts_differ_None:
  "contexts_differ lookup rows = None \<longleftrightarrow>
     (\<forall>c \<in> set rows. \<exists>l. mget lookup (nv_Name c) = Some l \<and> nv_Value l = nv_Value c)"
  by (induction rows) (auto split: option.splits)

interpretation task_ctx: named_store_delete
  task_AddContext task_GetContext te_Contexts task_inv task_DeleteContext
proof unfold_locales
  fix name v s s'
  assume "task_AddContext name v s = Ok s'"
  then obtain ctx where c: "NewNameTypeValue name v False = Ok ctx" "nv_Name ctx = name"
    "(te_Contexts s', te_lookupContexts s') = rows_add ctx (te_Contexts s, te_lookupContexts s)"
    by (rule task_AddContext_Ok)
  have "te_lookupContexts s' = snd (rows_add ctx (te_Contexts s, te_lookupContexts s))"
    using c(3) by (metis snd_conv)
  with c show "\<exists>nv. NewNameTypeValue name v False = Ok nv \<and>
      (\<forall>n. task_GetContext n s' = (if n = name then Some nv else task_GetContext n s))"
    by (simp add: task_GetContext_def)
next
  fix name v s e
  show "task_AddContext name v s = Err e \<longleftrightarrow> NewNameTypeValue name v False = Err e"
    by (auto simp: task_AddContext_def split: sum.splits)
next
  fix s name v s'
  assume "task_inv s" "task_AddContext name v s = Ok s'"
  then show "task_inv s'" by (rule task_AddContext_inv)
next
  fix s n x
  assume "task_inv s"
  then show "(\<exists>c \<in> set (te_Contexts s). nv_Name c = n \<and> nv_Value c = x) \<longleftrightarrow>
      (\<exists>l. task_GetContext n s = Some l \<and> nv_Value l = x)"
    using rows_inv_get[of "(te_Contexts s, te_lookupContexts s)" n x]
    by (simp add: task_inv_def task_GetContext_def)
next
  fix n name s
  show "task_GetContext n (task_DeleteContext name s) = (if n = name then None else task_GetContext n s)"
    by (simp add: task_GetContext_def task_DeleteContext_def)
next
  fix s name
  assume "task_inv s"
  then show "task_inv (task_DeleteContext name s)"
    unfolding task_inv_def task_DeleteContext_rows by (rule rows_delete_inv)
qed

lemma NewTaskExecution_inv: "task_inv (NewTaskExecution now td)"
  by (simp add: task_inv_def NewTaskExecution_def)

lemma task_Equals_refl:
  "task_inv te \<Longrightarrow> te_TaskType te \<noteq> [] \<Longrightarrow> task_Equals te (Some te) = None"
  by (auto simp: task_Equals_def task_exec_Validate_def contexts_differ_None task_inv_def rows_inv_def)

lemma GetPrevious_row:
  assumes "task_inv te" and "task_GetContext previousTaskExecutionCostSecs te = Some l"
  shows "GetPreviousExecutionCostSecs te = ParseInt_value (nv_Value l)"
proof -
  obtain c where c: "c \<in> set (te_Contexts te)" "nv_Name c = previousTaskExecutionCostSecs"
    "nv_Value c = nv_Value l"
    using task_ctx.rows_get[OF assms(1), of previousTaskExecutionCostSecs "nv_Value l"] assms(2) by auto
  moreover have "distinct (map nv_Name (te_Contexts te))"
    using assms(1) by (simp add: task_inv_def rows_inv_def)
  ultimately show ?thesis
    using rows_find_mem[of "te_Contexts te" c] by (simp add: GetPreviousExecutionCostSecs_def)
qed

subsection \<open>Properties\<close>

text \<open>Whatever contexts are added to a new task execution, one after the other and with repeated
  names, the rows and the lookup map agree and names are unique; the last value added under a name
  is the one that is found, its text is that of the row, and deleting the name removes both.\<close>

theorem task_contexts_store:
  assumes "add_all task_AddContext (ps @ [(n, v)]) (NewTaskExecution now td) = Ok te"
  shows "task_inv te \<and>
     (\<exists>nv. NewNameTypeValue n v False = Ok nv \<and> task_GetContext n te = Some nv \<and>
        (\<exists>c \<in> set (te_Contexts te). nv_Name c = n \<and> nv_Value c = nv_Value nv)) \<and>
     task_GetContext n (task_DeleteContext n te) = None \<and>
     \<not> (\<exists>c \<in> set (te_Contexts (task_DeleteContext n te)). nv_Name c = n)"
proof -
  have i: "task_inv te" by (rule task_ctx.add_all_inv[OF NewTaskExecution_inv assms])
  from task_ctx.get_add_all_last[OF assms] obtain nv where
    nv: "NewNameTypeValue n v False = Ok nv" "task_GetContext n te = Some nv" by blast
  with task_ctx.rows_get[OF i, of n "nv_Value nv"] task_ctx.no_row_after_delete[OF i, of n] i
  show ?thesis by (auto simp: task_ctx.delete_get)
qed

theorem task_contexts_store_witness:
  "\<exists>te. add_all task_AddContext ([(''a'', AnyBool True), (''b'', AnyBool True)] @ [(''a'', AnyBool False)])
      (NewTaskExecution 0 (NewTaskDefinition ''t'' Shell)) = Ok te \<and>
     (\<exists>c \<in> set (te_Contexts te). nv_Name c = ''a'' \<and> nv_Value c = ''false'')"
proof -
  have "is_ok (add_all task_AddContext ([(''a'', AnyBool True), (''b'', AnyBool True)] @ [(''a'', AnyBool False)])
      (NewTaskExecution 0 (NewTaskDefinition ''t'' Shell)))"
    by (simp add: is_ok_def task_AddContext_def NewNameTypeValue_def maxConfigValueLength_def)
  then obtain te where te: "add_all task_AddContext
      ([(''a'', AnyBool True), (''b'', AnyBool True)] @ [(''a'', AnyBool False)])
      (NewTaskExecution 0 (NewTaskDefinition ''t'' Shell)) = Ok te"
    by (auto simp: is_ok_def split: sum.splits)
  from task_contexts_store[OF te] te show ?thesis
    by (auto simp: NewNameTypeValue_def maxConfigValueLength_def split: if_splits)
qed

text \<open>Overwriting a context with a value of another kind keeps the kind of the row, so that a
  task whose integer context is overwritten with a text that is no number cannot be loaded again,
  although the value that is looked up still parses.\<close>

theorem context_kind_is_stale:
  assumes "task_inv te" and "task_GetContext n te = None" and "HasPrefix k ''int''"
    and "task_AddContext n (AnyInt k i) te = Ok te1" and "task_AddContext n (AnyString s) te1 = Ok te2"
    and "ParseInt s = None"
  shows "\<not> is_ok (task_AfterLoad dec te2) \<and>
     (\<exists>l. task_GetContext n te2 = Some l \<and> GetParsedValue dec l = Ok (AnyString s))"
proof -
  from assms(4) obtain c1 where c1: "NewNameTypeValue n (AnyInt k i) False = Ok c1"
    and 1: "te_Contexts te1 = te_Contexts te @ [c1]" "te_lookupContexts te1 = mset n c1 (te_lookupContexts te)"
    using assms(2) by (auto simp: task_AddContext_def task_GetContext_def split: sum.splits)
  from assms(5) obtain c2 where c2: "NewNameTypeValue n (AnyString s) False = Ok c2"
    and 2: "te_Contexts te2 = map (\<lambda>next. if nv_Name next = n then next\<lparr>nv_Value := nv_Value c2\<rparr> else next)
      (te_Contexts te1)" "te_lookupContexts te2 = mset n c2 (te_lookupContexts te1)"
    using 1 by (auto simp: task_AddContext_def split: sum.splits)
  note n1 = NewNameTypeValue_Ok[OF c1] and n2 = NewNameTypeValue_Ok[OF c2]
  let ?r = "c1\<lparr>nv_Value := s\<rparr>"
  have "?r \<in> set (te_Contexts te2)" using 1 2 n1 n2 by auto
  moreover have "k \<noteq> ''string''" "k \<noteq> ''types.RequestState''" "k \<noteq> ''bool''" using assms(3) by auto
  then have "\<not> is_ok (GetParsedValue dec ?r)"
    using n1 assms(3,6) by (simp add: GetParsedValue_def is_ok_def)
  ultimately have "\<not> is_ok (rows_load dec (te_Contexts te2) [])"
    by (auto simp: rows_load_Ok_iff)
  then have "\<not> is_ok (task_AfterLoad dec te2)"
    by (auto simp: task_AfterLoad_def is_ok_def split: sum.splits)
  moreover have "task_GetContext n te2 = Some c2" by (simp add: task_GetContext_def 2)
  ultimately show ?thesis using GetParsedValue_string[OF c2] by blast
qed

theorem context_kind_is_stale_witness:
  "\<exists>te1 te2. task_AddContext ''x'' (AnyInt ''int'' 5) (NewTaskExecution 0 (NewTaskDefinition ''t'' Shell)) = Ok te1 \<and>
     task_AddContext ''x'' (AnyString ''abc'') te1 = Ok te2 \<and> \<not> is_ok (task_AfterLoad (\<lambda>k t. None) te2)"
proof -
  let ?te = "NewTaskExecution 0 (NewTaskDefinition ''t'' Shell)"
  obtain te1 where 1: "task_AddContext ''x'' (AnyInt ''int'' 5) ?te = Ok te1"
    by (simp add: task_AddContext_def NewNameTypeValue_def maxConfigValueLength_def int_string_def nat_string.simps)
  obtain te2 where 2: "task_AddContext ''x'' (AnyString ''abc'') te1 = Ok te2"
    by (simp add: task_AddContext_def NewNameTypeValue_def maxConfigValueLength_def)
  have "task_GetContext ''x'' ?te = None" by (simp add: task_GetContext_def NewTaskExecution_def)
  moreover have "ParseInt ''abc'' = None" by code_simp
  ultimately show ?thesis
    using context_kind_is_stale[OF NewTaskExecution_inv _ _ 1 2] 1 2 by auto
qed

text \<open>The cost recorded for the previous execution of a task is read back as it was recorded.\<close>

theorem previous_cost_roundtrip:
  assumes "task_inv te" and "0 < secs" and "in_i64 secs"
    and "prev \<noteq> previousTaskExecutionCostSecs"
  shows "GetPreviousExecutionCostSecs (AddPreviousExecutionCostSecs prev secs te) = secs"
proof -
  let ?cost = previousTaskExecutionCostSecs
  have "length (nat_string (nat secs)) \<le> Suc 18"
    using assms(2,3) by (intro length_nat_string) (simp add: in_i64_def)
  then obtain ctx where ctx: "NewNameTypeValue ?cost (AnyInt ''int64'' secs) False = Ok ctx"
    "nv_Value ctx = int_string secs"
    using assms(2) by (simp add: NewNameTypeValue_def maxConfigValueLength_def int_string_def)
  then obtain te1 where te1: "task_AddContext ?cost (AnyInt ''int64'' secs) te = Ok te1"
    using task_ctx.add_err[of ?cost "AnyInt ''int64'' secs" te]
    by (cases "task_AddContext ?cost (AnyInt ''int64'' secs) te") auto
  have g1: "task_GetContext ?cost te1 = Some ctx" using task_ctx.add_ok[OF te1] ctx by auto
  have i1: "task_inv te1" by (rule task_AddContext_inv[OF assms(1) te1])
  let ?te2 = "AddPreviousExecutionCostSecs prev secs te"
  have "task_inv ?te2 \<and> task_GetContext ?cost ?te2 = Some ctx"
  proof (cases "task_AddContext prev (AnyString prev) te1")
    case (Inl e)
    with assms(2) te1 i1 g1 show ?thesis by (simp add: AddPreviousExecutionCostSecs_def)
  next
    case (Inr te2)
    with assms(2,4) te1 task_ctx.add_ok[OF Inr] g1 task_AddContext_inv[OF i1 Inr] show ?thesis
      by (auto simp: AddPreviousExecutionCostSecs_def)
  qed
  then have "GetPreviousExecutionCostSecs ?te2 = ParseInt_value (nv_Value ctx)"
    by (blast intro: GetPrevious_row)
  with ctx assms(3) show ?thesis by (simp add: ParseInt_value_def ParseInt_int_string)
qed

theorem previous_cost_roundtrip_witness:
  "GetPreviousExecutionCostSecs (AddPreviousExecutionCostSecs ''p'' 42
     (NewTaskExecution 0 (NewTaskDefinition ''t'' Shell))) = 42"
  using previous_cost_roundtrip[OF NewTaskExecution_inv, of 42 "''p''"]
  by (simp add: in_i64_def previousTaskExecutionCostSecs_def)

end
