(* ===== verification/Job_Execution.thy ===== *)
theory Job_Execution
  imports Task_Execution Job_Definition
begin

text \<open>
  The execution of a job (\<open>queen/types/job_execution.go\<close>): its record, the list of task
  executions, its context rows, cost, comparison and reloading.  The lookup map of contexts is
  a \<open>SafeMap\<close> (\<open>internal/utils/safe_map.go\<close>), a map behind a lock.

  The contexts of a job are a named store; the interpretation \<open>job_ctx\<close> proves it.
\<close>

record JobExecution =
  je_ID :: string
  je_JobRequestID :: string
  je_JobType :: string
  je_JobVersion :: string
  je_JobState :: RequestState
  je_OrganizationID :: string
  je_UserID :: string
  je_CurrentTask :: string
  je_ExitCode :: string
  je_ExitMessage :: string
  je_ErrorCode :: string
  je_ErrorMessage :: string
  je_Contexts :: "NameTypeValue list"
  je_Tasks :: "TaskExecution list"
  je_StartedAt :: int
  je_EndedAt :: "int option"
  je_UpdatedAt :: int
  je_CPUSecs :: int
  je_Active :: bool
  je_lookupContexts :: "(string, NameTypeValue) gomap"

text \<open>The arguments are what the code reads of the request: id, job type, version, user and
  organization.\<close>

definition NewJobExecution :: "int \<Rightarrow> string \<Rightarrow> string \<Rightarrow> string \<Rightarrow> string \<Rightarrow> string \<Rightarrow> JobExecution" where
  "NewJobExecution now reqID jobType jobVersion userID organizationID =
     \<lparr>je_ID = [], je_JobRequestID = reqID, je_JobType = jobType, je_JobVersion = jobVersion,
      je_JobState = READY, je_OrganizationID = organizationID, je_UserID = userID,
      je_CurrentTask = [], je_ExitCode = [], je_ExitMessage = [], je_ErrorCode = [],
      je_ErrorMessage = [], je_Contexts = [], je_Tasks = [], je_StartedAt = now,
      je_EndedAt = None, je_UpdatedAt = now, je_CPUSecs = 0, je_Active = False,
      je_lookupContexts = []\<rparr>"

definition ElapsedMillis :: "int \<Rightarrow> JobExecution \<Rightarrow> int" where
  "ElapsedMillis now je =
     (case je_EndedAt je of
        None \<Rightarrow> Milliseconds (time_Sub now (je_StartedAt je))
      | Some e \<Rightarrow>
          if je_JobState je = EXECUTING then Milliseconds (time_Sub now (je_StartedAt je))
          else (let elapsed = Milliseconds (time_Sub e (je_StartedAt je))
                in if elapsed < 0 then 0 else elapsed))"

definition job_ExecutionCostSecs :: "int \<Rightarrow> JobExecution \<Rightarrow> int" where
  "job_ExecutionCostSecs now je =
     (let ended = (case je_EndedAt je of
                     None \<Rightarrow> now | Some e \<Rightarrow> if je_JobState je = EXECUTING then now else e);
          secs = trunc (Seconds (time_Sub ended (je_StartedAt je)))
      in if je_CPUSecs je > 0 then max secs (je_CPUSecs je)
         else max secs (fold (\<lambda>t total. i64 (total + task_ExecutionCostSecs now t)) (je_Tasks je) 0))"

definition GetFailedTaskError :: "JobExecution \<Rightarrow> (TaskExecution \<times> string \<times> string) option" where
  "GetFailedTaskError je =
     map_option (\<lambda>t. (t, te_ErrorCode t, te_ErrorMessage t))
       (List.find (\<lambda>t. \<not> te_AllowFailure t \<and> Failed (te_TaskState t)) (je_Tasks je))"

definition job_ContextMap :: "(string \<Rightarrow> string \<Rightarrow> any option) \<Rightarrow> JobExecution \<Rightarrow> (string, any) gomap" where
  "job_ContextMap dec je = rows_map dec (je_Contexts je)"

subsection \<open>Tasks\<close>

text \<open>The index of the first task with a property, -1 when there is none.\<close>

fun task_index :: "(TaskExecution \<Rightarrow> bool) \<Rightarrow> int \<Rightarrow> TaskExecution list \<Rightarrow> int \<times> TaskExecution option" where
  "task_index P i [] = (-1, None)"
| "task_index P i (t # ts) = (if P t then (i, Some t) else task_index P (i + 1) ts)"

definition GetTask :: "JobExecution \<Rightarrow> string \<Rightarrow> string \<Rightarrow> int \<times> TaskExecution option" where
  "GetTask je taskID taskType =
     (let byID = (if taskID \<noteq> [] then task_index (\<lambda>t. te_ID t = taskID) 0 (je_Tasks je) else (-1, None))
      in if snd byID \<noteq> None then byID
         else if taskType \<noteq> [] then task_index (\<lambda>t. te_TaskType t = taskType) 0 (je_Tasks je)
         else (-1, None))"

definition max_order :: "TaskExecution list \<Rightarrow> int" where
  "max_order ts = fold (\<lambda>t m. if te_TaskOrder t > m then te_TaskOrder t else m) ts 0"

definition exec_AddTask :: "int \<Rightarrow> JobExecution \<Rightarrow> TaskDefinition \<Rightarrow> JobExecution \<times> TaskExecution" where
  "exec_AddTask now je task =
     (let taskExec = NewTaskExecution now task
      in case GetTask je [] (td_TaskType task) of
           (_, None) \<Rightarrow>
             (let te = taskExec\<lparr>te_TaskOrder := max_order (je_Tasks je @ [taskExec]) + 1,
                                te_JobExecutionID := je_ID je\<rparr>
              in (je\<lparr>je_Tasks := je_Tasks je @ [te]\<rparr>, te))
         | (_, Some old) \<Rightarrow>
             (je, taskExec\<lparr>te_TaskOrder := te_TaskOrder old, te_JobExecutionID := je_ID je\<rparr>))"

definition exec_AddTasks :: "int \<Rightarrow> JobExecution \<Rightarrow> TaskDefinition list \<Rightarrow> JobExecution" where
  "exec_AddTasks now je tasks = fold (\<lambda>t j. fst (exec_AddTask now j t)) tasks je"

definition DeleteTask :: "JobExecution \<Rightarrow> string \<Rightarrow> JobExecution \<times> bool" where
  "DeleteTask je taskID =
     (let (matched, task) = GetTask je taskID []
      in if matched = -1 \<or> task = None then (je, False)
         else (je\<lparr>je_Tasks := take (nat matched) (je_Tasks je) @ drop (nat matched + 1) (je_Tasks je)\<rparr>, True))"

definition exec_GetLastTask :: "JobExecution \<Rightarrow> TaskExecution option" where
  "exec_GetLastTask je = (if length (je_Tasks je) > 0 then Some (je_Tasks je ! (length (je_Tasks je) - 1)) else None)"

definition GetLastExecutedTask :: "JobExecution \<Rightarrow> TaskExecution option" where
  "GetLastExecutedTask je =
     fold (\<lambda>t last. if \<not> Processing (te_TaskState t) \<and>
                       (case last of None \<Rightarrow> True | Some l \<Rightarrow> te_TaskOrder l < te_TaskOrder t)
                    then Some t else last)
       (je_Tasks je) None"

subsection \<open>Contexts\<close>

definition job_GetContext :: "string \<Rightarrow> JobExecution \<Rightarrow> NameTypeValue option" where
  "job_GetContext name je = mget (je_lookupContexts je) name"

definition job_AddContext :: "string \<Rightarrow> any \<Rightarrow> JobExecution \<Rightarrow> (value_error, JobExecution) result" where
  "job_AddContext name v je =
     (case NewNameTypeValue name v False of
        Inl e \<Rightarrow> Err e
      | Inr ctx \<Rightarrow>
          Ok (je\<lparr>je_Contexts :=
                   (if mget (je_lookupContexts je) name = None then je_Contexts je @ [ctx]
                    else map (\<lambda>next. if nv_Name next = name then next\<lparr>nv_Value := nv_Value ctx\<rparr> else next)
                           (je_Contexts je)),
                 je_lookupContexts := mset name ctx (je_lookupContexts je)\<rparr>))"

definition job_DeleteContext :: "string \<Rightarrow> JobExecution \<Rightarrow> JobExecution" where
  "job_DeleteContext name je =
     (if mget (je_lookupContexts je) name = None then je
      else je\<lparr>je_Contexts := remove_first name (je_Contexts je),
              je_lookupContexts := mdel name (je_lookupContexts je)\<rparr>)"

fun load_tasks ::
  "(string \<Rightarrow> string \<Rightarrow> any option) \<Rightarrow> TaskExecution list \<Rightarrow> (value_error, TaskExecution list) result" where
  "load_tasks dec [] = Ok []"
| "load_tasks dec (t # ts) =
     (case task_AfterLoad dec t of
        Inl e \<Rightarrow> Err e
      | Inr t1 \<Rightarrow> (case load_tasks dec ts of Inl e \<Rightarrow> Err e | Inr ts1 \<Rightarrow> Ok (t1 # ts1)))"

definition job_AfterLoad ::
  "(string \<Rightarrow> string \<Rightarrow> any option) \<Rightarrow> JobExecution \<Rightarrow> (value_error, JobExecution) result" where
  "job_AfterLoad dec je =
     (case rows_load dec (je_Contexts je) [] of
        Inl e \<Rightarrow> Err e
      | Inr lookup \<Rightarrow>
          (case load_tasks dec (je_Tasks je) of
             Inl e \<Rightarrow> Err e
           | Inr ts \<Rightarrow> Ok (je\<lparr>je_lookupContexts := lookup, je_Tasks := ts\<rparr>)))"

subsection \<open>Validation and comparison\<close>

definition job_exec_Validate :: "JobExecution \<Rightarrow> execution_error option" where
  "job_exec_Validate je =
     (if je_JobType je = [] then Some NoJobType
      else if je_JobState je = NoState then Some NoJobState else None)"

fun first_invalid :: "TaskExecution list \<Rightarrow> execution_error option" where
  "first_invalid [] = None"
| "first_invalid (t # ts) = (case task_exec_Validate t of Some e \<Rightarrow> Some e | None \<Rightarrow> first_invalid ts)"

definition job_exec_ValidateBeforeSave :: "JobExecution \<Rightarrow> execution_error option" where
  "job_exec_ValidateBeforeSave je =
     (case job_exec_Validate je of Some e \<Rightarrow> Some e | None \<Rightarrow> first_invalid (je_Tasks je))"

fun tasks_differ :: "JobExecution \<Rightarrow> TaskExecution list \<Rightarrow> execution_error option" where
  "tasks_differ je [] = None"
| "tasks_differ je (t # ts) =
     (case snd (GetTask je (te_ID t) (te_TaskType t)) of
        None \<Rightarrow> Some (TaskNotFound (te_TaskType t))
      | Some t' \<Rightarrow> (case task_Equals t (Some t') of Some e \<Rightarrow> Some e | None \<Rightarrow> tasks_differ je ts))"

definition job_Equals :: "JobExecution \<Rightarrow> JobExecution option \<Rightarrow> execution_error option" where
  "job_Equals je other =
     (case other of
        None \<Rightarrow> Some NilOther
      | Some je' \<Rightarrow>
          if job_exec_ValidateBeforeSave je \<noteq> None then job_exec_ValidateBeforeSave je
          else if job_exec_ValidateBeforeSave je' \<noteq> None then job_exec_ValidateBeforeSave je'
          else if je_JobType je \<noteq> je_JobType je' then Some JobTypeDiffers
          else if length (je_Contexts je) \<noteq> length (je_Contexts je') then Some ContextCount
          else if contexts_differ (je_lookupContexts je) (je_Contexts je') \<noteq> None
          then contexts_differ (je_lookupContexts je) (je_Contexts je')
          else if length (je_Tasks je) \<noteq> length (je_Tasks je') then Some TaskCount
          else tasks_differ je (je_Tasks je'))"

subsection \<open>Invariants\<close>

definition job_inv :: "JobExecution \<Rightarrow> bool" where
  "job_inv je = rows_inv (je_Contexts je, je_lookupContexts je)"

text \<open>One execution per task type, numbered in increasing order from 1.\<close>

definition tasks_inv :: "JobExecution \<Rightarrow> bool" where
  "tasks_inv je = (distinct (map te_TaskType (je_Tasks je)) \<and>
     sorted_wrt (<) (0 # map te_TaskOrder (je_Tasks je)))"

subsection \<open>Lemmas on tasks\<close>

lemma task_index_find: "snd (task_index P i ts) = List.find P ts"
  by (induction ts arbitrary: i) auto

lemma GetTask_by_type:
  "snd (GetTask je [] ty) = (if ty = [] then None else List.find (\<lambda>t. te_TaskType t = ty) (je_Tasks je))"
  by (simp add: GetTask_def task_index_find)

lemma max_order_bound: "t \<in> set ts \<Longrightarrow> te_TaskOrder t \<le> max_order ts" and max_order_nonneg: "0 \<le> max_order ts"
proof -
  have "m \<le> fold (\<lambda>t m. if te_TaskOrder t > m then te_TaskOrder t else m) ts m \<and>
      (\<forall>t \<in> set ts. te_TaskOrder t \<le> fold (\<lambda>t m. if te_TaskOrder t > m then te_TaskOrder t else m) ts m)"
    for m
  proof (induction ts arbitrary: m)
    case (Cons a ts)
    from Cons[of "if te_TaskOrder a > m then te_TaskOrder a else m"] show ?case
      by (auto split: if_splits)
  qed simp
  from this[of 0] show "t \<in> set ts \<Longrightarrow> te_TaskOrder t \<le> max_order ts" "0 \<le> max_order ts"
    by (auto simp: max_order_def)
qed

lemma exec_AddTask_cases:
  assumes "td_TaskType task \<noteq> []"
  obtains (old) "td_TaskType task \<in> te_TaskType ` set (je_Tasks je)" "fst (exec_AddTask now je task) = je"
  | (new) te where "td_TaskType task \<notin> te_TaskType ` set (je_Tasks je)"
      "fst (exec_AddTask now je task) = je\<lparr>je_Tasks := je_Tasks je @ [te]\<rparr>"
      "te_TaskType te = td_TaskType task" "0 < te_TaskOrder te"
      "\<forall>t \<in> set (je_Tasks je). te_TaskOrder t < te_TaskOrder te"
proof (cases "snd (GetTask je [] (td_TaskType task))")
  case None
  let ?n = "NewTaskExecution now task"
  let ?te = "?n\<lparr>te_TaskOrder := max_order (je_Tasks je @ [?n]) + 1, te_JobExecutionID := je_ID je\<rparr>"
  have "fst (exec_AddTask now je task) = je\<lparr>je_Tasks := je_Tasks je @ [?te]\<rparr>"
    using None by (auto simp: exec_AddTask_def Let_def split: prod.splits)
  moreover have "td_TaskType task \<notin> te_TaskType ` set (je_Tasks je)"
    using None assms by (auto simp: GetTask_by_type find_None_iff)
  moreover have "\<forall>t \<in> set (je_Tasks je). te_TaskOrder t < te_TaskOrder ?te" "0 < te_TaskOrder ?te"
    using max_order_bound[of _ "je_Tasks je @ [?n]"] max_order_nonneg[of "je_Tasks je @ [?n]"] by force+
  ultimately show thesis by (intro new[of ?te]) (simp_all add: NewTaskExecution_def)
next
  case (Some t)
  then have "td_TaskType task \<in> te_TaskType ` set (je_Tasks je)"
    using assms by (auto simp: GetTask_by_type find_Some_iff image_iff) (metis nth_mem)
  moreover have "fst (exec_AddTask now je task) = je"
    using Some by (auto simp: exec_AddTask_def Let_def split: prod.splits)
  ultimately show thesis by (rule old)
qed

lemma exec_AddTask_inv:
  assumes "tasks_inv je" and "td_TaskType task \<noteq> []"
  shows "tasks_inv (fst (exec_AddTask now je task)) \<and>
     te_TaskType ` set (je_Tasks (fst (exec_AddTask now je task))) =
       insert (td_TaskType task) (te_TaskType ` set (je_Tasks je)) \<and>
     (\<exists>ts. je_Tasks (fst (exec_AddTask now je task)) = je_Tasks je @ ts)"
  using assms(2)
proof (cases rule: exec_AddTask_cases[where je = je and now = now])
  case old
  then show ?thesis using assms(1) by auto
next
  case (new te)
  then show ?thesis using assms(1) by (auto simp: tasks_inv_def sorted_wrt_append)
qed

lemma exec_AddTasks_props:
  assumes "tasks_inv je" and "\<forall>t \<in> set tasks. td_TaskType t \<noteq> []"
  shows "tasks_inv (exec_AddTasks now je tasks) \<and>
     te_TaskType ` set (je_Tasks (exec_AddTasks now je tasks)) =
       te_TaskType ` set (je_Tasks je) \<union> td_TaskType ` set tasks \<and>
     (\<exists>ts. je_Tasks (exec_AddTasks now je tasks) = je_Tasks je @ ts)"
  using assms
proof (induction tasks arbitrary: je)
  case (Cons t tasks)
  let ?je = "fst (exec_AddTask now je t)"
  have a: "tasks_inv ?je" "te_TaskType ` set (je_Tasks ?je) = insert (td_TaskType t) (te_TaskType ` set (je_Tasks je))"
    "\<exists>ts. je_Tasks ?je = je_Tasks je @ ts"
    using exec_AddTask_inv[of je t now] Cons.prems by auto
  from Cons.IH[OF a(1)] Cons.prems(2) a show ?case by (auto simp: exec_AddTasks_def)
qed (simp add: exec_AddTasks_def)

lemma GetLastExecutedTask_last:
  assumes "sorted_wrt (<) (map te_TaskOrder (je_Tasks je))"
  shows "GetLastExecutedTask je =
     (let done = filter (\<lambda>t. \<not> Processing (te_TaskState t)) (je_Tasks je)
      in if done = [] then None else Some (last done))"
proof -
  let ?P = "\<lambda>t. \<not> Processing (te_TaskState t)"
  have "fold (\<lambda>t last. if ?P t \<and> (case last of None \<Rightarrow> True | Some l \<Rightarrow> te_TaskOrder l < te_TaskOrder t)
        then Some t else last) ts acc =
      (if filter ?P ts = [] then acc else Some (last (filter ?P ts)))"
    if "sorted_wrt (<) (map te_TaskOrder ts)" "\<forall>l. acc = Some l \<longrightarrow> (\<forall>t \<in> set ts. te_TaskOrder l < te_TaskOrder t)"
    for ts acc
    using that by (induction ts arbitrary: acc) (auto split: option.splits)
  from this[OF assms, of None] show ?thesis by (simp add: GetLastExecutedTask_def)
qed

subsection \<open>Contexts are a named store\<close>

lemma job_AddContext_Ok:
  assumes "job_AddContext name v je = Ok je'"
  obtains ctx where "NewNameTypeValue name v False = Ok ctx" "nv_Name ctx = name"
    "(je_Contexts je', je_lookupContexts je') = rows_add ctx (je_Contexts je, je_lookupContexts je)"
  using assms
  by (auto simp: job_AddContext_def rows_add_def Let_def split: sum.splits dest: NewNameTypeValue_Ok)

interpretation job_ctx: named_store_delete
  job_AddContext job_GetContext je_Contexts job_inv job_DeleteContext
proof unfold_locales
  fix name v s s'
  assume "job_AddContext name v s = Ok s'"
  then obtain ctx where c: "NewNameTypeValue name v False = Ok ctx" "nv_Name ctx = name"
    "(je_Contexts s', je_lookupContexts s') = rows_add ctx (je_Contexts s, je_lookupContexts s)"
    by (rule job_AddContext_Ok)
  have "je_lookupContexts s' = snd (rows_add ctx (je_Contexts s, je_lookupContexts s))"
    using c(3) by (metis snd_conv)
  with c show "\<exists>nv. NewNameTypeValue name v False = Ok nv \<and>
      (\<forall>n. job_GetContext n s' = (if n = name then Some nv else job_GetContext n s))"
    by (simp add: job_GetContext_def)
next
  fix name v s e
  show "job_AddContext name v s = Err e \<longleftrightarrow> NewNameTypeValue name v False = Err e"
    by (auto simp: job_AddContext_def split: sum.splits)
next
  fix s name v s'
  assume "job_inv s" "job_AddContext name v s = Ok s'"
  then show "job_inv s'" by (elim job_AddContext_Ok) (simp add: job_inv_def rows_add_inv)
next
  fix s n x
  assume "job_inv s"
  then show "(\<exists>c \<in> set (je_Contexts s). nv_Name c = n \<and> nv_Value c = x) \<longleftrightarrow>
      (\<exists>l. job_GetContext n s = Some l \<and> nv_Value l = x)"
    using rows_inv_get[of "(je_Contexts s, je_lookupContexts s)" n x]
    by (simp add: job_inv_def job_GetContext_def)
next
  fix n name s
  show "job_GetContext n (job_DeleteContext name s) = (if n = name then None else job_GetContext n s)"
    by (simp add: job_GetContext_def job_DeleteContext_def)
next
  fix s name
  have "(je_Contexts (job_DeleteContext name s), je_lookupContexts (job_DeleteContext name s)) =
      rows_delete name (je_Contexts s, je_lookupContexts s)"
    by (simp add: job_DeleteContext_def rows_delete_def)
  moreover assume "job_inv s"
  ultimately show "job_inv (job_DeleteContext name s)"
    by (simp add: job_inv_def rows_delete_inv)
qed

subsection \<open>Saving and loading\<close>

lemma task_AfterLoad_Equals:
  assumes "task_inv t" and "te_TaskType t \<noteq> []" and "task_AfterLoad dec t = Ok t'"
  shows "te_ID t' = te_ID t" "te_TaskType t' = te_TaskType t" "task_Equals t' (Some t) = None"
proof -
  from assms(3) obtain lookup where l: "rows_load dec (te_Contexts t) [] = Ok lookup"
    and t': "t' = t\<lparr>te_lookupContexts := lookup\<rparr>"
    by (auto simp: task_AfterLoad_def split: sum.splits)
  have d: "distinct (map nv_Name (te_Contexts t))" using assms(1) by (simp add: task_inv_def rows_inv_def)
  show "te_ID t' = te_ID t" "te_TaskType t' = te_TaskType t" by (simp_all add: t')
  show "task_Equals t' (Some t) = None"
    using assms(2) rows_load_get[OF l d] rows_find_mem[OF d]
    by (auto simp: t' task_Equals_def task_exec_Validate_def contexts_differ_None)
qed

lemma load_tasks_Ok:
  "load_tasks dec ts = Ok ts' \<Longrightarrow> length ts' = length ts \<and>
     (\<forall>i < length ts. task_AfterLoad dec (ts ! i) = Ok (ts' ! i))"
proof (induction ts arbitrary: ts')
  case (Cons t ts)
  then show ?case by (auto split: sum.splits simp: nth_Cons')
qed simp

lemma find_distinct:
  "distinct (map f xs) \<Longrightarrow> x \<in> set xs \<Longrightarrow> List.find (\<lambda>y. f y = f x) xs = Some x"
  by (induction xs) auto

lemma GetTask_self:
  assumes "distinct (map te_ID (je_Tasks je))" and "distinct (map te_TaskType (je_Tasks je))"
    and "t \<in> set (je_Tasks je)" and "te_TaskType t \<noteq> []"
  shows "snd (GetTask je (te_ID t) (te_TaskType t)) = Some t"
  using assms find_distinct[of te_ID "je_Tasks je" t] find_distinct[of te_TaskType "je_Tasks je" t]
  by (simp add: GetTask_def task_index_find)

lemma tasks_differ_None:
  "tasks_differ je ts = None \<longleftrightarrow> (\<forall>t \<in> set ts. \<exists>t'. snd (GetTask je (te_ID t) (te_TaskType t)) = Some t' \<and>
     task_Equals t (Some t') = None)"
  by (induction ts) (auto split: option.splits)

lemma first_invalid_None: "first_invalid ts = None \<longleftrightarrow> (\<forall>t \<in> set ts. te_TaskType t \<noteq> [])"
  by (induction ts) (auto simp: task_exec_Validate_def split: option.splits)

subsection \<open>Properties\<close>

text \<open>C33: Adding any tasks to an execution keeps one execution per task type, numbered in
  increasing order from one; it appends to the tasks that were there and covers every type asked
  for; and the last executed task is the last one of the list that is no longer processing.\<close>

theorem exec_AddTasks_inv:
  assumes "tasks_inv je" and "\<forall>t \<in> set tasks. td_TaskType t \<noteq> []"
    and "je' = exec_AddTasks now je tasks"
  shows "tasks_inv je' \<and> (\<exists>ts. je_Tasks je' = je_Tasks je @ ts) \<and>
     te_TaskType ` set (je_Tasks je') = te_TaskType ` set (je_Tasks je) \<union> td_TaskType ` set tasks \<and>
     GetLastExecutedTask je' =
       (let done = filter (\<lambda>t. \<not> Processing (te_TaskState t)) (je_Tasks je')
        in if done = [] then None else Some (last done))"
proof -
  note p = exec_AddTasks_props[OF assms(1,2), of now]
  have "sorted_wrt (<) (map te_TaskOrder (je_Tasks je'))"
    using p by (simp add: assms(3) tasks_inv_def)
  with p show ?thesis by (simp add: assms(3) GetLastExecutedTask_last)
qed

theorem exec_AddTasks_inv_witness:
  "tasks_inv (exec_AddTasks 0 (NewJobExecution 0 ''r'' ''j'' [] [] [])
     [NewTaskDefinition ''a'' Shell, NewTaskDefinition ''b'' Shell, NewTaskDefinition ''a'' Shell])"
proof -
  have "tasks_inv (NewJobExecution 0 ''r'' ''j'' [] [] [])"
    by (simp add: tasks_inv_def NewJobExecution_def)
  from exec_AddTasks_inv[OF this _ refl, of
      "[NewTaskDefinition ''a'' Shell, NewTaskDefinition ''b'' Shell, NewTaskDefinition ''a'' Shell]" 0]
  show ?thesis by (simp add: NewTaskDefinition_def)
qed



end
