(* ===== verification/Job_Request.thy ===== *)
theory Job_Request
  imports Job_Execution
begin

text \<open>
  Job requests (\<open>queen/types/job_request.go\<close>, with the key of \<open>job_request_info.go\<close>): the record,
  its parameters with their lookup map and their values, editing rights, counters, comparison,
  reloading and validation before saving.

  A request's \<open>ScheduledAt\<close> is None for the zero time.  When a parameter row does not parse,
  loading returns the error only; the partly rebuilt lookup maps are not modelled.

  The parameters of a request are a named store; the interpretation \<open>req_params\<close> proves it.
\<close>

record JobRequest =
  jr_ID :: string
  jr_ParentID :: string
  jr_UserKey :: string
  jr_JobDefinitionID :: string
  jr_JobExecutionID :: string
  jr_LastJobExecutionID :: string
  jr_OrganizationID :: string
  jr_UserID :: string
  jr_Description :: string
  jr_Platform :: string
  jr_JobType :: string
  jr_JobVersion :: string
  jr_JobState :: RequestState
  jr_JobGroup :: string
  jr_JobPriority :: int
  jr_Timeout :: int
  jr_ScheduleAttempts :: int
  jr_Retried :: int
  jr_PausedCount :: int
  jr_CronTriggered :: bool
  jr_QuickSearch :: string
  jr_ErrorCode :: string
  jr_ErrorMessage :: string
  jr_CurrentTask :: string
  jr_Params :: "NameTypeValue list"
  jr_ScheduledAt :: "int option"
  jr_CreatedAt :: int
  jr_UpdatedAt :: int
  jr_HardRestart :: bool
  jr_CascadeCancel :: bool
  jr_NameValueParams :: "(string, any) gomap"
  jr_lookupParams :: "(string, NameTypeValue) gomap"

definition NewRequest :: "int \<Rightarrow> JobRequest" where
  "NewRequest now =
     \<lparr>jr_ID = [], jr_ParentID = [], jr_UserKey = [], jr_JobDefinitionID = [], jr_JobExecutionID = [],
      jr_LastJobExecutionID = [], jr_OrganizationID = [], jr_UserID = [], jr_Description = [],
      jr_Platform = [], jr_JobType = [], jr_JobVersion = [], jr_JobState = PENDING, jr_JobGroup = [],
      jr_JobPriority = 0, jr_Timeout = 0, jr_ScheduleAttempts = 0, jr_Retried = 0, jr_PausedCount = 0,
      jr_CronTriggered = False, jr_QuickSearch = [], jr_ErrorCode = [], jr_ErrorMessage = [],
      jr_CurrentTask = [], jr_Params = [], jr_ScheduledAt = Some now, jr_CreatedAt = now,
      jr_UpdatedAt = now, jr_HardRestart = False, jr_CascadeCancel = False,
      jr_NameValueParams = [], jr_lookupParams = []\<rparr>"

text \<open>\<open>cron\<close> and \<open>format\<close> as in \<open>Job_Definition\<close>; None is the panic of a malformed expression.\<close>

definition UpdateUserKeyFromScheduleIfCronJob ::
  "(string \<Rightarrow> (int \<Rightarrow> int option) option) \<Rightarrow> (int \<Rightarrow> string) \<Rightarrow> int \<Rightarrow> JobDefinition \<Rightarrow> JobRequest \<Rightarrow>
   JobRequest option" where
  "UpdateUserKeyFromScheduleIfCronJob cron format now job jr =
     (case GetCronScheduleTimeAndUserKey cron format now job of
        None \<Rightarrow> None
      | Some (None, _) \<Rightarrow> Some jr
      | Some (Some scheduledAt, userKey) \<Rightarrow>
          Some (jr\<lparr>jr_ScheduledAt := Some scheduledAt, jr_UserKey := userKey, jr_CronTriggered := True\<rparr>))"

datatype request_error = JobDisabled string | CronMalformed | BadParam value_error
  | RequestNoJobType | RequestNoJobDefinitionID | RequestNoJobState | RequestNoScheduledAt
  | OtherNil | Differs string | ParamDiffers string

definition NewJobRequestFromDefinition ::
  "(string \<Rightarrow> (int \<Rightarrow> int option) option) \<Rightarrow> (int \<Rightarrow> string) \<Rightarrow> int \<Rightarrow> JobDefinition \<Rightarrow>
   (request_error, JobRequest) result" where
  "NewJobRequestFromDefinition cron format now job =
     (if jd_Disabled job then Err (JobDisabled (jd_JobType job))
      else case UpdateUserKeyFromScheduleIfCronJob cron format now job
             ((NewRequest now)\<lparr>jr_JobType := jd_JobType job, jr_JobVersion := jd_SemVersion job,
                jr_JobDefinitionID := jd_ID job, jr_Platform := jd_Platform job,
                jr_UserID := jd_UserID job, jr_OrganizationID := jd_OrganizationID job\<rparr>) of
             None \<Rightarrow> Err CronMalformed
           | Some jr \<Rightarrow> Ok jr)"

definition request_Editable :: "JobRequest \<Rightarrow> string \<Rightarrow> string \<Rightarrow> bool" where
  "request_Editable jr userID organizationID =
     (if jr_OrganizationID jr \<noteq> [] \<or> organizationID \<noteq> [] then jr_OrganizationID jr = organizationID
      else jr_UserID jr = userID)"

definition GetParam :: "string \<Rightarrow> JobRequest \<Rightarrow> NameTypeValue option" where
  "GetParam name jr = mget (jr_lookupParams jr) name"

definition IncrRetried :: "JobRequest \<Rightarrow> JobRequest" where
  "IncrRetried jr = jr\<lparr>jr_Retried := i64 (jr_Retried jr + 1)\<rparr>"

definition IncrPausedCount :: "JobRequest \<Rightarrow> JobRequest" where
  "IncrPausedCount jr = jr\<lparr>jr_PausedCount := i64 (jr_PausedCount jr + 1)\<rparr>"

definition SetJobState :: "RequestState \<Rightarrow> JobRequest \<Rightarrow> JobRequest" where
  "SetJobState state jr = jr\<lparr>jr_JobState := state\<rparr>"

definition getUserJobTypeKey :: "string \<Rightarrow> string \<Rightarrow> string \<Rightarrow> string \<Rightarrow> string" where
  "getUserJobTypeKey organizationID userID jobType jobVersion =
     (if organizationID = [] then userID else organizationID) @ ''-'' @ jobType @ '':'' @ jobVersion"

subsection \<open>Parameters\<close>

definition ClearParams :: "JobRequest \<Rightarrow> JobRequest" where
  "ClearParams jr = jr\<lparr>jr_lookupParams := [], jr_NameValueParams := [], jr_Params := []\<rparr>"

definition AddParam :: "string \<Rightarrow> any \<Rightarrow> JobRequest \<Rightarrow> (value_error, JobRequest) result" where
  "AddParam name v jr =
     (case NewNameTypeValue name v False of
        Inl e \<Rightarrow> Err e
      | Inr param \<Rightarrow>
          Ok (jr\<lparr>jr_Params :=
                   (if mget (jr_lookupParams jr) name = None then jr_Params jr @ [param]
                    else map (\<lambda>next. if nv_Name next = name then next\<lparr>nv_Value := nv_Value param\<rparr> else next)
                           (jr_Params jr)),
                 jr_lookupParams := mset name param (jr_lookupParams jr),
                 jr_NameValueParams := mset name v (jr_NameValueParams jr)\<rparr>))"

definition request_AfterLoad ::
  "(string \<Rightarrow> string \<Rightarrow> any option) \<Rightarrow> JobRequest \<Rightarrow> (value_error, JobRequest) result" where
  "request_AfterLoad dec jr =
     (case rows_load dec (jr_Params jr) [] of
        Inl e \<Rightarrow> Err e
      | Inr lookup \<Rightarrow> Ok (jr\<lparr>jr_lookupParams := lookup, jr_NameValueParams := rows_map dec (jr_Params jr)\<rparr>))"

text \<open>The last of the missing fields is the error that is returned.\<close>

definition request_Validate ::
  "(string \<Rightarrow> string \<Rightarrow> any option) \<Rightarrow> JobRequest \<Rightarrow> JobRequest \<times> request_error option" where
  "request_Validate dec jr =
     (case request_AfterLoad dec jr of
        Inl e \<Rightarrow> (jr, Some (BadParam e))
      | Inr jr1 \<Rightarrow>
          (jr1,
           if jr_ScheduledAt jr1 = None then Some RequestNoScheduledAt
           else if jr_JobState jr1 = NoState then Some RequestNoJobState
           else if jr_JobDefinitionID jr1 = [] then Some RequestNoJobDefinitionID
           else if jr_JobType jr1 = [] then Some RequestNoJobType
           else None))"

definition UpdateScheduledAtFromCronTrigger ::
  "(string \<Rightarrow> (int \<Rightarrow> int option) option) \<Rightarrow> (int \<Rightarrow> string) \<Rightarrow> int \<Rightarrow> JobDefinition \<Rightarrow> JobRequest \<Rightarrow>
   (JobRequest \<times> bool) option" where
  "UpdateScheduledAtFromCronTrigger cron format now jd jr =
     (case GetCronScheduleTimeAndUserKey cron format now jd of
        None \<Rightarrow> None
      | Some (None, _) \<Rightarrow> Some (jr, False)
      | Some (Some date, userKey) \<Rightarrow> Some (jr\<lparr>jr_ScheduledAt := Some date, jr_UserKey := userKey\<rparr>, True))"

definition quick_search_text :: "JobRequest \<Rightarrow> string" where
  "quick_search_text jr =
     join '' '' [jr_Description jr, jr_Platform jr, jr_JobType jr, jr_ErrorCode jr, jr_ErrorMessage jr] @ '';'' @
     concat (map (\<lambda>(k, v). k @ ''='' @ (case value_text v of None \<Rightarrow> [] | Some t \<Rightarrow> t)) (jr_NameValueParams jr))"

definition updateQuickSearch ::
  "(string \<Rightarrow> string \<Rightarrow> any option) \<Rightarrow> JobRequest \<Rightarrow> JobRequest \<times> request_error option" where
  "updateQuickSearch dec jr =
     (case add_all AddParam (jr_NameValueParams jr) jr of
        Inl e \<Rightarrow> (jr, Some (BadParam e))
      | Inr jr1 \<Rightarrow> request_Validate dec (jr1\<lparr>jr_QuickSearch := take 1000 (quick_search_text jr)\<rparr>))"

definition request_ValidateBeforeSave ::
  "(string \<Rightarrow> string \<Rightarrow> any option) \<Rightarrow> JobRequest \<Rightarrow> (request_error, JobRequest) result" where
  "request_ValidateBeforeSave dec jr =
     (case add_all AddParam (jr_NameValueParams jr) jr of
        Inl e \<Rightarrow> Err (BadParam e)
      | Inr jr1 \<Rightarrow>
          (case request_Validate dec (fst (updateQuickSearch dec jr1)) of
             (jr2, None) \<Rightarrow> Ok jr2
           | (jr2, Some e) \<Rightarrow> Err e))"

subsection \<open>Parameters are a named store\<close>

definition req_inv :: "JobRequest \<Rightarrow> bool" where
  "req_inv jr = rows_inv (jr_Params jr, jr_lookupParams jr)"

text \<open>Every row is the row of the value that is kept under its name.\<close>

definition rows_of_values :: "JobRequest \<Rightarrow> bool" where
  "rows_of_values jr = (\<forall>c \<in> set (jr_Params jr). \<exists>v. mget (jr_NameValueParams jr) (nv_Name c) = Some v \<and>
     NewNameTypeValue (nv_Name c) v False = Ok c)"

lemma AddParam_Ok:
  assumes "AddParam name v jr = Ok jr'"
  obtains ctx where "NewNameTypeValue name v False = Ok ctx" "nv_Name ctx = name"
    "(jr_Params jr', jr_lookupParams jr') = rows_add ctx (jr_Params jr, jr_lookupParams jr)"
    "jr_NameValueParams jr' = mset name v (jr_NameValueParams jr)"
  using assms
  by (auto simp: AddParam_def rows_add_def Let_def split: sum.splits dest: NewNameTypeValue_Ok)

interpretation req_params: named_store AddParam GetParam jr_Params req_inv
proof unfold_locales
  fix name v s s'
  assume "AddParam name v s = Ok s'"
  then obtain ctx where c: "NewNameTypeValue name v False = Ok ctx" "nv_Name ctx = name"
    "(jr_Params s', jr_lookupParams s') = rows_add ctx (jr_Params s, jr_lookupParams s)"
    by (rule AddParam_Ok)
  have "jr_lookupParams s' = snd (rows_add ctx (jr_Params s, jr_lookupParams s))"
    using c(3) by (metis snd_conv)
  with c show "\<exists>nv. NewNameTypeValue name v False = Ok nv \<and>
      (\<forall>n. GetParam n s' = (if n = name then Some nv else GetParam n s))"
    by (simp add: GetParam_def)
next
  fix name v s e
  show "AddParam name v s = Err e \<longleftrightarrow> NewNameTypeValue name v False = Err e"
    by (auto simp: AddParam_def split: sum.splits)
next
  fix s name v s'
  assume "req_inv s" "AddParam name v s = Ok s'"
  then show "req_inv s'" by (elim AddParam_Ok) (simp add: req_inv_def rows_add_inv)
next
  fix s n x
  assume "req_inv s"
  then show "(\<exists>c \<in> set (jr_Params s). nv_Name c = n \<and> nv_Value c = x) \<longleftrightarrow>
      (\<exists>l. GetParam n s = Some l \<and> nv_Value l = x)"
    using rows_inv_get[of "(jr_Params s, jr_lookupParams s)" n x]
    by (simp add: req_inv_def GetParam_def)
qed

text \<open>Adding a value that is already kept under its name does not disturb the rows.\<close>

lemma AddParam_rows_of_values:
  assumes "req_inv jr" and "rows_of_values jr" and "mget (jr_NameValueParams jr) k = Some v"
    and "AddParam k v jr = Ok jr'"
  shows "rows_of_values jr'" "\<forall>n. mget (jr_NameValueParams jr') n = mget (jr_NameValueParams jr) n"
    "\<exists>rest. jr_Params jr' = jr_Params jr @ rest"
proof -
  from assms(4) obtain ctx where ctx: "NewNameTypeValue k v False = Ok ctx" "nv_Name ctx = k"
    and rows: "(jr_Params jr', jr_lookupParams jr') = rows_add ctx (jr_Params jr, jr_lookupParams jr)"
    and vals: "jr_NameValueParams jr' = mset k v (jr_NameValueParams jr)"
    by (rule AddParam_Ok)
  show nvp: "\<forall>n. mget (jr_NameValueParams jr') n = mget (jr_NameValueParams jr) n"
    using assms(3) by (simp add: vals)
  have same: "c\<lparr>nv_Value := nv_Value ctx\<rparr> = c" if "c \<in> set (jr_Params jr)" "nv_Name c = k" for c
  proof -
    from assms(2) that obtain v' where "mget (jr_NameValueParams jr) k = Some v'"
      "NewNameTypeValue k v' False = Ok c" unfolding rows_of_values_def by blast
    with assms(3) ctx have "c = ctx" by simp
    then show ?thesis by simp
  qed
  have upd: "map (\<lambda>next. if nv_Name next = k then next\<lparr>nv_Value := nv_Value ctx\<rparr> else next) (jr_Params jr) =
      jr_Params jr"
    using same by (intro map_idI) auto
  have p: "jr_Params jr' = jr_Params jr \<or> jr_Params jr' = jr_Params jr @ [ctx]"
    using rows ctx(2) upd by (auto simp: rows_add_def Let_def split: if_splits)
  then show "\<exists>rest. jr_Params jr' = jr_Params jr @ rest" by auto
  show "rows_of_values jr'"
    using p assms(2,3) ctx nvp by (auto simp: rows_of_values_def)
qed

lemma add_all_rows_of_values:
  assumes "req_inv jr" "rows_of_values jr" "add_all AddParam ps jr = Ok jr'"
    and "\<forall>(k, v) \<in> set ps. mget (jr_NameValueParams jr) k = Some v"
  shows "req_inv jr' \<and> rows_of_values jr' \<and> (\<forall>n. mget (jr_NameValueParams jr') n = mget (jr_NameValueParams jr) n) \<and>
     (\<forall>n. GetParam n jr \<noteq> None \<or> n \<in> fst ` set ps \<longrightarrow> GetParam n jr' \<noteq> None)"
  using assms
proof (induction ps arbitrary: jr)
  case (Cons p ps)
  obtain k v where p: "p = (k, v)" by fastforce
  from Cons.prems(3) obtain jr1 where a: "AddParam k v jr = Ok jr1" and r: "add_all AddParam ps jr1 = Ok jr'"
    by (auto simp: p split: sum.splits)
  have kv: "mget (jr_NameValueParams jr) k = Some v" using Cons.prems(4) by (simp add: p)
  note s = AddParam_rows_of_values[OF Cons.prems(1,2) kv a]
  have g: "GetParam n jr1 \<noteq> None \<longleftrightarrow> n = k \<or> GetParam n jr \<noteq> None" for n
    using req_params.add_ok[OF a] by auto
  from Cons.IH[OF req_params.add_inv[OF Cons.prems(1) a] s(1) r] Cons.prems(4) s(2) g p
  show ?case by auto
qed simp

lemma rows_map_get:
  assumes "distinct (map nv_Name rows)" and "c \<in> set rows" and "GetParsedValue dec c = Ok v"
  shows "mget (rows_map dec rows) (nv_Name c) = Some v"
proof -
  have "mget (fold (\<lambda>c m. case GetParsedValue dec c of Inl _ \<Rightarrow> m | Inr v \<Rightarrow> mset (nv_Name c) v m) rows m) (nv_Name c) =
      Some v" if "distinct (map nv_Name rows)" "c \<in> set rows \<or> mget m (nv_Name c) = Some v \<and> nv_Name c \<notin> nv_Name ` set rows"
    for m
    using that assms(3)
  proof (induction rows arbitrary: m)
    case (Cons d rows)
    show ?case
    proof (cases "c = d")
      case True
      with Cons show ?thesis by auto
    next
      case False
      with Cons.prems(1,2) Cons.prems(3) show ?thesis
        by (auto intro!: Cons.IH split: sum.splits)
    qed
  qed simp
  with assms show ?thesis by (simp add: rows_map_def)
qed

lemma request_Validate_Params: "jr_Params (fst (request_Validate dec jr)) = jr_Params jr"
  by (auto simp: request_Validate_def request_AfterLoad_def split: sum.splits)

lemma request_Validate_Ok:
  assumes "request_Validate dec jr = (jr', None)"
  shows "rows_load dec (jr_Params jr) [] = Ok (jr_lookupParams jr')" "jr_Params jr' = jr_Params jr"
    "jr_NameValueParams jr' = rows_map dec (jr_Params jr)"
    "jr_ScheduledAt jr' \<noteq> None \<and> jr_JobState jr' \<noteq> NoState \<and> jr_JobDefinitionID jr' \<noteq> [] \<and> jr_JobType jr' \<noteq> []"
  using assms
  by (auto simp: request_Validate_def request_AfterLoad_def split: sum.splits if_splits)

lemma add_all_values_mwf:
  "add_all AddParam ps jr = Ok jr' \<Longrightarrow> mwf (jr_NameValueParams jr) \<Longrightarrow> mwf (jr_NameValueParams jr')"
proof (induction ps arbitrary: jr)
  case (Cons p ps)
  then obtain jr1 where "AddParam (fst p) (snd p) jr = Ok jr1" "add_all AddParam ps jr1 = Ok jr'"
    by (auto split: sum.splits)
  with Cons show ?case by (auto elim!: AddParam_Ok)
qed simp

text \<open>The rows after the parameters were added twice are those after the first time.\<close>

lemma ValidateBeforeSave_rows:
  assumes "req_inv jr" and "rows_of_values jr" and "mwf (jr_NameValueParams jr)"
    and "request_ValidateBeforeSave dec jr = Ok jr'"
  shows "\<exists>jr2. req_inv jr2 \<and> rows_of_values jr2 \<and>
     (\<forall>n. mget (jr_NameValueParams jr2) n = mget (jr_NameValueParams jr) n) \<and>
     (\<forall>n v. mget (jr_NameValueParams jr) n = Some v \<longrightarrow> GetParam n jr2 \<noteq> None) \<and>
     jr_Params jr' = jr_Params jr2 \<and> request_Validate dec (jr'\<lparr>jr_lookupParams := []\<rparr>) = (jr', None)"
proof -
  let ?ps = "jr_NameValueParams jr"
  from assms(4) obtain jr1 where a1: "add_all AddParam ?ps jr = Ok jr1"
    and val: "request_Validate dec (fst (updateQuickSearch dec jr1)) = (jr', None)"
    by (auto simp: request_ValidateBeforeSave_def split: sum.splits prod.splits option.splits)
  have ps: "\<forall>(k, v) \<in> set ?ps. mget ?ps k = Some v" using assms(3) by (auto simp: mget_eq_Some_iff)
  note r1 = add_all_rows_of_values[OF assms(1,2) a1 ps]
  have w1: "mwf (jr_NameValueParams jr1)" by (rule add_all_values_mwf[OF a1 assms(3)])
  have ps1: "\<forall>(k, v) \<in> set (jr_NameValueParams jr1). mget (jr_NameValueParams jr1) k = Some v"
    using w1 by (auto simp: mget_eq_Some_iff)
  have cov: "n \<in> fst ` set ?ps" if "mget ?ps n = Some v" for n v
    using that mget_None_iff[of ?ps n] by (simp add: mkeys_def)
  obtain jr2 where jr2: "req_inv jr2" "rows_of_values jr2"
    "\<forall>n. mget (jr_NameValueParams jr2) n = mget ?ps n" "\<forall>n. GetParam n jr1 \<noteq> None \<longrightarrow> GetParam n jr2 \<noteq> None"
    "jr_Params (fst (updateQuickSearch dec jr1)) = jr_Params jr2"
  proof (cases "add_all AddParam (jr_NameValueParams jr1) jr1")
    case (Inl e)
    with r1 show thesis by (intro that[of jr1]) (simp_all add: updateQuickSearch_def)
  next
    case (Inr jr2)
    with r1 add_all_rows_of_values[OF _ _ Inr ps1] show thesis
      by (intro that[of jr2]) (simp_all add: updateQuickSearch_def request_Validate_Params)
  qed
  note v = request_Validate_Ok[OF val]
  have "request_Validate dec (jr'\<lparr>jr_lookupParams := []\<rparr>) = (jr', None)"
    using v by (simp add: request_Validate_def request_AfterLoad_def)
  with jr2 v r1 cov show ?thesis by (intro exI[of _ jr2]) auto
qed

subsection \<open>Properties\<close>

text \<open>Preparing a new request for saving stores every parameter it was given: each name has one
  row with the text and the kind of its value, which is found by name and parses to the value kept
  afterwards; and the request has its mandatory fields.\<close>

theorem request_params_saved:
  assumes "jr_Params jr = []" and "jr_lookupParams jr = []" and "mwf (jr_NameValueParams jr)"
    and "request_ValidateBeforeSave dec jr = Ok jr'"
  shows "req_inv jr' \<and>
     (\<forall>k v. mget (jr_NameValueParams jr) k = Some v \<longrightarrow>
        (\<exists>nv pv. NewNameTypeValue k v False = Ok nv \<and> nv \<in> set (jr_Params jr') \<and> GetParam k jr' = Some nv \<and>
           GetParsedValue dec nv = Ok pv \<and> mget (jr_NameValueParams jr') k = Some pv)) \<and>
     jr_JobType jr' \<noteq> [] \<and> jr_JobDefinitionID jr' \<noteq> [] \<and> jr_JobState jr' \<noteq> NoState \<and>
     jr_ScheduledAt jr' \<noteq> None"
proof -
  have "req_inv jr" "rows_of_values jr" using assms(1,2) by (simp_all add: req_inv_def rows_of_values_def)
  from ValidateBeforeSave_rows[OF this assms(3,4)] obtain jr2 where jr2: "req_inv jr2" "rows_of_values jr2"
    "\<forall>n. mget (jr_NameValueParams jr2) n = mget (jr_NameValueParams jr) n"
    "\<forall>n v. mget (jr_NameValueParams jr) n = Some v \<longrightarrow> GetParam n jr2 \<noteq> None"
    "jr_Params jr' = jr_Params jr2" and val: "request_Validate dec (jr'\<lparr>jr_lookupParams := []\<rparr>) = (jr', None)"
    by blast
  note v = request_Validate_Ok[OF val, simplified]
  have d: "distinct (map nv_Name (jr_Params jr'))" using jr2(1,5) by (simp add: req_inv_def rows_inv_def)
  have "\<exists>nv pv. NewNameTypeValue k x False = Ok nv \<and> nv \<in> set (jr_Params jr') \<and> GetParam k jr' = Some nv \<and>
      GetParsedValue dec nv = Ok pv \<and> mget (jr_NameValueParams jr') k = Some pv"
    if kx: "mget (jr_NameValueParams jr) k = Some x" for k x
  proof -
    from jr2(4) kx obtain l where "GetParam k jr2 = Some l" by blast
    then obtain nv where nv: "nv \<in> set (jr_Params jr')" "nv_Name nv = k"
      using req_params.rows_get[OF jr2(1), of k "nv_Value l"] jr2(5) by auto
    then have new: "NewNameTypeValue k x False = Ok nv" using jr2(2,3,5) kx by (auto simp: rows_of_values_def)
    have "is_ok (GetParsedValue dec nv)"
      using v(1) nv(1) rows_load_Ok_iff[of dec "jr_Params jr'" "[]"] by (simp add: is_ok_def[of "Inr _"])
    then obtain pv where pv: "GetParsedValue dec nv = Ok pv" by (auto simp: is_ok_def split: sum.splits)
    have "GetParam k jr' = Some nv"
      using rows_load_get[OF v(1) d, of k] rows_find_mem[OF d nv(1)] nv(2) by (simp add: GetParam_def)
    with nv new pv rows_map_get[OF d nv(1) pv] v(3) show ?thesis by auto
  qed
  then show ?thesis using v rows_load_inv[OF v(1) d] by (simp add: req_inv_def)
qed

theorem request_params_saved_witness:
  "let jr = (NewRequest 0)\<lparr>jr_JobType := ''j'', jr_JobDefinitionID := ''d'',
       jr_NameValueParams := [(''a'', AnyString ''x''), (''b'', AnyBool True)]\<rparr>
   in \<exists>jr'. request_ValidateBeforeSave (\<lambda>k t. None) jr = Ok jr' \<and>
        (\<exists>nv. GetParam ''b'' jr' = Some nv \<and> nv_Value nv = ''true'')"
proof -
  let ?jr = "(NewRequest 0)\<lparr>jr_JobType := ''j'', jr_JobDefinitionID := ''d'',
       jr_NameValueParams := [(''a'', AnyString ''x''), (''b'', AnyBool True)]\<rparr>"
  have "is_ok (request_ValidateBeforeSave (\<lambda>k t. None) ?jr)"
    by (simp add: is_ok_def request_ValidateBeforeSave_def AddParam_def NewNameTypeValue_def
        maxConfigValueLength_def updateQuickSearch_def request_Validate_def request_AfterLoad_def
        GetParsedValue_def NewRequest_def gomap_eval)
  then obtain jr' where r: "request_ValidateBeforeSave (\<lambda>k t. None) ?jr = Ok jr'"
    by (auto simp: is_ok_def split: sum.splits)
  have "jr_Params ?jr = []" "jr_lookupParams ?jr = []" "mwf (jr_NameValueParams ?jr)"
    by (simp_all add: NewRequest_def mwf_def)
  from request_params_saved[OF this r] obtain nv where
    "NewNameTypeValue ''b'' (AnyBool True) False = Ok nv" "GetParam ''b'' jr' = Some nv"
    by (force simp: mget_Cons)
  moreover from this have "nv_Value nv = ''true''" by (auto dest: NewNameTypeValue_Ok)
  ultimately show ?thesis using r by auto
qed

end
