(* ===== verification/Access_Control.thy ===== *)
theory Access_Control
  imports Job_Definition
begin

text \<open>
  Permissions and roles (\<open>internal/acl/permission.go\<close>, \<open>internal/acl/role.go\<close>): a permission is a
  resource with a bit mask of actions; both permissions and roles have a text form that is stored
  with the user.  A resource and a role type are Go strings.  Bit masks are integers, with the
  bitwise operations of two's complement.
\<close>

unbundle bit_operations_syntax

subsection \<open>Actions\<close>

abbreviation act_None :: int where "act_None \<equiv> 0"
abbreviation act_Execute :: int where "act_Execute \<equiv> 1"
abbreviation act_Create :: int where "act_Create \<equiv> 2"
abbreviation act_Read :: int where "act_Read \<equiv> 4"
abbreviation act_View :: int where "act_View \<equiv> 4"
abbreviation act_Query :: int where "act_Query \<equiv> 8"
abbreviation act_Write :: int where "act_Write \<equiv> 16"
abbreviation act_Update :: int where "act_Update \<equiv> 16"
abbreviation act_Verify :: int where "act_Verify \<equiv> 16"
abbreviation act_Delete :: int where "act_Delete \<equiv> 32"
abbreviation act_Submit :: int where "act_Submit \<equiv> 64"
abbreviation act_Cancel :: int where "act_Cancel \<equiv> 128"
abbreviation act_Pause :: int where "act_Pause \<equiv> 128"
abbreviation act_Restart :: int where "act_Restart \<equiv> 256"
abbreviation act_Trigger :: int where "act_Trigger \<equiv> 256"
abbreviation act_Invite :: int where "act_Invite \<equiv> 512"
abbreviation act_Upload :: int where "act_Upload \<equiv> 1024"
abbreviation act_Login :: int where "act_Login \<equiv> 2048"
abbreviation act_Logout :: int where "act_Logout \<equiv> 4096"
abbreviation act_Signup :: int where "act_Signup \<equiv> 8192"
abbreviation act_Disable :: int where "act_Disable \<equiv> 16384"
abbreviation act_Enable :: int where "act_Enable \<equiv> 32768"
abbreviation act_Metrics :: int where "act_Metrics \<equiv> 65536"
abbreviation act_Subscribe :: int where "act_Subscribe \<equiv> 131072"
abbreviation act_Register :: int where "act_Register \<equiv> 262144"
abbreviation act_Approve :: int where "act_Approve \<equiv> 524288"
abbreviation act_All :: int where "act_All \<equiv> 1073741824"

subsection \<open>Permissions\<close>

record Permission =
  pm_Resource :: string
  pm_Actions :: int

definition NewPermission :: "string \<Rightarrow> int \<Rightarrow> Permission" where
  "NewPermission resource actions = \<lparr>pm_Resource = resource, pm_Actions = actions\<rparr>"

definition WildAll :: "Permission \<Rightarrow> bool" where
  "WildAll p = (pm_Actions p = act_All \<or> pm_Actions p < 0)"

definition permission_Has :: "Permission \<Rightarrow> int \<Rightarrow> bool" where
  "permission_Has p action = (WildAll p \<or> pm_Actions p AND action = action)"

definition ReadOnly :: "Permission \<Rightarrow> bool" where
  "ReadOnly p = (permission_Has p act_None \<or> permission_Has p act_Read \<or> permission_Has p act_View \<or>
     permission_Has p act_Query \<or> permission_Has p act_Verify \<or> permission_Has p act_Metrics \<or>
     permission_Has p act_Subscribe)"

definition permission_String :: "Permission \<Rightarrow> string" where
  "permission_String p = pm_Resource p @ ''='' @ int_string (pm_Actions p)"

definition action_names :: "(int \<times> string) list" where
  "action_names = [(act_Execute, ''Execute ''), (act_Create, ''Create ''), (act_Read, ''Read ''),
     (act_View, ''View ''), (act_Query, ''Query ''), (act_Write, ''Write ''), (act_Verify, ''Verify ''),
     (act_Update, ''Update ''), (act_Delete, ''Delete ''), (act_Submit, ''Submit ''),
     (act_Cancel, ''Cancel ''), (act_Restart, ''Restart ''), (act_Trigger, ''Trigger ''),
     (act_Invite, ''Invite ''), (act_Upload, ''Upload ''), (act_Login, ''Login ''),
     (act_Logout, ''Logout ''), (act_Signup, ''Signup ''), (act_Disable, ''Disable ''),
     (act_Enable, ''Enable ''), (act_Metrics, ''Metrics ''), (act_Subscribe, ''Subscribe ''),
     (act_Register, ''Register'')]"

definition LongAction :: "Permission \<Rightarrow> string" where
  "LongAction p =
     (if WildAll p then ''*''
      else TrimSpace (concat (map snd (filter (\<lambda>(a, n). pm_Actions p AND a = a) action_names))))"

text \<open>A string builder: a separator is written when the text so far is not empty.\<close>

definition build_text :: "string list \<Rightarrow> string" where
  "build_text parts = fold (\<lambda>s sb. (if length sb > 0 then sb @ '';'' else sb) @ s) parts []"

definition MarshalPermissions :: "Permission list \<Rightarrow> string" where
  "MarshalPermissions perms =
     (if length perms = 0 then [] else build_text (map permission_String perms))"

definition parse_permission :: "string \<Rightarrow> Permission option" where
  "parse_permission line =
     (case SplitChar (CHR ''='') line of
        [resource, action] \<Rightarrow>
          map_option (NewPermission (TrimSpace resource)) (ParseInt (TrimSpace action))
      | _ \<Rightarrow> None)"

definition UnmarshalPermissions :: "string \<Rightarrow> Permission list" where
  "UnmarshalPermissions s = (if s = [] then [] else List.map_filter parse_permission (SplitChar (CHR '';'') s))"

record Permissions =
  ps_lookup :: "(string, Permission) gomap"
  ps_hasWildcard :: bool

definition NewPermissions :: "string \<Rightarrow> Permissions" where
  "NewPermissions str =
     (let perms = UnmarshalPermissions str
      in \<lparr>ps_lookup = fold (\<lambda>p. mset (pm_Resource p) p) perms [],
          ps_hasWildcard = list_ex (\<lambda>p. pm_Resource p = ''*'' \<and> (pm_Actions p < 0 \<or> pm_Actions p = act_All)) perms\<rparr>)"

definition permissions_Has :: "Permissions \<Rightarrow> string \<Rightarrow> int \<Rightarrow> bool" where
  "permissions_Has p resource action =
     (if ps_hasWildcard p then True
      else case mget (ps_lookup p) resource of None \<Rightarrow> False | Some matched \<Rightarrow> permission_Has matched action)"

definition permissions_Marshal :: "Permissions \<Rightarrow> string" where
  "permissions_Marshal p = MarshalPermissions (mvals (ps_lookup p))"

definition DefaultPermissions :: "Permission list" where
  "DefaultPermissions =
     [NewPermission ''Audit'' act_None,
      NewPermission ''Websocket'' (act_Subscribe OR act_Register),
      NewPermission ''Dashboard'' act_View,
      NewPermission ''JobRequest'' (act_View OR act_Execute OR act_Submit OR act_Cancel OR act_Restart),
      NewPermission ''JobDefinition'' (act_Create OR act_Read OR act_Update OR act_Delete OR act_Query OR
        act_Disable OR act_Enable OR act_Metrics),
      NewPermission ''JobResource'' (act_Create OR act_Read OR act_Update OR act_Delete OR act_Query OR
        act_Disable OR act_Enable),
      NewPermission ''User'' (act_Read OR act_Update OR act_Delete OR act_Login OR act_Logout OR
        act_Query OR act_Signup),
      NewPermission ''Organization'' (act_Read OR act_Update OR act_Delete OR act_Invite),
      NewPermission ''OrgConfig'' (act_Read OR act_Query),
      NewPermission ''UserConfig'' act_All,
      NewPermission ''Artifact'' (act_Upload OR act_Read OR act_Query OR act_Delete),
      NewPermission ''ErrorCode'' (act_Query OR act_View OR act_Read OR act_Create OR act_Update OR act_Delete),
      NewPermission ''SystemConfig'' act_None,
      NewPermission ''AntExecutor'' act_None,
      NewPermission ''Container'' act_None,
      NewPermission ''Health'' act_None,
      NewPermission ''Profile'' act_None,
      NewPermission ''Subscription'' act_None,
      NewPermission ''TermsService'' (act_View OR act_Read),
      NewPermission ''PrivacyPolicies'' (act_View OR act_Read),
      NewPermission ''EmailVerification'' (act_Create OR act_View OR act_Read OR act_Verify OR act_Query),
      NewPermission ''UserInvitation'' (act_Create OR act_View OR act_Update OR act_Read OR act_Query OR act_Invite),
      NewPermission ''Report'' act_None,
      NewPermission ''Logs'' (act_Create OR act_View OR act_Update OR act_Read)]"

definition DefaultPermissionsString :: string where
  "DefaultPermissionsString = MarshalPermissions DefaultPermissions"

definition OrgAdminPermissions :: "Permission list" where
  "OrgAdminPermissions = map (\<lambda>p.
     let p1 = (if pm_Resource p = ''OrgConfig'' then p\<lparr>pm_Actions := act_All\<rparr> else p)
     in if pm_Resource p1 = ''Report'' then p1\<lparr>pm_Actions := act_View OR act_Read OR act_Query\<rparr> else p1)
     DefaultPermissions"

definition OrgAdminPermissionsString :: string where
  "OrgAdminPermissionsString = MarshalPermissions OrgAdminPermissions"

definition AdminPermissions :: "Permission list" where
  "AdminPermissions =
     [NewPermission ''Audit'' (act_Query OR act_View OR act_Read),
      NewPermission ''AntExecutor'' (act_Query OR act_View OR act_Read),
      NewPermission ''Container'' (act_Query OR act_View OR act_Read OR act_Delete),
      NewPermission ''ErrorCode'' (act_Query OR act_View OR act_Read OR act_Create OR act_Update OR act_Delete),
      NewPermission ''Websocket'' (act_Subscribe OR act_Register),
      NewPermission ''Dashboard'' act_View,
      NewPermission ''JobRequest'' (act_View OR act_Execute OR act_Submit OR act_Cancel OR act_Restart OR act_Metrics),
      NewPermission ''JobDefinition'' (act_Create OR act_Read OR act_Update OR act_Delete OR act_Query OR act_Disable OR act_Enable OR act_Metrics),
      NewPermission ''JobResource'' (act_Create OR act_Read OR act_Update OR act_Delete OR act_Query OR act_Disable OR act_Enable),
      NewPermission ''User'' (act_Read OR act_Update OR act_Delete OR act_Login OR act_Logout OR act_Query OR act_Signup),
      NewPermission ''Organization'' (act_Read OR act_Update OR act_Delete OR act_Invite),
      NewPermission ''OrgConfig'' (act_Create OR act_Read OR act_Update OR act_Delete OR act_Query),
      NewPermission ''UserConfig'' (act_Create OR act_Read OR act_Update OR act_Delete OR act_Query),
      NewPermission ''Artifact'' (act_Upload OR act_Read OR act_Query OR act_Delete),
      NewPermission ''Subscription'' (act_Create OR act_Read OR act_Update OR act_Delete OR act_Query OR act_Register),
      NewPermission ''TermsService'' (act_View OR act_Read),
      NewPermission ''PrivacyPolicies'' (act_View OR act_Read),
      NewPermission ''ErrorCode'' (act_Create OR act_Read OR act_Update OR act_Delete OR act_Query),
      NewPermission ''SystemConfig'' (act_Create OR act_Read OR act_Update OR act_Delete OR act_Query),
      NewPermission ''AntExecutor'' (act_Create OR act_Read OR act_Update OR act_Delete OR act_Query),
      NewPermission ''Container'' (act_Create OR act_Read OR act_Update OR act_Delete OR act_Query),
      NewPermission ''Health'' (act_Create OR act_Read OR act_Update OR act_Delete OR act_Query),
      NewPermission ''Profile'' (act_Create OR act_Read OR act_Update OR act_Delete OR act_Query),
      NewPermission ''EmailVerification'' (act_Create OR act_Read OR act_Update OR act_Delete OR act_Query),
      NewPermission ''UserInvitation'' (act_Create OR act_View OR act_Update OR act_Read OR act_Query OR act_Invite),
      NewPermission ''Report'' (act_View OR act_Read OR act_Query),
      NewPermission ''Logs'' (act_Create OR act_View OR act_Update OR act_Read)]"

subsection \<open>Roles\<close>

record Role =
  ro_RoleType :: string
  ro_Scope :: "string list"

definition NewRole :: "string \<Rightarrow> string list \<Rightarrow> Role" where
  "NewRole roleType scope = \<lparr>ro_RoleType = roleType, ro_Scope = scope\<rparr>"

text \<open>\<open>MatchesScope\<close>: every scope of the role is among the scopes asked for.\<close>

fun scope_loop :: "string list \<Rightarrow> string list \<Rightarrow> bool" where
  "scope_loop [] scope = True"
| "scope_loop (roleScope # rest) scope =
     (if \<not> list_ex (\<lambda>pScope. roleScope = pScope) scope then False else scope_loop rest scope)"

definition MatchesScope :: "Role \<Rightarrow> string list \<Rightarrow> bool" where
  "MatchesScope p scope = (if length (ro_Scope p) = 0 then True else scope_loop (ro_Scope p) scope)"

definition role_IsAdmin :: "Role \<Rightarrow> string list \<Rightarrow> bool" where
  "role_IsAdmin p scope = (if ro_RoleType p \<noteq> ''Admin'' then False else MatchesScope p scope)"

definition role_IsReadAdmin :: "Role \<Rightarrow> string list \<Rightarrow> bool" where
  "role_IsReadAdmin p scope = (if ro_RoleType p \<noteq> ''ReadAdmin'' then False else MatchesScope p scope)"

text \<open>\<open>fmt.Sprintf\<close> with the verb v writes a slice in brackets, its elements separated by blanks.\<close>

definition role_String :: "Role \<Rightarrow> string" where
  "role_String p = ro_RoleType p @ ''['' @ join '' '' (ro_Scope p) @ '']''"

definition MarshalRoles :: "Role list \<Rightarrow> string" where
  "MarshalRoles roles = (if length roles = 0 then [] else build_text (map role_String roles))"

definition parse_role :: "string \<Rightarrow> Role option" where
  "parse_role line =
     (case SplitChar (CHR ''['') line of
        [role, scopes] \<Rightarrow>
          Some (NewRole (TrimSpace role)
            (filter (\<lambda>next. next \<noteq> [])
              (map (\<lambda>scopeLine. TrimSpace (filter (\<lambda>c. c \<noteq> CHR '']'') scopeLine)) (SplitChar (CHR '','') scopes))))
      | _ \<Rightarrow> if TrimSpace line \<noteq> [] then Some (NewRole (TrimSpace line) []) else None)"

definition UnmarshalRoles :: "string \<Rightarrow> Role list" where
  "UnmarshalRoles s = (if s = [] then [] else List.map_filter parse_role (SplitChar (CHR '';'') s))"

type_synonym Roles = "(string, Role) gomap"

definition NewRoles :: "string \<Rightarrow> Roles" where
  "NewRoles str = fold (\<lambda>r. mset (ro_RoleType r) r) (UnmarshalRoles str) []"

definition AddRole :: "Roles \<Rightarrow> string \<Rightarrow> string list \<Rightarrow> Roles" where
  "AddRole r role scope = mset role (NewRole role scope) r"

definition roles_MarshalRoles :: "Roles \<Rightarrow> string" where
  "roles_MarshalRoles r = MarshalRoles (mvals r)"

definition HasRole :: "Roles \<Rightarrow> string \<Rightarrow> string list \<Rightarrow> bool" where
  "HasRole r roleType scope =
     (case mget r roleType of
        None \<Rightarrow> False
      | Some role \<Rightarrow> if roleType = ''Admin'' \<or> roleType = ''ReadAdmin'' then True else MatchesScope role scope)"

definition roles_IsAdmin :: "Roles \<Rightarrow> bool" where
  "roles_IsAdmin r = HasRole r ''Admin'' []"

definition roles_IsReadAdmin :: "Roles \<Rightarrow> bool" where
  "roles_IsReadAdmin r = (HasRole r ''ReadAdmin'' [] \<or> HasRole r ''Admin'' [])"

definition roles_IsOrgAdmin :: "Roles \<Rightarrow> bool" where
  "roles_IsOrgAdmin r = (HasRole r ''OrgAdmin'' [] \<or> HasRole r ''Admin'' [])"

subsection \<open>Texts that survive the round trip\<close>

definition plain :: "char set \<Rightarrow> string \<Rightarrow> bool" where
  "plain forbidden s = (set s \<inter> forbidden = {} \<and> TrimSpace s = s)"

lemma build_text_join:
  assumes "\<forall>p \<in> set parts. p \<noteq> []"
  shows "build_text parts = join '';'' parts"
proof -
  have "fold (\<lambda>s sb. (if length sb > 0 then sb @ '';'' else sb) @ s) xs sb = sb @ concat (map (\<lambda>z. '';'' @ z) xs)"
    if "sb \<noteq> []" for xs sb
    using that by (induction xs arbitrary: sb) auto
  moreover have "((#) (CHR '';'')) = ((@) '';'')" by (rule ext) simp
  ultimately show ?thesis using assms by (cases parts) (simp_all add: build_text_def join_def)
qed

lemma SplitChar_join:
  assumes "xs \<noteq> []" and "\<forall>x \<in> set xs. d \<notin> set x"
  shows "SplitChar d (join [d] xs) = xs"
  using assms
proof (induction xs)
  case (Cons x xs)
  have x: "\<forall>c \<in> set x. \<not> d = c" using Cons.prems(2) by auto
  show ?case
  proof (cases xs)
    case Nil
    then show ?thesis using split_on_none[OF x] by (simp add: SplitChar_def join_def)
  next
    case (Cons y ys)
    have "join [d] (x # xs) = x @ d # join [d] xs" by (simp add: join_def Cons)
    then show ?thesis
      using split_on_append[of x "(=) d" d "join [d] xs"] x Cons.IH Cons.prems(2) Cons
      by (simp add: SplitChar_def)
  qed
qed simp

lemma map_filter_Some: "(\<And>x. x \<in> set xs \<Longrightarrow> f (g x) = Some x) \<Longrightarrow> List.map_filter f (map g xs) = xs"
  by (induction xs) (simp_all add: map_filter_simps)

lemma TrimSpace_no_space:
  assumes "\<forall>c \<in> set s. \<not> is_space c"
  shows "TrimSpace s = s"
proof -
  have "dropWhile is_space t = t" if "\<forall>c \<in> set t. \<not> is_space c" for t
    using that by (cases t) auto
  from this[of s] this[of "rev s"] assms show ?thesis by (simp add: TrimSpace_def)
qed

lemma TrimSpace_idem [simp]: "TrimSpace (TrimSpace s) = TrimSpace s"
proof (cases "dropWhile is_space s")
  case Nil
  then have "TrimSpace s = []" by (simp only: TrimSpace_def) simp
  then show ?thesis by simp
next
  case (Cons c cs)
  have c: "\<not> is_space c" using Cons by (metis hd_dropWhile list.discI list.sel(1))
  let ?r = "dropWhile is_space (rev cs)"
  have d: "dropWhile is_space (rev (c # cs)) = ?r @ [c]"
    using c by (auto simp: dropWhile_append)
  have "dropWhile is_space (?r @ [c]) = ?r @ [c]" by (metis d dropWhile_idem)
  moreover have "TrimSpace s = c # rev ?r" by (simp only: TrimSpace_def Cons d) simp
  ultimately show ?thesis using c by (simp add: TrimSpace_def)
qed

lemma set_TrimSpace: "set (TrimSpace s) \<subseteq> set s"
  by (auto simp: TrimSpace_def dest!: set_dropWhileD)

lemma TrimSpace_int_string: "TrimSpace (int_string n) = int_string n"
proof (rule TrimSpace_no_space)
  have "is_digit c \<Longrightarrow> \<not> is_space c" for c by (simp add: is_digit_def is_space_def Let_def)
  then show "\<forall>c \<in> set (int_string n). \<not> is_space c"
    using nat_string_digits[of "nat n"] nat_string_digits[of "nat (- n)"]
    by (auto simp: int_string_def list_all_iff is_space_def)
qed

lemma int_string_chars: "c \<in> set (int_string n) \<Longrightarrow> c = CHR ''-'' \<or> is_digit c"
  using nat_string_digits[of "nat n"] nat_string_digits[of "nat (- n)"]
  by (auto simp: int_string_def list_all_iff split: if_splits)

lemma parse_permission_String:
  assumes "plain {CHR '';'', CHR ''=''} (pm_Resource p)" and "in_i64 (pm_Actions p)"
  shows "parse_permission (permission_String p) = Some p"
proof -
  have "\<forall>c \<in> set (pm_Resource p). \<not> CHR ''='' = c" using assms(1) by (auto simp: plain_def)
  moreover have "\<forall>c \<in> set (int_string (pm_Actions p)). \<not> CHR ''='' = c"
    by (auto dest!: int_string_chars simp: is_digit_def)
  ultimately have "SplitChar (CHR ''='') (permission_String p) = [pm_Resource p, int_string (pm_Actions p)]"
    by (simp add: SplitChar_def permission_String_def split_on_append split_on_none)
  with assms show ?thesis
    by (simp add: parse_permission_def plain_def TrimSpace_int_string ParseInt_int_string NewPermission_def)
qed

lemma permissions_roundtrip_lemma:
  assumes "\<forall>p \<in> set perms. plain {CHR '';'', CHR ''=''} (pm_Resource p) \<and> in_i64 (pm_Actions p)"
  shows "UnmarshalPermissions (MarshalPermissions perms) = perms"
proof (cases "perms = []")
  case True
  then show ?thesis by (simp add: UnmarshalPermissions_def MarshalPermissions_def)
next
  case False
  have no: "\<forall>x \<in> set (map permission_String perms). CHR '';'' \<notin> set x"
    using assms by (auto simp: plain_def permission_String_def is_digit_def dest!: int_string_chars)
  have m: "MarshalPermissions perms = join '';'' (map permission_String perms)"
    using False by (simp add: MarshalPermissions_def build_text_join permission_String_def)
  have "join '';'' (map permission_String perms) \<noteq> []"
    using False by (cases perms) (simp_all add: join_def permission_String_def)
  with m SplitChar_join[OF _ no] False show ?thesis
    using map_filter_Some[of perms parse_permission permission_String] parse_permission_String assms
    by (simp add: UnmarshalPermissions_def)
qed

lemma split_on_subset: "p \<in> set (split_on d t) \<Longrightarrow> set p \<subseteq> set t"
proof (induction t arbitrary: p)
  case (Cons c t)
  obtain q qs where q: "split_on d t = q # qs" by (cases "split_on d t") simp_all
  with Cons.IH have "\<forall>x \<in> set (q # qs). set x \<subseteq> set t" by auto
  with Cons.prems q show ?case by (auto split: if_splits)
qed simp

text \<open>What is read from a text can be written and read again.\<close>

lemma UnmarshalPermissions_plain:
  assumes "p \<in> set (UnmarshalPermissions s)"
  shows "plain {CHR '';'', CHR ''=''} (pm_Resource p) \<and> in_i64 (pm_Actions p)"
proof -
  from assms obtain line where line: "line \<in> set (SplitChar (CHR '';'') s)" "parse_permission line = Some p"
    by (auto simp: UnmarshalPermissions_def List.map_filter_def split: if_splits)
  then obtain r a n where ra: "SplitChar (CHR ''='') line = [r, a]" "ParseInt (TrimSpace a) = Some n"
    "p = NewPermission (TrimSpace r) n"
    by (auto simp: parse_permission_def split: list.splits)
  have "CHR ''='' \<notin> set r"
    using split_on_no_sep[of r "(=) (CHR ''='')" line "CHR ''=''"] ra(1) by (auto simp: SplitChar_def)
  moreover have "CHR '';'' \<notin> set line"
    using split_on_no_sep[of line "(=) (CHR '';'')" s "CHR '';''"] line(1) by (auto simp: SplitChar_def)
  moreover have "set r \<subseteq> set line" using split_on_subset[of r "(=) (CHR ''='')" line] ra(1) by (simp add: SplitChar_def)
  moreover have "in_i64 n" using ra(2) by (auto simp: ParseInt_def Let_def split: option.splits if_splits)
  ultimately show ?thesis using ra(3) set_TrimSpace[of r] by (auto simp: plain_def NewPermission_def)
qed

lemma parse_role_String:
  assumes "plain {CHR '';'', CHR ''[''} (ro_RoleType r)" and "length (ro_Scope r) \<le> 1"
    and "\<forall>x \<in> set (ro_Scope r). x \<noteq> [] \<and> plain {CHR '';'', CHR ''['', CHR '']'', CHR '',''} x"
  shows "parse_role (role_String r) = Some r"
proof -
  let ?tail = "join '' '' (ro_Scope r) @ '']''"
  have ty: "\<forall>c \<in> set (ro_RoleType r). \<not> CHR ''['' = c" using assms(1) by (auto simp: plain_def)
  obtain x where scope: "ro_Scope r = [] \<or> ro_Scope r = [x]"
    using assms(2) by (cases "ro_Scope r") auto
  then have tail: "?tail = '']'' \<or> ?tail = x @ '']'' \<and> ro_Scope r = [x]" by (auto simp: join_def)
  have x: "x \<noteq> [] \<and> plain {CHR '';'', CHR ''['', CHR '']'', CHR '',''} x" if "ro_Scope r = [x]"
    using assms(3) that by simp
  have "\<forall>c \<in> set ?tail. \<not> CHR ''['' = c" "\<forall>c \<in> set ?tail. \<not> CHR '','' = c"
    using scope x by (auto simp: join_def plain_def)
  then have split: "SplitChar (CHR ''['') (role_String r) = [ro_RoleType r, ?tail]"
    "SplitChar (CHR '','') ?tail = [?tail]"
    using ty by (simp_all add: SplitChar_def role_String_def split_on_append split_on_none)
  have "filter (\<lambda>c. c \<noteq> CHR '']'') x = x" if "ro_Scope r = [x]"
    using x[OF that] by (intro filter_True) (auto simp: plain_def)
  with scope x have "filter (\<lambda>next. next \<noteq> []) [TrimSpace (filter (\<lambda>c. c \<noteq> CHR '']'') ?tail)] = ro_Scope r"
    by (auto simp: join_def plain_def)
  with split assms(1) show ?thesis by (simp add: parse_role_def plain_def NewRole_def)
qed

lemma scope_loop_subset: "scope_loop rs scope \<longleftrightarrow> set rs \<subseteq> set scope"
  by (induction rs) (auto simp: list_ex_iff)

lemma MatchesScope_iff: "MatchesScope p scope \<longleftrightarrow> set (ro_Scope p) \<subseteq> set scope"
  by (simp add: MatchesScope_def scope_loop_subset)

lemma permission_Has_zero: "permission_Has p act_None"
  by (simp add: permission_Has_def)

lemma DefaultPermissions_plain:
  "\<forall>p \<in> set DefaultPermissions. plain {CHR '';'', CHR ''=''} (pm_Resource p) \<and> in_i64 (pm_Actions p)"
  by (simp add: DefaultPermissions_def NewPermission_def plain_def in_i64_def TrimSpace_def is_space_def)

lemma OrgAdminPermissions_plain:
  "\<forall>p \<in> set OrgAdminPermissions. plain {CHR '';'', CHR ''=''} (pm_Resource p) \<and> in_i64 (pm_Actions p)"
  using DefaultPermissions_plain by (auto simp: OrgAdminPermissions_def Let_def in_i64_def)

lemma AdminPermissions_plain:
  "\<forall>p \<in> set AdminPermissions. plain {CHR '';'', CHR ''=''} (pm_Resource p) \<and> in_i64 (pm_Actions p)"
  by (simp add: AdminPermissions_def NewPermission_def plain_def in_i64_def TrimSpace_def is_space_def)

subsection \<open>Properties\<close>

text \<open>C36: Reading the text of a list of permissions gives the list back, when the names of the
  resources have no separator and no surrounding white space and the masks are 64-bit integers;
  what was read from any text has this form.\<close>

theorem permissions_roundtrip:
  assumes "\<forall>p \<in> set perms. plain {CHR '';'', CHR ''=''} (pm_Resource p) \<and> in_i64 (pm_Actions p)"
  shows "UnmarshalPermissions (MarshalPermissions perms) = perms \<and>
     UnmarshalPermissions (MarshalPermissions (UnmarshalPermissions s)) = UnmarshalPermissions s"
  using permissions_roundtrip_lemma[OF assms]
    permissions_roundtrip_lemma[of "UnmarshalPermissions s"] UnmarshalPermissions_plain[of _ s]
  by blast

theorem permissions_roundtrip_witness:
  "UnmarshalPermissions (MarshalPermissions DefaultPermissions) = DefaultPermissions"
  using permissions_roundtrip[OF DefaultPermissions_plain, of "[]"] by blast

text \<open>Reading the text of a list of roles gives the list back, when each role has at most one
  scope and the names are free of separators; a role with scopes admits exactly the requests that
  name all of its scopes.\<close>

theorem roles_roundtrip:
  assumes "\<forall>r \<in> set roles. plain {CHR '';'', CHR ''[''} (ro_RoleType r) \<and> length (ro_Scope r) \<le> 1 \<and>
     (\<forall>x \<in> set (ro_Scope r). x \<noteq> [] \<and> plain {CHR '';'', CHR ''['', CHR '']'', CHR '',''} x)"
  shows "UnmarshalRoles (MarshalRoles roles) = roles \<and>
     (\<forall>r scope. MatchesScope r scope \<longleftrightarrow> set (ro_Scope r) \<subseteq> set scope)"
proof (cases "roles = []")
  case True
  then show ?thesis by (simp add: UnmarshalRoles_def MarshalRoles_def MatchesScope_iff)
next
  case False
  have no: "\<forall>x \<in> set (map role_String roles). CHR '';'' \<notin> set x"
  proof
    fix x assume "x \<in> set (map role_String roles)"
    then obtain r where r: "r \<in> set roles" "x = role_String r" by auto
    with assms show "CHR '';'' \<notin> set x"
      by (cases "ro_Scope r") (auto simp: plain_def role_String_def join_def)
  qed
  have m: "MarshalRoles roles = join '';'' (map role_String roles)"
    using False by (simp add: MarshalRoles_def build_text_join role_String_def)
  have "join '';'' (map role_String roles) \<noteq> []"
    using False by (cases roles) (simp_all add: join_def role_String_def)
  with m SplitChar_join[OF _ no] False show ?thesis
    using map_filter_Some[of roles parse_role role_String] parse_role_String assms
    by (simp add: UnmarshalRoles_def MatchesScope_iff)
qed

theorem roles_roundtrip_witness:
  "UnmarshalRoles (MarshalRoles [NewRole ''Admin'' [], NewRole ''OrgAdmin'' [''o1'']]) =
     [NewRole ''Admin'' [], NewRole ''OrgAdmin'' [''o1'']]"
  using roles_roundtrip[of "[NewRole ''Admin'' [], NewRole ''OrgAdmin'' [''o1'']]"]
  by (simp add: NewRole_def plain_def TrimSpace_def is_space_def)

text \<open>None of the three permission sets of the code lets a user vote on an approval, although
  the voting endpoints ask for the action Approve on job requests: only an administrator, for whom
  permissions are not consulted, can vote.\<close>

theorem approve_not_granted:
  "\<not> permissions_Has (NewPermissions DefaultPermissionsString) ''JobRequest'' act_Approve \<and>
   \<not> permissions_Has (NewPermissions OrgAdminPermissionsString) ''JobRequest'' act_Approve \<and>
   \<not> permissions_Has (NewPermissions (MarshalPermissions AdminPermissions)) ''JobRequest'' act_Approve"
proof -
  have read: "NewPermissions (MarshalPermissions ps) =
      \<lparr>ps_lookup = fold (\<lambda>p. mset (pm_Resource p) p) ps [],
       ps_hasWildcard = list_ex (\<lambda>p. pm_Resource p = ''*'' \<and> (pm_Actions p < 0 \<or> pm_Actions p = act_All)) ps\<rparr>"
    if "\<forall>p \<in> set ps. plain {CHR '';'', CHR ''=''} (pm_Resource p) \<and> in_i64 (pm_Actions p)" for ps
    using permissions_roundtrip_lemma[OF that] by (simp add: NewPermissions_def)
  show ?thesis
    unfolding DefaultPermissionsString_def OrgAdminPermissionsString_def
    by (simp add: read DefaultPermissions_plain OrgAdminPermissions_plain AdminPermissions_plain
        permissions_Has_def DefaultPermissions_def OrgAdminPermissions_def AdminPermissions_def NewPermission_def
        permission_Has_def WildAll_def)
qed

subsection \<open>Deviations\<close>

text \<open>\<open>ReadOnly\<close> holds of every permission, because every mask has no action in common with \<open>None\<close>.\<close>

lemma ReadOnly_always: "ReadOnly p"
  by (simp add: ReadOnly_def permission_Has_zero)

text \<open>The scopes of a role are written with blanks and read with commas.\<close>

lemma roles_two_scopes_merge:
  "UnmarshalRoles (MarshalRoles [NewRole ''OrgAdmin'' [''a'', ''b'']]) = [NewRole ''OrgAdmin'' [''a b'']]"
  by code_simp

end
