(* ===== verification/User_Context.thy ===== *)
theory User_Context
  imports Access_Control
begin

text \<open>
  Organizations, users and the scope of queries (\<open>internal/types/organization.go\<close>,
  \<open>internal/types/user.go\<close>, \<open>internal/types/query_context.go\<close>): configurations of an organization,
  the cached permissions and roles of a user, validation, and the filter that restricts a query to
  the rows a user may see.

  \<open>valid_email\<close> is the match of an address against the regular expression of the package; a
  fresh identifier of \<open>ulid.Make\<close> is an argument.  A filter that \<open>gorm\<close> adds to a query is the
  column with the value it must have; None leaves the query as it is.
\<close>

subsection \<open>Organizations\<close>

record Organization =
  og_ID :: string
  og_OwnerUserID :: string
  og_BundleID :: string
  og_OrgUnit :: string
  og_Salt :: string
  og_MaxConcurrency :: int
  og_Configs :: "NameTypeValue list"
  og_IsPersonal :: bool
  og_Active :: bool

definition NewOrganization :: "string \<Rightarrow> string \<Rightarrow> string \<Rightarrow> Organization" where
  "NewOrganization ownerID orgUnit bundle =
     \<lparr>og_ID = [], og_OwnerUserID = ownerID, og_BundleID = bundle, og_OrgUnit = orgUnit, og_Salt = [],
      og_MaxConcurrency = 1, og_Configs = [], og_IsPersonal = False, og_Active = True\<rparr>"

definition org_AddConfig :: "Organization \<Rightarrow> string \<Rightarrow> any \<Rightarrow> bool \<Rightarrow> (value_error, Organization) result" where
  "org_AddConfig org name v secret =
     (case NewNameTypeValue name v secret of
        Inl e \<Rightarrow> Err e
      | Inr config \<Rightarrow>
          if (\<exists>c \<in> set (og_Configs org). nv_Name c = name)
          then Ok (org\<lparr>og_Configs := update_first
                 (\<lambda>c. c\<lparr>nv_Value := nv_Value config, nv_Kind := nv_Kind config, nv_Secret := nv_Secret config\<rparr>)
                 name (og_Configs org)\<rparr>)
          else Ok (org\<lparr>og_Configs := og_Configs org @ [config]\<rparr>))"

definition org_DeleteConfig :: "Organization \<Rightarrow> string \<Rightarrow> Organization" where
  "org_DeleteConfig org name = org\<lparr>og_Configs := remove_first name (og_Configs org)\<rparr>"

definition org_GetConfig :: "Organization \<Rightarrow> string \<Rightarrow> NameTypeValue option" where
  "org_GetConfig org name = List.find (\<lambda>c. nv_Name c = name) (og_Configs org)"

datatype org_error = NoOrgUnit | OrgUnitTooLong | NoBundle | BundleTooLong

text \<open>The last failed check is the error that is returned; the identifiers are those drawn for a
  personal organization without a name or a bundle.\<close>

definition org_Validate :: "string \<Rightarrow> string \<Rightarrow> Organization \<Rightarrow> Organization \<times> org_error option" where
  "org_Validate ulid1 ulid2 org =
     (let o1 = (if og_OrgUnit org = [] \<and> og_IsPersonal org then org\<lparr>og_OrgUnit := ulid1\<rparr> else org);
          e1 = (if og_OrgUnit org = [] \<and> \<not> og_IsPersonal org then Some NoOrgUnit else None);
          e2 = (if length (og_OrgUnit o1) > 100 then Some OrgUnitTooLong else e1);
          o2 = (if og_BundleID org = [] \<and> og_IsPersonal org
                then o1\<lparr>og_BundleID := ulid2 @ ''.formicary.io''\<rparr> else o1);
          e3 = (if og_BundleID org = [] \<and> \<not> og_IsPersonal org then Some NoBundle else e2);
          e4 = (if length (og_BundleID o2) > 100 then Some BundleTooLong else e3);
          o3 = (if og_MaxConcurrency o2 = 0 then o2\<lparr>og_MaxConcurrency := 3\<rparr> else o2)
      in (o3, e4))"

subsection \<open>Users\<close>

record User =
  us_ID :: string
  us_Name :: string
  us_Username :: string
  us_Email :: string
  us_OrganizationID :: string
  us_Organization :: "Organization option"
  us_MaxConcurrency :: int
  us_SerializedPerms :: string
  us_SerializedRoles :: string
  us_Salt :: string
  us_EmailVerified :: bool
  us_OrgUnit :: string
  us_InvitationCode :: string
  us_Notify :: "(string, JobNotifyConfig) gomap"
  us_permissions :: "Permissions option"
  us_roles :: "Roles option"

definition NewUser :: "string \<Rightarrow> string \<Rightarrow> string \<Rightarrow> string \<Rightarrow> Roles \<Rightarrow> User" where
  "NewUser orgID username name email roles =
     (let mail = (if email = [] \<and> Contains username ''@'' then username else email)
      in \<lparr>us_ID = [], us_Name = name, us_Username = username, us_Email = ToLower mail,
          us_OrganizationID = orgID, us_Organization = None, us_MaxConcurrency = 0,
          us_SerializedPerms = DefaultPermissionsString, us_SerializedRoles = roles_MarshalRoles roles,
          us_Salt = [], us_EmailVerified = False, us_OrgUnit = [], us_InvitationCode = [],
          us_Notify = [], us_permissions = None, us_roles = None\<rparr>)"

definition GetPermissions :: "User \<Rightarrow> Permissions \<times> User" where
  "GetPermissions u =
     (case us_permissions u of
        Some p \<Rightarrow> (p, u)
      | None \<Rightarrow> (let p = NewPermissions (us_SerializedPerms u) in (p, u\<lparr>us_permissions := Some p\<rparr>)))"

definition GetRoles :: "User \<Rightarrow> Roles \<times> User" where
  "GetRoles u =
     (case us_roles u of
        Some r \<Rightarrow> (r, u)
      | None \<Rightarrow> (let r = NewRoles (us_SerializedRoles u) in (r, u\<lparr>us_roles := Some r\<rparr>)))"

definition PermissionList :: "User \<Rightarrow> Permission list" where
  "PermissionList u = UnmarshalPermissions (us_SerializedPerms u)"

definition user_IsAdmin :: "User \<Rightarrow> bool" where
  "user_IsAdmin u = roles_IsAdmin (fst (GetRoles u))"

definition user_IsReadAdmin :: "User \<Rightarrow> bool" where
  "user_IsReadAdmin u = roles_IsReadAdmin (fst (GetRoles u))"

definition user_IsOrgAdmin :: "User \<Rightarrow> bool" where
  "user_IsOrgAdmin u = roles_IsOrgAdmin (fst (GetRoles u))"

definition user_HasRole :: "User \<Rightarrow> string \<Rightarrow> string list \<Rightarrow> bool" where
  "user_HasRole u roleType scope = HasRole (fst (GetRoles u)) roleType scope"

definition HasPermission :: "User \<Rightarrow> string \<Rightarrow> int \<Rightarrow> bool" where
  "HasPermission u resource action =
     (user_IsAdmin u \<or> permissions_Has (fst (GetPermissions u)) resource action)"

definition BackfillDefaultPermissions :: "User \<Rightarrow> User" where
  "BackfillDefaultPermissions u =
     (let existing = UnmarshalPermissions (us_SerializedPerms u);
          existingMap = fold (\<lambda>p. mset (pm_Resource p) p) existing [];
          missing = filter (\<lambda>d. mget existingMap (pm_Resource d) = None) DefaultPermissions
      in if missing \<noteq> [] then u\<lparr>us_SerializedPerms := MarshalPermissions (existing @ missing),
                                us_permissions := None\<rparr>
         else u)"

definition CopyRolesPermissions :: "User \<Rightarrow> User \<Rightarrow> User" where
  "CopyRolesPermissions u other =
     u\<lparr>us_SerializedPerms := us_SerializedPerms other, us_SerializedRoles := us_SerializedRoles other,
       us_roles := None, us_permissions := None\<rparr>"

definition ResetPermissionsCache :: "User \<Rightarrow> User" where
  "ResetPermissionsCache u = u\<lparr>us_roles := None, us_permissions := None\<rparr>"

datatype user_error = NoUsername | NoName | NameTooLong | NoEmail | EmailTooLong | EmailMalformed
  | UserOrgUnitTooLong | NotifyEmailInvalid

text \<open>The checks of the fields, the last failed one last; then the loop over the notification
  settings, which assigns the result of the check of the addresses to the error that is returned.\<close>

definition user_field_error :: "(string \<Rightarrow> bool) \<Rightarrow> User \<Rightarrow> user_error option" where
  "user_field_error valid_email u =
     (if length (us_OrgUnit u) > 100 then Some UserOrgUnitTooLong
      else if \<not> valid_email (us_Email u) then Some EmailMalformed
      else if length (us_Email u) > 100 then Some EmailTooLong
      else if us_Email u = [] then Some NoEmail
      else if length (us_Name u) > 100 then Some NameTooLong
      else if us_Name u = [] then Some NoName
      else if us_Username u = [] then Some NoUsername
      else None)"

definition user_Validate :: "(string \<Rightarrow> bool) \<Rightarrow> User \<Rightarrow> User \<times> user_error option" where
  "user_Validate valid_email u =
     (u\<lparr>us_MaxConcurrency := (if us_MaxConcurrency u = 0 then 1 else us_MaxConcurrency u)\<rparr>,
      case mget (us_Notify u) ''email'' of
        None \<Rightarrow> user_field_error valid_email u
      | Some cfg \<Rightarrow> if ValidateEmail valid_email cfg then None else Some NotifyEmailInvalid)"

subsection \<open>Query scope\<close>

record QueryContext =
  qc_UserIDColumn :: string
  qc_OrganizationIDColumn :: string
  qc_User :: "User option"
  qc_IPAddress :: string

definition NewQueryContext :: "User option \<Rightarrow> string \<Rightarrow> QueryContext" where
  "NewQueryContext user ipAddr =
     \<lparr>qc_UserIDColumn = ''user_id'', qc_OrganizationIDColumn = ''organization_id'', qc_User = user,
      qc_IPAddress = ipAddr\<rparr>"

definition NewQueryContextFromIDs :: "string \<Rightarrow> string \<Rightarrow> QueryContext" where
  "NewQueryContextFromIDs userID orgID =
     (let user = (NewUser orgID [] [] [] (NewRoles []))\<lparr>us_ID := userID\<rparr>
      in NewQueryContext (Some (if orgID \<noteq> []
           then user\<lparr>us_Organization := Some ((NewOrganization [] [] [])\<lparr>og_ID := orgID\<rparr>)\<rparr> else user)) [])"

definition WithAdmin :: "QueryContext \<Rightarrow> QueryContext" where
  "WithAdmin qc = (case qc_User qc of
       None \<Rightarrow> qc
     | Some _ \<Rightarrow> qc\<lparr>qc_User := Some (NewUser [] [] [] [] (NewRoles ''Admin[]''))\<rparr>)"

definition WithoutAdmin :: "QueryContext \<Rightarrow> QueryContext" where
  "WithoutAdmin qc = (case qc_User qc of
       None \<Rightarrow> qc
     | Some _ \<Rightarrow> qc\<lparr>qc_User := Some (NewUser [] [] [] [] (NewRoles []))\<rparr>)"

definition qc_IsAdmin :: "QueryContext \<Rightarrow> bool" where
  "qc_IsAdmin qc = (case qc_User qc of Some u \<Rightarrow> user_IsAdmin u | None \<Rightarrow> True)"

definition qc_IsReadAdmin :: "QueryContext \<Rightarrow> bool" where
  "qc_IsReadAdmin qc = (case qc_User qc of Some u \<Rightarrow> user_IsReadAdmin u | None \<Rightarrow> True)"

definition qc_HasOrganization :: "QueryContext \<Rightarrow> bool" where
  "qc_HasOrganization qc = (case qc_User qc of None \<Rightarrow> False | Some u \<Rightarrow> us_Organization u \<noteq> None)"

definition qc_GetOrganizationID :: "QueryContext \<Rightarrow> string" where
  "qc_GetOrganizationID qc = (case qc_User qc of Some u \<Rightarrow> us_OrganizationID u | None \<Rightarrow> [])"

definition qc_GetUserID :: "QueryContext \<Rightarrow> string" where
  "qc_GetUserID qc = (case qc_User qc of Some u \<Rightarrow> us_ID u | None \<Rightarrow> [])"

definition Matches :: "QueryContext \<Rightarrow> string \<Rightarrow> string \<Rightarrow> bool \<Rightarrow> bool" where
  "Matches qc userID orgID readonly =
     (if qc_IsAdmin qc \<or> qc_User qc = None \<or> (qc_IsReadAdmin qc \<and> readonly) then True
      else case qc_User qc of
             None \<Rightarrow> True
           | Some u \<Rightarrow> if us_OrganizationID u \<noteq> [] then us_OrganizationID u = orgID else us_ID u = userID)"

type_synonym filter_clause = "(string \<times> string) option"

definition AddUserWhere :: "QueryContext \<Rightarrow> bool \<Rightarrow> filter_clause" where
  "AddUserWhere qc readonly =
     (case qc_User qc of
        None \<Rightarrow> None
      | Some u \<Rightarrow> if qc_IsAdmin qc \<or> qc_UserIDColumn qc = [] \<or> (readonly \<and> qc_IsReadAdmin qc) then None
                  else Some (qc_UserIDColumn qc, us_ID u))"

definition AddOrgElseUserWhere :: "QueryContext \<Rightarrow> bool \<Rightarrow> filter_clause" where
  "AddOrgElseUserWhere qc readonly =
     (if qc_IsAdmin qc \<or> (readonly \<and> qc_IsReadAdmin qc) then None
      else case qc_User qc of
             None \<Rightarrow> AddUserWhere qc readonly
           | Some u \<Rightarrow> if us_OrganizationID u \<noteq> [] \<and> qc_OrganizationIDColumn qc \<noteq> []
                       then Some (qc_OrganizationIDColumn qc, us_OrganizationID u)
                       else AddUserWhere qc readonly)"

definition AddOrgWhere :: "QueryContext \<Rightarrow> bool \<Rightarrow> filter_clause" where
  "AddOrgWhere qc readonly =
     (if qc_IsAdmin qc \<or> (readonly \<and> qc_IsReadAdmin qc) then None
      else case qc_User qc of
             None \<Rightarrow> None
           | Some u \<Rightarrow> if qc_HasOrganization qc \<and> qc_OrganizationIDColumn qc \<noteq> []
                       then Some (qc_OrganizationIDColumn qc, us_OrganizationID u) else None)"

text \<open>The variants for raw SQL return the condition and its argument.\<close>

definition AddUserWhereSQL :: "QueryContext \<Rightarrow> bool \<Rightarrow> string \<times> string" where
  "AddUserWhereSQL qc readonly =
     (case qc_User qc of
        None \<Rightarrow> ([CHR 0x27] @ ''1'' @ [CHR 0x27] @ '' = ?'', ''1'')
      | Some u \<Rightarrow>
          if qc_IsAdmin qc \<or> qc_UserIDColumn qc = [] \<or> (readonly \<and> qc_IsReadAdmin qc)
          then ([CHR 0x27] @ ''1'' @ [CHR 0x27] @ '' = ?'', ''1'')
          else (qc_UserIDColumn qc @ '' = ?'', us_ID u))"

definition AddOrgWhereSQL :: "QueryContext \<Rightarrow> bool \<Rightarrow> string \<times> string" where
  "AddOrgWhereSQL qc readonly =
     (case qc_User qc of
        None \<Rightarrow> ([CHR 0x27] @ ''1'' @ [CHR 0x27] @ '' = ?'', ''1'')
      | Some u \<Rightarrow>
          if qc_IsAdmin qc \<or> us_Organization u = None \<or> qc_OrganizationIDColumn qc = [] \<or>
             (readonly \<and> qc_IsReadAdmin qc)
          then ([CHR 0x27] @ ''1'' @ [CHR 0x27] @ '' = ?'', ''1'')
          else (qc_OrganizationIDColumn qc @ '' = ?'', us_OrganizationID u))"

definition AddOrgUserWhereSQL :: "QueryContext \<Rightarrow> bool \<Rightarrow> string \<times> string" where
  "AddOrgUserWhereSQL qc readonly =
     (if qc_IsAdmin qc \<or> (readonly \<and> qc_IsReadAdmin qc)
      then ([CHR 0x27] @ ''1'' @ [CHR 0x27] @ '' = ?'', ''1'')
      else if qc_HasOrganization qc \<and> qc_OrganizationIDColumn qc \<noteq> [] then AddOrgWhereSQL qc readonly
      else AddUserWhereSQL qc readonly)"

definition GetSalt :: "QueryContext \<Rightarrow> string" where
  "GetSalt qc = (case qc_User qc of
       None \<Rightarrow> []
     | Some u \<Rightarrow> (case us_Organization u of Some org \<Rightarrow> og_Salt org | None \<Rightarrow> us_Salt u))"

subsection \<open>Specification\<close>

text \<open>The caches hold what the stored texts denote.\<close>

definition user_cache_ok :: "User \<Rightarrow> bool" where
  "user_cache_ok u =
     ((us_permissions u = None \<or> us_permissions u = Some (NewPermissions (us_SerializedPerms u))) \<and>
      (us_roles u = None \<or> us_roles u = Some (NewRoles (us_SerializedRoles u))))"

text \<open>A row, given by the values of its columns, passes a filter or an SQL condition.\<close>

definition passes :: "filter_clause \<Rightarrow> (string \<Rightarrow> string) \<Rightarrow> bool" where
  "passes clause row = (case clause of None \<Rightarrow> True | Some (column, v) \<Rightarrow> row column = v)"

definition sql_passes :: "string \<times> string \<Rightarrow> (string \<Rightarrow> string) \<Rightarrow> bool" where
  "sql_passes clause row =
     (if fst clause = [CHR 0x27] @ ''1'' @ [CHR 0x27] @ '' = ?'' then snd clause = ''1''
      else row (take (length (fst clause) - 4) (fst clause)) = snd clause)"

subsection \<open>Lemmas\<close>

lemma GetPermissions_cache: "user_cache_ok u \<Longrightarrow> fst (GetPermissions u) = NewPermissions (us_SerializedPerms u)"
  by (auto simp: user_cache_ok_def GetPermissions_def Let_def split: option.splits)

lemma GetRoles_cache: "user_cache_ok u \<Longrightarrow> fst (GetRoles u) = NewRoles (us_SerializedRoles u)"
  by (auto simp: user_cache_ok_def GetRoles_def Let_def split: option.splits)

lemma cache_ops_ok:
  "user_cache_ok (NewUser org n m e r)"
  "user_cache_ok u \<Longrightarrow> user_cache_ok (snd (GetPermissions u))"
  "user_cache_ok u \<Longrightarrow> user_cache_ok (snd (GetRoles u))"
  "user_cache_ok (CopyRolesPermissions u other)" "user_cache_ok (ResetPermissionsCache u)"
  "user_cache_ok u \<Longrightarrow> user_cache_ok (BackfillDefaultPermissions u)"
  by (auto simp: user_cache_ok_def NewUser_def GetPermissions_def GetRoles_def Let_def
      CopyRolesPermissions_def ResetPermissionsCache_def BackfillDefaultPermissions_def split: option.splits)

lemma lookup_append:
  "r \<notin> pm_Resource ` set new \<Longrightarrow>
     mget (fold (\<lambda>p. mset (pm_Resource p) p) new m) r = mget m r"
  by (induction new arbitrary: m) auto

lemma lookup_None_iff:
  "mget (fold (\<lambda>p. mset (pm_Resource p) p) ps []) r = None \<longleftrightarrow> r \<notin> pm_Resource ` set ps"
proof -
  have "mget (fold (\<lambda>p. mset (pm_Resource p) p) ps m) r = None \<longleftrightarrow>
      r \<notin> pm_Resource ` set ps \<and> mget m r = None" for m
    by (induction ps arbitrary: m) auto
  then show ?thesis by simp
qed

lemma Backfill_texts:
  "UnmarshalPermissions (us_SerializedPerms (BackfillDefaultPermissions u)) =
     UnmarshalPermissions (us_SerializedPerms u) @
     filter (\<lambda>d. pm_Resource d \<notin> pm_Resource ` set (UnmarshalPermissions (us_SerializedPerms u))) DefaultPermissions"
proof -
  let ?ex = "UnmarshalPermissions (us_SerializedPerms u)"
  let ?miss = "filter (\<lambda>d. pm_Resource d \<notin> pm_Resource ` set ?ex) DefaultPermissions"
  have "UnmarshalPermissions (MarshalPermissions (?ex @ ?miss)) = ?ex @ ?miss"
    using UnmarshalPermissions_plain[of _ "us_SerializedPerms u"] DefaultPermissions_plain
    by (intro permissions_roundtrip_lemma) auto
  then show ?thesis
    by (auto simp: BackfillDefaultPermissions_def Let_def lookup_None_iff)
qed

lemma Backfill_roles: "us_SerializedRoles (BackfillDefaultPermissions u) = us_SerializedRoles u"
  by (simp add: BackfillDefaultPermissions_def Let_def)

subsection \<open>Properties\<close>

text \<open>C32: Backfilling the permissions of a user keeps the permissions the stored text has and adds
  exactly the defaults for resources it does not mention; the user loses no right and the caches
  stay consistent with the stored texts.\<close>

theorem Backfill_monotone:
  assumes "user_cache_ok u"
  shows "user_cache_ok (BackfillDefaultPermissions u) \<and>
     PermissionList (BackfillDefaultPermissions u) = PermissionList u @
       filter (\<lambda>d. pm_Resource d \<notin> pm_Resource ` set (PermissionList u)) DefaultPermissions \<and>
     (\<forall>r a. HasPermission u r a \<longrightarrow> HasPermission (BackfillDefaultPermissions u) r a)"
proof -
  let ?u = "BackfillDefaultPermissions u"
  have ok: "user_cache_ok ?u" by (rule cache_ops_ok(6)[OF assms])
  have admin: "user_IsAdmin ?u = user_IsAdmin u"
    by (simp add: user_IsAdmin_def GetRoles_cache[OF ok] GetRoles_cache[OF assms] Backfill_roles)
  let ?ex = "UnmarshalPermissions (us_SerializedPerms u)"
  let ?miss = "filter (\<lambda>d. pm_Resource d \<notin> pm_Resource ` set ?ex) DefaultPermissions"
  have look: "mget (ps_lookup (NewPermissions (us_SerializedPerms ?u))) r =
      mget (ps_lookup (NewPermissions (us_SerializedPerms u))) r" if "r \<in> pm_Resource ` set ?ex" for r
  proof -
    have "r \<notin> pm_Resource ` set ?miss"
    proof
      assume "r \<in> pm_Resource ` set ?miss"
      then obtain d where "d \<in> set ?miss" "r = pm_Resource d" by (rule imageE)
      then have "r \<notin> pm_Resource ` set ?ex" by simp
      with that show False by (rule notE[rotated])
    qed
    then show ?thesis by (simp add: NewPermissions_def Let_def Backfill_texts lookup_append)
  qed
  have wild: "ps_hasWildcard (NewPermissions (us_SerializedPerms u)) \<Longrightarrow>
      ps_hasWildcard (NewPermissions (us_SerializedPerms ?u))"
    by (simp add: NewPermissions_def Let_def Backfill_texts)
  have "permissions_Has (NewPermissions (us_SerializedPerms ?u)) r a"
    if "permissions_Has (NewPermissions (us_SerializedPerms u)) r a" for r a
  proof (cases "ps_hasWildcard (NewPermissions (us_SerializedPerms u))")
    case True
    with wild show ?thesis by (simp add: permissions_Has_def)
  next
    case False
    with that obtain p where p: "mget (ps_lookup (NewPermissions (us_SerializedPerms u))) r = Some p"
      "permission_Has p a" by (auto simp: permissions_Has_def split: option.splits)
    then have "r \<in> pm_Resource ` set ?ex"
      using lookup_None_iff[of ?ex r] by (auto simp: NewPermissions_def Let_def)
    with look p show ?thesis by (simp add: permissions_Has_def)
  qed
  with ok admin show ?thesis
    by (auto simp: PermissionList_def Backfill_texts HasPermission_def GetPermissions_cache[OF ok]
        GetPermissions_cache[OF assms])
qed

theorem Backfill_monotone_witness:
  "let u = (NewUser [] ''n'' ''n'' ''e'' [])\<lparr>us_SerializedPerms := ''JobRequest=64''\<rparr>
   in HasPermission (BackfillDefaultPermissions u) ''JobRequest'' act_Submit"
proof -
  let ?u = "(NewUser [] ''n'' ''n'' ''e'' [])\<lparr>us_SerializedPerms := ''JobRequest=64''\<rparr>"
  have "user_cache_ok ?u" by (simp add: user_cache_ok_def NewUser_def)
  moreover have "HasPermission ?u ''JobRequest'' act_Submit"
  proof -
    have "permissions_Has (NewPermissions ''JobRequest=64'') ''JobRequest'' act_Submit" by code_simp
    then show ?thesis by (simp add: HasPermission_def GetPermissions_def NewUser_def Let_def)
  qed
  ultimately show ?thesis using Backfill_monotone by (simp add: Let_def)
qed



text \<open>Validating a user whose notification addresses are well-formed succeeds whatever the
  other fields are: the loop over the notification settings overwrites the error found before, so
  that an empty name or a malformed address is accepted.\<close>

theorem user_Validate_masks_errors:
  assumes "mget (us_Notify u) ''email'' = Some cfg" and "ValidateEmail valid_email cfg"
  shows "snd (user_Validate valid_email u) = None"
  using assms by (simp add: user_Validate_def)

theorem user_Validate_masks_errors_witness:
  "let u = (NewUser [] [] [] [] [])\<lparr>us_Notify := [(''email'', \<lparr>nc_Recipients = [''a@b''], nc_When = NotifyWhenAlways\<rparr>)]\<rparr>
   in user_field_error (\<lambda>e. e = ''a@b'') u \<noteq> None \<and> snd (user_Validate (\<lambda>e. e = ''a@b'') u) = None"
  using user_Validate_masks_errors[of
      "(NewUser [] [] [] [] [])\<lparr>us_Notify := [(''email'', \<lparr>nc_Recipients = [''a@b''], nc_When = NotifyWhenAlways\<rparr>)]\<rparr>"
      "\<lparr>nc_Recipients = [''a@b''], nc_When = NotifyWhenAlways\<rparr>" "\<lambda>e. e = ''a@b''"]
  by (simp add: ValidateEmail_def user_field_error_def NewUser_def mget_Cons Let_def)

subsection \<open>Deviations\<close>

text \<open>A user who is no administrator and whose organization is not loaded is not restricted by
  \<open>AddOrgWhere\<close> and \<open>AddOrgWhereSQL\<close>.\<close>

lemma AddOrgWhere_unscoped:
  assumes "qc_User qc = Some u" and "us_Organization u = None"
  shows "passes (AddOrgWhere qc readonly) row" "sql_passes (AddOrgWhereSQL qc readonly) row"
  using assms by (auto simp: AddOrgWhere_def AddOrgWhereSQL_def qc_HasOrganization_def passes_def sql_passes_def)

end
