(* ===== verification/Approval_Policy.thy ===== *)
theory Approval_Policy
  imports Formicary_Prelude
begin

text \<open>
  The data of multi-party approvals: policies (\<open>queen/types/approval_policy.go\<close>), votes and their
  aggregate status (\<open>approval_vote.go\<close>) and deadlines (\<open>approval_deadline.go\<close>).  Times and
  durations are nanoseconds.
\<close>

subsection \<open>Policies\<close>

datatype TimeoutAction = NoTimeoutAction | TimeoutActionAutoApprove | TimeoutActionAutoReject
  | TimeoutActionEscalate | RawTimeoutAction string

record ApprovalPolicy =
  ap_ID :: string
  ap_TaskDefinitionID :: string
  ap_MinApprovals :: int
  ap_AllowedRoles :: string
  ap_AllowedUsers :: string
  ap_RequireUnanimous :: bool
  ap_SLADeadline :: int
  ap_TimeoutAction :: TimeoutAction
  ap_EscalationRecipients :: string
  ap_EscalationMessage :: string
  ap_CreatedAt :: int
  ap_UpdatedAt :: int

datatype policy_error = MinApprovalsTooSmall | NegativeDeadline | UnknownTimeoutAction

definition policy_Validate :: "ApprovalPolicy \<Rightarrow> policy_error option" where
  "policy_Validate p =
     (if ap_MinApprovals p < 1 then Some MinApprovalsTooSmall
      else if ap_SLADeadline p < 0 then Some NegativeDeadline
      else if ap_TimeoutAction p \<noteq> NoTimeoutAction \<and> ap_TimeoutAction p \<noteq> TimeoutActionAutoApprove \<and>
              ap_TimeoutAction p \<noteq> TimeoutActionAutoReject \<and> ap_TimeoutAction p \<noteq> TimeoutActionEscalate
      then Some UnknownTimeoutAction
      else None)"

definition splitTrimmed :: "string \<Rightarrow> string list" where
  "splitTrimmed s = filter (\<lambda>part. part \<noteq> []) (map TrimSpace (SplitChar (CHR '','') s))"

definition AllowedRoleList :: "ApprovalPolicy \<Rightarrow> string list" where
  "AllowedRoleList p = splitTrimmed (ap_AllowedRoles p)"

definition AllowedUserList :: "ApprovalPolicy \<Rightarrow> string list" where
  "AllowedUserList p = splitTrimmed (ap_AllowedUsers p)"

definition EffectiveTimeoutAction :: "ApprovalPolicy \<Rightarrow> TimeoutAction" where
  "EffectiveTimeoutAction p =
     (if ap_TimeoutAction p = NoTimeoutAction then TimeoutActionEscalate else ap_TimeoutAction p)"

subsection \<open>Votes\<close>

datatype ApprovalDecision = ApprovalDecisionApproved | ApprovalDecisionRejected | RawDecision string

definition SyntheticVoterID :: string where
  "SyntheticVoterID = ''system:sla-timeout''"

record ApprovalVote =
  av_ID :: string
  av_TaskExecutionID :: string
  av_JobRequestID :: string
  av_VoterID :: string
  av_VoterName :: string
  av_Decision :: ApprovalDecision
  av_Comments :: string
  av_VotedAt :: int

datatype vote_error = NoTaskExecution | NoJobRequest | NoVoter | UnknownDecision

definition vote_Validate :: "ApprovalVote \<Rightarrow> vote_error option" where
  "vote_Validate v =
     (if av_TaskExecutionID v = [] then Some NoTaskExecution
      else if av_JobRequestID v = [] then Some NoJobRequest
      else if av_VoterID v = [] then Some NoVoter
      else if av_Decision v \<noteq> ApprovalDecisionApproved \<and> av_Decision v \<noteq> ApprovalDecisionRejected
      then Some UnknownDecision
      else None)"

definition IsApproved :: "ApprovalVote \<Rightarrow> bool" where
  "IsApproved v = (av_Decision v = ApprovalDecisionApproved)"

record ApprovalStatus =
  as_TaskExecutionID :: string
  as_JobRequestID :: string
  as_ApprovalsReceived :: int
  as_RejectionsReceived :: int
  as_MinApprovalsRequired :: int
  as_QuorumReached :: bool
  as_Rejected :: bool
  as_SLABreached :: bool
  as_Deadline :: "int option"
  as_Votes :: "ApprovalVote list"
  as_Policy :: "ApprovalPolicy option"

subsection \<open>Deadlines\<close>

record ApprovalDeadline =
  ad_ID :: string
  ad_TaskExecutionID :: string
  ad_JobRequestID :: string
  ad_Deadline :: int
  ad_Escalated :: bool
  ad_Resolved :: bool
  ad_TimeoutAction :: TimeoutAction
  ad_EscalationRecipients :: string
  ad_CreatedAt :: int

subsection \<open>Lemmas\<close>

lemma splitTrimmed_not_empty: "[] \<notin> set (splitTrimmed s)"
  by (simp add: splitTrimmed_def)

lemma splitTrimmed_Nil [simp]: "splitTrimmed [] = []"
  by (simp add: splitTrimmed_def SplitChar_def)

lemma policy_Validate_None:
  "policy_Validate p = None \<longleftrightarrow>
     1 \<le> ap_MinApprovals p \<and> 0 \<le> ap_SLADeadline p \<and>
     EffectiveTimeoutAction p \<in> {TimeoutActionAutoApprove, TimeoutActionAutoReject, TimeoutActionEscalate}"
  by (auto simp: policy_Validate_def EffectiveTimeoutAction_def)

lemma vote_Validate_None:
  "vote_Validate v = None \<longleftrightarrow>
     av_TaskExecutionID v \<noteq> [] \<and> av_JobRequestID v \<noteq> [] \<and> av_VoterID v \<noteq> [] \<and>
     av_Decision v \<in> {ApprovalDecisionApproved, ApprovalDecisionRejected}"
  by (auto simp: vote_Validate_def)

end
