(* ===== verification/Database.thy ===== *)
theory Database
  imports Approval_Policy Job_Request User_Context
begin

text \<open>
  The database behind the repositories.  The state is the rows of each table.  The engine that
  executes statements (\<open>gorm\<close> with its driver) is not part of the repository, so that every
  definition that uses it takes it as an argument: per table the operations of \<open>table_ops\<close>, any of
  which may fail with a message, and transactions.

  The locales state what the code relies on.  A statement that succeeds has the effect SQL gives
  it; a transaction that succeeds has the effect of its body and one that fails has none.  Nothing
  is assumed on when a statement fails.  The in-memory engine \<open>mem_engine\<close>, which always succeeds,
  satisfies them.
\<close>

subsection \<open>Errors of the repositories and services\<close>

datatype repo_error = DatabaseError string | NotFoundError | ConflictError | PermissionError
  | ValidationError | PlainError

subsection \<open>Tables\<close>

text \<open>\<open>op_find\<close>: the rows that satisfy a condition in increasing order of a key.  \<open>op_page\<close>: the same
  after an offset and up to a limit.  \<open>op_first\<close>: some row that satisfies a condition.
  \<open>op_group\<close>: the number of rows that satisfy a condition, per value of a column.
  \<open>op_create_new\<close>: insert unless there is a row in conflict.  \<open>op_update\<close> and \<open>op_delete\<close> report the
  number of rows affected.\<close>

record 'r table_ops =
  op_find :: "('r \<Rightarrow> bool) \<Rightarrow> ('r \<Rightarrow> int) \<Rightarrow> 'r list \<Rightarrow> (string, 'r list) result"
  op_page :: "('r \<Rightarrow> bool) \<Rightarrow> ('r \<Rightarrow> int) \<Rightarrow> nat \<Rightarrow> nat \<Rightarrow> 'r list \<Rightarrow> (string, 'r list) result"
  op_first :: "('r \<Rightarrow> bool) \<Rightarrow> 'r list \<Rightarrow> (string, 'r option) result"
  op_count :: "('r \<Rightarrow> bool) \<Rightarrow> 'r list \<Rightarrow> (string, nat) result"
  op_group :: "('r \<Rightarrow> bool) \<Rightarrow> ('r \<Rightarrow> string) \<Rightarrow> 'r list \<Rightarrow> (string, (string \<times> nat) list) result"
  op_create :: "'r \<Rightarrow> 'r list \<Rightarrow> (string, 'r list) result"
  op_create_new :: "('r \<Rightarrow> bool) \<Rightarrow> 'r \<Rightarrow> 'r list \<Rightarrow> (string, 'r list) result"
  op_save :: "('r \<Rightarrow> bool) \<Rightarrow> 'r \<Rightarrow> 'r list \<Rightarrow> (string, 'r list) result"
  op_update :: "('r \<Rightarrow> bool) \<Rightarrow> ('r \<Rightarrow> 'r) \<Rightarrow> 'r list \<Rightarrow> (string, 'r list \<times> nat) result"
  op_delete :: "('r \<Rightarrow> bool) \<Rightarrow> 'r list \<Rightarrow> (string, 'r list \<times> nat) result"

definition same_rows :: "'r list \<Rightarrow> 'r list \<Rightarrow> bool" where
  "same_rows xs ys \<longleftrightarrow> (\<forall>x. count_list xs x = count_list ys x)"

definition update_rows :: "('r \<Rightarrow> bool) \<Rightarrow> ('r \<Rightarrow> 'r) \<Rightarrow> 'r list \<Rightarrow> 'r list" where
  "update_rows p f rows = map (\<lambda>r. if p r then f r else r) rows"

locale sql_table =
  fixes T :: "'r table_ops"
  assumes find_ok: "op_find T p key rows = Ok rs \<Longrightarrow> same_rows rs (filter p rows) \<and> sorted (map key rs)"
    and page_ok: "op_page T p key off n rows = Ok rs \<Longrightarrow>
      \<exists>xs. same_rows xs (filter p rows) \<and> sorted (map key xs) \<and> rs = take n (drop off xs)"
    and first_ok: "op_first T p rows = Ok (Some r) \<Longrightarrow> r \<in> set rows \<and> p r"
    and first_none: "op_first T p rows = Ok None \<Longrightarrow> r \<in> set rows \<Longrightarrow> \<not> p r"
    and count_ok: "op_count T p rows = Ok n \<Longrightarrow> n = length (filter p rows)"
    and group_ok: "op_group T p col rows = Ok gs \<Longrightarrow> distinct (map fst gs) \<and>
      set gs = {(k, length (filter (\<lambda>r. p r \<and> col r = k) rows)) | k. k \<in> col ` {r \<in> set rows. p r}}"
    and create_ok: "op_create T r rows = Ok rows' \<Longrightarrow> rows' = rows @ [r]"
    and create_new_ok: "op_create_new T p r rows = Ok rows' \<Longrightarrow>
      rows' = (if list_ex p rows then rows else rows @ [r])"
    and save_ok: "op_save T p r rows = Ok rows' \<Longrightarrow>
      rows' = (if list_ex p rows then update_rows p (\<lambda>_. r) rows else rows @ [r])"
    and update_ok: "op_update T p f rows = Ok (rows', n) \<Longrightarrow>
      rows' = update_rows p f rows \<and> n = length (filter p rows)"
    and delete_ok: "op_delete T p rows = Ok (rows', n) \<Longrightarrow>
      rows' = filter (\<lambda>r. \<not> p r) rows \<and> n = length (filter p rows)"

subsection \<open>The database\<close>

text \<open>The contexts of tasks and executions and the parameters of requests are part of the rows that own
  them.  Of resource uses, logs and artifacts only the key of the owner is kept: the id of the task
  execution, of the job execution and of the job request.\<close>

record DB =
  db_tasks :: "TaskExecution list"
  db_execs :: "JobExecution list"
  db_requests :: "JobRequest list"
  db_policies :: "ApprovalPolicy list"
  db_votes :: "ApprovalVote list"
  db_deadlines :: "ApprovalDeadline list"
  db_uses :: "string list"
  db_logs :: "string list"
  db_artifacts :: "string list"

record db_engine =
  e_tasks :: "TaskExecution table_ops"
  e_execs :: "JobExecution table_ops"
  e_requests :: "JobRequest table_ops"
  e_policies :: "ApprovalPolicy table_ops"
  e_votes :: "ApprovalVote table_ops"
  e_deadlines :: "ApprovalDeadline table_ops"
  e_uses :: "string table_ops"
  e_logs :: "string table_ops"
  e_artifacts :: "string table_ops"
  e_transaction :: "(DB \<Rightarrow> (repo_error, DB) result) \<Rightarrow> DB \<Rightarrow> DB \<times> repo_error option"

locale sql_engine =
  tasks: sql_table "e_tasks e" + execs: sql_table "e_execs e" + requests: sql_table "e_requests e" +
  policies: sql_table "e_policies e" + votes: sql_table "e_votes e" + deadlines: sql_table "e_deadlines e" +
  uses: sql_table "e_uses e" + logs: sql_table "e_logs e" + artifacts: sql_table "e_artifacts e"
  for e :: db_engine +
  assumes tx_commit: "e_transaction e body db = (db', None) \<Longrightarrow> body db = Ok db'"
    and tx_rollback: "e_transaction e body db = (db', Some err) \<Longrightarrow> db' = db"
    and tx_error: "body db = Err err \<Longrightarrow> e_transaction e body db = (db, Some err)"

subsection \<open>The statements the repositories use\<close>

text \<open>An update of one table inside a transaction, with an error of the engine passed on.\<close>

definition update_tasks ::
  "db_engine \<Rightarrow> (TaskExecution \<Rightarrow> bool) \<Rightarrow> (TaskExecution \<Rightarrow> TaskExecution) \<Rightarrow> DB \<Rightarrow> (string, DB \<times> nat) result" where
  "update_tasks e p f db =
     (case op_update (e_tasks e) p f (db_tasks db) of
        Inl m \<Rightarrow> Err m
      | Inr (rows, n) \<Rightarrow> Ok (db\<lparr>db_tasks := rows\<rparr>, n))"

definition update_execs ::
  "db_engine \<Rightarrow> (JobExecution \<Rightarrow> bool) \<Rightarrow> (JobExecution \<Rightarrow> JobExecution) \<Rightarrow> DB \<Rightarrow> (string, DB \<times> nat) result" where
  "update_execs e p f db =
     (case op_update (e_execs e) p f (db_execs db) of
        Inl m \<Rightarrow> Err m
      | Inr (rows, n) \<Rightarrow> Ok (db\<lparr>db_execs := rows\<rparr>, n))"

definition update_requests ::
  "db_engine \<Rightarrow> (JobRequest \<Rightarrow> bool) \<Rightarrow> (JobRequest \<Rightarrow> JobRequest) \<Rightarrow> DB \<Rightarrow> (string, DB \<times> nat) result" where
  "update_requests e p f db =
     (case op_update (e_requests e) p f (db_requests db) of
        Inl m \<Rightarrow> Err m
      | Inr (rows, n) \<Rightarrow> Ok (db\<lparr>db_requests := rows\<rparr>, n))"

definition update_deadlines ::
  "db_engine \<Rightarrow> (ApprovalDeadline \<Rightarrow> bool) \<Rightarrow> (ApprovalDeadline \<Rightarrow> ApprovalDeadline) \<Rightarrow> DB \<Rightarrow>
   (string, DB \<times> nat) result" where
  "update_deadlines e p f db =
     (case op_update (e_deadlines e) p f (db_deadlines db) of
        Inl m \<Rightarrow> Err m
      | Inr (rows, n) \<Rightarrow> Ok (db\<lparr>db_deadlines := rows\<rparr>, n))"

definition delete_requests :: "db_engine \<Rightarrow> (JobRequest \<Rightarrow> bool) \<Rightarrow> DB \<Rightarrow> (string, DB \<times> nat) result" where
  "delete_requests e p db =
     (case op_delete (e_requests e) p (db_requests db) of
        Inl m \<Rightarrow> Err m
      | Inr (rows, n) \<Rightarrow> Ok (db\<lparr>db_requests := rows\<rparr>, n))"

definition delete_execs :: "db_engine \<Rightarrow> (JobExecution \<Rightarrow> bool) \<Rightarrow> DB \<Rightarrow> (string, DB \<times> nat) result" where
  "delete_execs e p db =
     (case op_delete (e_execs e) p (db_execs db) of
        Inl m \<Rightarrow> Err m
      | Inr (rows, n) \<Rightarrow> Ok (db\<lparr>db_execs := rows\<rparr>, n))"

definition delete_tasks :: "db_engine \<Rightarrow> (TaskExecution \<Rightarrow> bool) \<Rightarrow> DB \<Rightarrow> (string, DB \<times> nat) result" where
  "delete_tasks e p db =
     (case op_delete (e_tasks e) p (db_tasks db) of
        Inl m \<Rightarrow> Err m
      | Inr (rows, n) \<Rightarrow> Ok (db\<lparr>db_tasks := rows\<rparr>, n))"

definition delete_votes :: "db_engine \<Rightarrow> (ApprovalVote \<Rightarrow> bool) \<Rightarrow> DB \<Rightarrow> (string, DB \<times> nat) result" where
  "delete_votes e p db =
     (case op_delete (e_votes e) p (db_votes db) of
        Inl m \<Rightarrow> Err m
      | Inr (rows, n) \<Rightarrow> Ok (db\<lparr>db_votes := rows\<rparr>, n))"

definition delete_deadlines :: "db_engine \<Rightarrow> (ApprovalDeadline \<Rightarrow> bool) \<Rightarrow> DB \<Rightarrow> (string, DB \<times> nat) result" where
  "delete_deadlines e p db =
     (case op_delete (e_deadlines e) p (db_deadlines db) of
        Inl m \<Rightarrow> Err m
      | Inr (rows, n) \<Rightarrow> Ok (db\<lparr>db_deadlines := rows\<rparr>, n))"

definition delete_uses :: "db_engine \<Rightarrow> (string \<Rightarrow> bool) \<Rightarrow> DB \<Rightarrow> (string, DB \<times> nat) result" where
  "delete_uses e p db =
     (case op_delete (e_uses e) p (db_uses db) of
        Inl m \<Rightarrow> Err m
      | Inr (rows, n) \<Rightarrow> Ok (db\<lparr>db_uses := rows\<rparr>, n))"

definition delete_logs :: "db_engine \<Rightarrow> (string \<Rightarrow> bool) \<Rightarrow> DB \<Rightarrow> (string, DB \<times> nat) result" where
  "delete_logs e p db =
     (case op_delete (e_logs e) p (db_logs db) of
        Inl m \<Rightarrow> Err m
      | Inr (rows, n) \<Rightarrow> Ok (db\<lparr>db_logs := rows\<rparr>, n))"

definition delete_artifacts :: "db_engine \<Rightarrow> (string \<Rightarrow> bool) \<Rightarrow> DB \<Rightarrow> (string, DB \<times> nat) result" where
  "delete_artifacts e p db =
     (case op_delete (e_artifacts e) p (db_artifacts db) of
        Inl m \<Rightarrow> Err m
      | Inr (rows, n) \<Rightarrow> Ok (db\<lparr>db_artifacts := rows\<rparr>, n))"

text \<open>The columns that scope a query.\<close>

definition request_columns :: "JobRequest \<Rightarrow> string \<Rightarrow> string" where
  "request_columns r column =
     (if column = ''user_id'' then jr_UserID r
      else if column = ''organization_id'' then jr_OrganizationID r else [])"

definition exec_columns :: "JobExecution \<Rightarrow> string \<Rightarrow> string" where
  "exec_columns x column =
     (if column = ''user_id'' then je_UserID x
      else if column = ''organization_id'' then je_OrganizationID x else [])"

subsection \<open>The in-memory engine\<close>

definition mem_table :: "'r table_ops" where
  "mem_table =
     \<lparr>op_find = (\<lambda>p key rows. Ok (sort_key key (filter p rows))),
      op_page = (\<lambda>p key off n rows. Ok (take n (drop off (sort_key key (filter p rows))))),
      op_first = (\<lambda>p rows. Ok (List.find p rows)),
      op_count = (\<lambda>p rows. Ok (length (filter p rows))),
      op_group = (\<lambda>p col rows. Ok (map (\<lambda>k. (k, length (filter (\<lambda>r. p r \<and> col r = k) rows)))
                                     (remdups (map col (filter p rows))))),
      op_create = (\<lambda>r rows. Ok (rows @ [r])),
      op_create_new = (\<lambda>p r rows. Ok (if list_ex p rows then rows else rows @ [r])),
      op_save = (\<lambda>p r rows. Ok (if list_ex p rows then update_rows p (\<lambda>_. r) rows else rows @ [r])),
      op_update = (\<lambda>p f rows. Ok (update_rows p f rows, length (filter p rows))),
      op_delete = (\<lambda>p rows. Ok (filter (\<lambda>r. \<not> p r) rows, length (filter p rows)))\<rparr>"

definition mem_transaction :: "(DB \<Rightarrow> (repo_error, DB) result) \<Rightarrow> DB \<Rightarrow> DB \<times> repo_error option" where
  "mem_transaction body db = (case body db of Inl err \<Rightarrow> (db, Some err) | Inr db' \<Rightarrow> (db', None))"

definition mem_engine :: db_engine where
  "mem_engine =
     \<lparr>e_tasks = mem_table, e_execs = mem_table, e_requests = mem_table, e_policies = mem_table,
      e_votes = mem_table, e_deadlines = mem_table, e_uses = mem_table, e_logs = mem_table,
      e_artifacts = mem_table, e_transaction = mem_transaction\<rparr>"

subsection \<open>Lemmas\<close>

lemma same_rows_set: "same_rows xs ys \<Longrightarrow> set xs = set ys"
  unfolding same_rows_def by (metis count_list_0_iff subsetI subset_antisym)

lemma length_filter_count:
  "finite S \<Longrightarrow> set xs \<subseteq> S \<Longrightarrow> length (filter q xs) = (\<Sum>x \<in> {x \<in> S. q x}. count_list xs x)"
proof (induction xs)
  case (Cons a xs)
  have "(\<Sum>x \<in> {x \<in> S. q x}. count_list (a # xs) x) =
      (\<Sum>x \<in> {x \<in> S. q x}. (if x = a then 1 else 0) + count_list xs x)"
    by (rule sum.cong) auto
  also have "\<dots> = (if q a then 1 else 0) + (\<Sum>x \<in> {x \<in> S. q x}. count_list xs x)"
    using Cons.prems by (simp add: sum.distrib)
  finally show ?case using Cons by simp
qed simp

lemma same_rows_filter: "same_rows xs ys \<Longrightarrow> length (filter q xs) = length (filter q ys)"
proof -
  assume s: "same_rows xs ys"
  have "length (filter q xs) = (\<Sum>x \<in> {x \<in> set xs. q x}. count_list xs x)"
    by (rule length_filter_count) simp_all
  also have "\<dots> = (\<Sum>x \<in> {x \<in> set xs. q x}. count_list ys x)"
    using s by (simp add: same_rows_def)
  also have "\<dots> = length (filter q ys)"
    by (rule length_filter_count[symmetric]) (simp_all add: same_rows_set[OF s])
  finally show ?thesis .
qed

lemma same_rows_distinct:
  assumes "same_rows xs ys" and "distinct (map f ys)"
  shows "distinct (map f xs)"
proof -
  have "length xs = length ys" using same_rows_filter[OF assms(1), of "\<lambda>_. True"] by simp
  moreover have "card (f ` set xs) = length ys"
    using distinct_card[OF assms(2)] same_rows_set[OF assms(1)] by simp
  ultimately show ?thesis using card_distinct[of "map f xs"] by simp
qed

lemma same_rows_sort_key [simp]: "same_rows (sort_key k xs) xs"
proof -
  have ins: "count_list (insort_key k a ys) x = count_list (a # ys) x" for a x and ys :: "'a list"
    by (induction ys) auto
  have "count_list (sort_key k xs) x = count_list xs x" for x by (induction xs) (simp_all add: ins)
  then show ?thesis by (simp add: same_rows_def)
qed

lemma same_rows_refl [simp]: "same_rows xs xs"
  by (simp add: same_rows_def)

lemma update_rows_Nil [simp]: "update_rows p f [] = []"
  and update_rows_Cons [simp]: "update_rows p f (r # rows) = (if p r then f r else r) # update_rows p f rows"
  and length_update_rows [simp]: "length (update_rows p f rows) = length rows"
  and set_update_rows: "set (update_rows p f rows) = (\<lambda>r. if p r then f r else r) ` set rows"
  by (simp_all add: update_rows_def)

lemma update_rows_none: "(\<And>r. r \<in> set rows \<Longrightarrow> \<not> p r) \<Longrightarrow> update_rows p f rows = rows"
  by (induction rows) auto

lemma update_rows_cleared:
  "t \<in> set (update_rows p f rows) \<Longrightarrow> (\<And>r. r \<in> set rows \<Longrightarrow> p r \<Longrightarrow> \<not> q (f r)) \<Longrightarrow>
   (\<And>r. r \<in> set rows \<Longrightarrow> \<not> p r \<Longrightarrow> \<not> q r) \<Longrightarrow> \<not> q t"
  by (induction rows) (auto split: if_splits)

lemma map_update_rows: "(\<And>r. p r \<Longrightarrow> g (f r) = g r) \<Longrightarrow> map g (update_rows p f rows) = map g rows"
  by (induction rows) auto

lemma mem_table_laws: "sql_table mem_table"
proof (rule sql_table.intro)
  fix p key off n rows and rs :: "'a list"
  assume "op_page mem_table p key off n rows = Ok rs"
  then show "\<exists>xs. same_rows xs (filter p rows) \<and> sorted (map key xs) \<and> rs = take n (drop off xs)"
    by (intro exI[of _ "sort_key key (filter p rows)"]) (simp add: mem_table_def)
next
  fix p col rows and gs :: "(string \<times> nat) list"
  assume "op_group mem_table p col rows = Ok gs"
  then show "distinct (map fst gs) \<and>
      set gs = {(k, length (filter (\<lambda>r. p r \<and> col r = k) rows)) | k. k \<in> col ` {r \<in> set rows. p r}}"
    by (auto simp: mem_table_def comp_def)
next
  fix p rows and r :: 'a
  assume "op_first mem_table p rows = Ok (Some r)"
  then show "r \<in> set rows \<and> p r" by (auto simp: mem_table_def find_Some_iff)
next
  fix p rows and r :: 'a
  assume "op_first mem_table p rows = Ok None" "r \<in> set rows"
  then show "\<not> p r" by (simp add: mem_table_def find_None_iff)
qed (auto simp: mem_table_def)

lemma mem_engine_laws: "sql_engine mem_engine"
  unfolding sql_engine_def sql_engine_axioms_def
  by (simp add: mem_engine_def mem_table_laws mem_transaction_def split: sum.splits)

interpretation mem: sql_engine mem_engine
  by (rule mem_engine_laws)

context sql_engine
begin

lemma update_tasks_Ok: "update_tasks e p f db = Ok (db', n) \<Longrightarrow>
    db' = db\<lparr>db_tasks := update_rows p f (db_tasks db)\<rparr> \<and> n = length (filter p (db_tasks db))"
  by (auto simp: update_tasks_def split: sum.splits prod.splits dest!: tasks.update_ok)

lemma update_execs_Ok: "update_execs e p f db = Ok (db', n) \<Longrightarrow>
    db' = db\<lparr>db_execs := update_rows p f (db_execs db)\<rparr> \<and> n = length (filter p (db_execs db))"
  by (auto simp: update_execs_def split: sum.splits prod.splits dest!: execs.update_ok)

lemma update_requests_Ok: "update_requests e p f db = Ok (db', n) \<Longrightarrow>
    db' = db\<lparr>db_requests := update_rows p f (db_requests db)\<rparr> \<and> n = length (filter p (db_requests db))"
  by (auto simp: update_requests_def split: sum.splits prod.splits dest!: requests.update_ok)

lemma update_deadlines_Ok: "update_deadlines e p f db = Ok (db', n) \<Longrightarrow>
    db' = db\<lparr>db_deadlines := update_rows p f (db_deadlines db)\<rparr> \<and> n = length (filter p (db_deadlines db))"
  by (auto simp: update_deadlines_def split: sum.splits prod.splits dest!: deadlines.update_ok)

lemma delete_requests_Ok: "delete_requests e p db = Ok (db', n) \<Longrightarrow>
    db' = db\<lparr>db_requests := filter (\<lambda>r. \<not> p r) (db_requests db)\<rparr> \<and> n = length (filter p (db_requests db))"
  by (auto simp: delete_requests_def split: sum.splits prod.splits dest!: requests.delete_ok)

lemma delete_execs_Ok: "delete_execs e p db = Ok (db', n) \<Longrightarrow>
    db' = db\<lparr>db_execs := filter (\<lambda>r. \<not> p r) (db_execs db)\<rparr> \<and> n = length (filter p (db_execs db))"
  by (auto simp: delete_execs_def split: sum.splits prod.splits dest!: execs.delete_ok)

lemma delete_tasks_Ok: "delete_tasks e p db = Ok (db', n) \<Longrightarrow>
    db' = db\<lparr>db_tasks := filter (\<lambda>r. \<not> p r) (db_tasks db)\<rparr> \<and> n = length (filter p (db_tasks db))"
  by (auto simp: delete_tasks_def split: sum.splits prod.splits dest!: tasks.delete_ok)

lemma delete_votes_Ok: "delete_votes e p db = Ok (db', n) \<Longrightarrow>
    db' = db\<lparr>db_votes := filter (\<lambda>r. \<not> p r) (db_votes db)\<rparr> \<and> n = length (filter p (db_votes db))"
  by (auto simp: delete_votes_def split: sum.splits prod.splits dest!: votes.delete_ok)

lemma delete_deadlines_Ok: "delete_deadlines e p db = Ok (db', n) \<Longrightarrow>
    db' = db\<lparr>db_deadlines := filter (\<lambda>r. \<not> p r) (db_deadlines db)\<rparr> \<and> n = length (filter p (db_deadlines db))"
  by (auto simp: delete_deadlines_def split: sum.splits prod.splits dest!: deadlines.delete_ok)

lemma delete_uses_Ok: "delete_uses e p db = Ok (db', n) \<Longrightarrow>
    db' = db\<lparr>db_uses := filter (\<lambda>r. \<not> p r) (db_uses db)\<rparr> \<and> n = length (filter p (db_uses db))"
  by (auto simp: delete_uses_def split: sum.splits prod.splits dest!: uses.delete_ok)

lemma delete_logs_Ok: "delete_logs e p db = Ok (db', n) \<Longrightarrow>
    db' = db\<lparr>db_logs := filter (\<lambda>r. \<not> p r) (db_logs db)\<rparr> \<and> n = length (filter p (db_logs db))"
  by (auto simp: delete_logs_def split: sum.splits prod.splits dest!: logs.delete_ok)

lemma delete_artifacts_Ok: "delete_artifacts e p db = Ok (db', n) \<Longrightarrow>
    db' = db\<lparr>db_artifacts := filter (\<lambda>r. \<not> p r) (db_artifacts db)\<rparr> \<and> n = length (filter p (db_artifacts db))"
  by (auto simp: delete_artifacts_def split: sum.splits prod.splits dest!: artifacts.delete_ok)

lemma transaction_cases:
  assumes "e_transaction e body db = (db', err)"
  obtains (commit) "err = None" "body db = Ok db'" | (rollback) "err \<noteq> None" "db' = db"
  using assms tx_commit tx_rollback by (cases err) blast+

end

subsection \<open>Sample rows\<close>

definition sample_task_row :: TaskExecution where
  "sample_task_row =
     \<lparr>te_ID = ''t1'', te_JobExecutionID = ''x1'', te_TaskType = ''deploy'', te_Method = Manual,
      te_TaskState = MANUAL_APPROVAL_REQUIRED, te_AllowFailure = False, te_ExitCode = [],
      te_ExitMessage = [], te_ErrorCode = [], te_ErrorMessage = [], te_FailedCommand = [],
      te_Comments = [], te_AntID = [], te_AntHost = [], te_Retried = 0, te_Contexts = [],
      te_Artifacts = [], te_TaskOrder = 1, te_CountServices = 0, te_CostFactor = 0, te_StartedAt = 1,
      te_EndedAt = None, te_UpdatedAt = 1, te_Active = True, te_Stdout = [], te_lookupContexts = []\<rparr>"

definition sample_exec_row :: JobExecution where
  "sample_exec_row = (NewJobExecution 1 ''r1'' ''job'' ''1.0'' ''alice'' [])\<lparr>je_ID := ''x1'',
     je_JobState := MANUAL_APPROVAL_REQUIRED\<rparr>"

definition sample_request_row :: JobRequest where
  "sample_request_row = (NewRequest 1)\<lparr>jr_ID := ''r1'', jr_JobExecutionID := ''x1'', jr_UserID := ''alice'',
     jr_JobState := MANUAL_APPROVAL_REQUIRED\<rparr>"

definition sample_db :: DB where
  "sample_db = \<lparr>db_tasks = [sample_task_row], db_execs = [sample_exec_row], db_requests = [sample_request_row],
     db_policies = [], db_votes = [], db_deadlines = [], db_uses = [], db_logs = [], db_artifacts = []\<rparr>"

lemma sample_scope:
  "AddOrgElseUserWhere (NewQueryContextFromIDs who []) False = Some (''user_id'', who)"
  "qc_GetUserID (NewQueryContextFromIDs who []) = who"
  by (simp_all add: AddOrgElseUserWhere_def AddUserWhere_def qc_GetUserID_def NewQueryContextFromIDs_def
      NewQueryContext_def qc_IsAdmin_def user_IsAdmin_def GetRoles_def NewUser_def Let_def
      NewRoles_def roles_MarshalRoles_def UnmarshalRoles_def MarshalRoles_def roles_IsAdmin_def
      mvals_def HasRole_def)

end
