(* ===== verification/Approval_Service.thy ===== *)
theory Approval_Service
  imports Database
begin

text \<open>
  Multi-party approvals: the repository (\<open>queen/approval/repository_impl.go\<close>) and the service
  (\<open>queen/approval/service.go\<close>) that records votes, decides on quorum and rejection, moves the
  task, the execution and the request on, and enforces deadlines.

  Ids made by \<open>ulid\<close>, the time and the database engine are arguments; the zero time is 0.  \<open>approval_step\<close> splits the
  casting of votes into the statements that several callers can interleave.
\<close>

subsection \<open>Repository\<close>

definition SavePolicy ::
  "db_engine \<Rightarrow> string \<Rightarrow> int \<Rightarrow> ApprovalPolicy \<Rightarrow> DB \<Rightarrow> DB \<times> (repo_error, ApprovalPolicy) result" where
  "SavePolicy e newid now policy db =
     (if policy_Validate policy \<noteq> None then (db, Err ValidationError)
      else
        let policy = policy\<lparr>ap_UpdatedAt := now\<rparr> in
        if ap_ID policy = [] then
          (let policy = policy\<lparr>ap_ID := newid, ap_CreatedAt := now\<rparr> in
           case op_create (e_policies e) policy (db_policies db) of
             Inl m \<Rightarrow> (db, Err (DatabaseError m))
           | Inr rows \<Rightarrow> (db\<lparr>db_policies := rows\<rparr>, Ok policy))
        else
          (case op_save (e_policies e) (\<lambda>r. ap_ID r = ap_ID policy) policy (db_policies db) of
             Inl m \<Rightarrow> (db, Err (DatabaseError m))
           | Inr rows \<Rightarrow> (db\<lparr>db_policies := rows\<rparr>, Ok policy)))"

definition GetPolicyByTaskDefinition ::
  "db_engine \<Rightarrow> string \<Rightarrow> DB \<Rightarrow> (repo_error, ApprovalPolicy option) result" where
  "GetPolicyByTaskDefinition e taskDefinitionID db =
     (case op_first (e_policies e) (\<lambda>p. ap_TaskDefinitionID p = taskDefinitionID) (db_policies db) of
        Inl m \<Rightarrow> Err (DatabaseError m)
      | Inr p \<Rightarrow> Ok p)"

text \<open>The insertion does nothing when the voter has a vote on the task; the stored vote is read back.\<close>

definition same_voter :: "string \<Rightarrow> string \<Rightarrow> ApprovalVote \<Rightarrow> bool" where
  "same_voter taskExecutionID voterID v \<longleftrightarrow> av_TaskExecutionID v = taskExecutionID \<and> av_VoterID v = voterID"

definition SaveVote ::
  "db_engine \<Rightarrow> string \<Rightarrow> int \<Rightarrow> ApprovalVote \<Rightarrow> DB \<Rightarrow> DB \<times> (repo_error, ApprovalVote) result" where
  "SaveVote e newid now vote db =
     (if vote_Validate vote \<noteq> None then (db, Err ValidationError)
      else
        let vote = vote\<lparr>av_ID := (if av_ID vote = [] then newid else av_ID vote),
                        av_VotedAt := (if av_VotedAt vote = 0 then now else av_VotedAt vote)\<rparr>;
            mine = same_voter (av_TaskExecutionID vote) (av_VoterID vote)
        in case op_create_new (e_votes e) mine vote (db_votes db) of
             Inl m \<Rightarrow> (db, Err (DatabaseError m))
           | Inr rows \<Rightarrow>
               (let db = db\<lparr>db_votes := rows\<rparr> in
                case op_first (e_votes e) mine (db_votes db) of
                  Inl m \<Rightarrow> (db, Err (DatabaseError m))
                | Inr None \<Rightarrow> (db, Err NotFoundError)
                | Inr (Some stored) \<Rightarrow> (db, Ok stored)))"

definition GetVotes :: "db_engine \<Rightarrow> string \<Rightarrow> DB \<Rightarrow> (repo_error, ApprovalVote list) result" where
  "GetVotes e taskExecutionID db =
     (case op_find (e_votes e) (\<lambda>v. av_TaskExecutionID v = taskExecutionID) av_VotedAt (db_votes db) of
        Inl m \<Rightarrow> Err (DatabaseError m)
      | Inr votes \<Rightarrow> Ok votes)"

fun decision_string :: "ApprovalDecision \<Rightarrow> string" where
  "decision_string ApprovalDecisionApproved = ''APPROVED''"
| "decision_string ApprovalDecisionRejected = ''REJECTED''"
| "decision_string (RawDecision s) = s"

fun count_loop :: "(string \<times> nat) list \<Rightarrow> int \<times> int \<Rightarrow> int \<times> int" where
  "count_loop [] (approvals, rejections) = (approvals, rejections)"
| "count_loop ((decision, n) # rows) (approvals, rejections) =
     (if decision = decision_string ApprovalDecisionApproved then count_loop rows (int n, rejections)
      else if decision = decision_string ApprovalDecisionRejected then count_loop rows (approvals, int n)
      else count_loop rows (approvals, rejections))"

definition CountVotes :: "db_engine \<Rightarrow> string \<Rightarrow> DB \<Rightarrow> (repo_error, int \<times> int) result" where
  "CountVotes e taskExecutionID db =
     (case op_group (e_votes e) (\<lambda>v. av_TaskExecutionID v = taskExecutionID)
             (\<lambda>v. decision_string (av_Decision v)) (db_votes db) of
        Inl m \<Rightarrow> Err (DatabaseError m)
      | Inr rows \<Rightarrow> Ok (count_loop rows (0, 0)))"

definition HasVoted :: "db_engine \<Rightarrow> string \<Rightarrow> string \<Rightarrow> DB \<Rightarrow> (repo_error, bool) result" where
  "HasVoted e taskExecutionID voterID db =
     (case op_count (e_votes e) (same_voter taskExecutionID voterID) (db_votes db) of
        Inl m \<Rightarrow> Err (DatabaseError m)
      | Inr n \<Rightarrow> Ok (n > 0))"

definition SaveDeadline ::
  "db_engine \<Rightarrow> string \<Rightarrow> int \<Rightarrow> ApprovalDeadline \<Rightarrow> DB \<Rightarrow> DB \<times> (repo_error, ApprovalDeadline) result" where
  "SaveDeadline e newid now deadline db =
     (let deadline = deadline\<lparr>ad_ID := (if ad_ID deadline = [] then newid else ad_ID deadline),
                              ad_CreatedAt := (if ad_CreatedAt deadline = 0 then now else ad_CreatedAt deadline)\<rparr>
      in case op_create (e_deadlines e) deadline (db_deadlines db) of
           Inl m \<Rightarrow> (db, Err (DatabaseError m))
         | Inr rows \<Rightarrow> (db\<lparr>db_deadlines := rows\<rparr>, Ok deadline))"

definition breached :: "int \<Rightarrow> ApprovalDeadline \<Rightarrow> bool" where
  "breached now d \<longleftrightarrow> \<not> ad_Resolved d \<and> \<not> ad_Escalated d \<and> ad_Deadline d < now"

definition FindBreachedDeadlines :: "db_engine \<Rightarrow> int \<Rightarrow> nat \<Rightarrow> DB \<Rightarrow> (repo_error, ApprovalDeadline list) result" where
  "FindBreachedDeadlines e now n db =
     (case op_page (e_deadlines e) (breached now) ad_Deadline 0 n (db_deadlines db) of
        Inl m \<Rightarrow> Err (DatabaseError m)
      | Inr ds \<Rightarrow> Ok ds)"

definition MarkDeadlineResolved :: "db_engine \<Rightarrow> string \<Rightarrow> DB \<Rightarrow> DB \<times> repo_error option" where
  "MarkDeadlineResolved e deadlineID db =
     (case update_deadlines e (\<lambda>d. ad_ID d = deadlineID) (\<lambda>d. d\<lparr>ad_Resolved := True\<rparr>) db of
        Inl m \<Rightarrow> (db, Some (DatabaseError m))
      | Inr (db', _) \<Rightarrow> (db', None))"

definition MarkDeadlineEscalated :: "db_engine \<Rightarrow> string \<Rightarrow> DB \<Rightarrow> DB \<times> repo_error option" where
  "MarkDeadlineEscalated e deadlineID db =
     (case update_deadlines e (\<lambda>d. ad_ID d = deadlineID) (\<lambda>d. d\<lparr>ad_Escalated := True\<rparr>) db of
        Inl m \<Rightarrow> (db, Some (DatabaseError m))
      | Inr (db', _) \<Rightarrow> (db', None))"

definition ResolveDeadlineForTask :: "db_engine \<Rightarrow> string \<Rightarrow> DB \<Rightarrow> DB \<times> repo_error option" where
  "ResolveDeadlineForTask e taskExecutionID db =
     (case update_deadlines e (\<lambda>d. ad_TaskExecutionID d = taskExecutionID \<and> \<not> ad_Resolved d)
             (\<lambda>d. d\<lparr>ad_Resolved := True\<rparr>) db of
        Inl m \<Rightarrow> (db, Some (DatabaseError m))
      | Inr (db', _) \<Rightarrow> (db', None))"

subsection \<open>Service: status, authorization, thresholds\<close>

definition min_required :: "ApprovalPolicy option \<Rightarrow> int" where
  "min_required policy = (case policy of None \<Rightarrow> 1 | Some p \<Rightarrow> ap_MinApprovals p)"

definition isRejected :: "int \<Rightarrow> int \<Rightarrow> ApprovalPolicy option \<Rightarrow> bool" where
  "isRejected approvals rejections policy =
     (if rejections = 0 then False
      else case policy of
             None \<Rightarrow> True
           | Some p \<Rightarrow>
               if ap_RequireUnanimous p then True
               else
                 let totalAllowed = int (length (AllowedUserList p)) in
                 if totalAllowed = 0 then True
                 else
                   let remainingVoters = totalAllowed - approvals - rejections;
                       remainingVoters = (if remainingVoters < 0 then 0 else remainingVoters)
                   in approvals + remainingVoters < ap_MinApprovals p)"

definition authorizeVoter :: "QueryContext \<Rightarrow> ApprovalPolicy option \<Rightarrow> string \<Rightarrow> repo_error option" where
  "authorizeVoter qc policy voterID =
     (if voterID = SyntheticVoterID then Some PermissionError
      else case policy of
             None \<Rightarrow> Some PermissionError
           | Some p \<Rightarrow>
               let allowedUsers = AllowedUserList p; allowedRoles = AllowedRoleList p in
               if length allowedUsers = 0 \<and> length allowedRoles = 0 then None
               else if list_ex (\<lambda>uid. uid = voterID \<or> uid = qc_GetUserID qc) allowedUsers then None
               else if length allowedRoles > 0 \<and>
                       (case qc_User qc of
                          None \<Rightarrow> False
                        | Some u \<Rightarrow> list_ex (\<lambda>required. user_HasRole u (TrimSpace required) []) allowedRoles)
               then None
               else Some PermissionError)"

definition GetStatus ::
  "db_engine \<Rightarrow> string \<Rightarrow> string \<Rightarrow> ApprovalPolicy option \<Rightarrow> DB \<Rightarrow> (repo_error, ApprovalStatus) result" where
  "GetStatus e taskExecutionID jobRequestID policy db =
     (case GetVotes e taskExecutionID db of
        Inl err \<Rightarrow> Err err
      | Inr votes \<Rightarrow>
          let approvals = int (length (filter IsApproved votes));
              rejections = int (length (filter (\<lambda>v. \<not> IsApproved v) votes))
          in Ok \<lparr>as_TaskExecutionID = taskExecutionID, as_JobRequestID = jobRequestID,
                 as_ApprovalsReceived = approvals, as_RejectionsReceived = rejections,
                 as_MinApprovalsRequired = min_required policy,
                 as_QuorumReached = (approvals \<ge> min_required policy),
                 as_Rejected = isRejected approvals rejections policy,
                 as_SLABreached = False, as_Deadline = None, as_Votes = votes, as_Policy = policy\<rparr>)"

subsection \<open>Service: moving on\<close>

definition decision_message :: "string \<Rightarrow> string \<Rightarrow> string \<Rightarrow> string" where
  "decision_message verb by_whom comments =
     verb @ by_whom @ (if comments \<noteq> [] then '': '' @ comments else [])"

definition awaiting_task :: "JobRequest \<Rightarrow> string \<Rightarrow> TaskExecution \<Rightarrow> bool" where
  "awaiting_task request taskType t \<longleftrightarrow>
     te_JobExecutionID t = jr_JobExecutionID request \<and> te_TaskType t = taskType \<and>
     te_TaskState t = MANUAL_APPROVAL_REQUIRED"

definition awaiting_request :: "QueryContext \<Rightarrow> JobRequest \<Rightarrow> JobRequest \<Rightarrow> bool" where
  "awaiting_request qc request r \<longleftrightarrow>
     passes (AddOrgElseUserWhere qc False) (request_columns r) \<and>
     jr_ID r = jr_ID request \<and> jr_JobState r = MANUAL_APPROVAL_REQUIRED"

definition awaiting_exec :: "JobRequest \<Rightarrow> JobExecution \<Rightarrow> bool" where
  "awaiting_exec request x \<longleftrightarrow>
     je_ID x = jr_JobExecutionID request \<and> je_JobState x = MANUAL_APPROVAL_REQUIRED"

definition approved_task :: "int \<Rightarrow> string \<Rightarrow> string \<Rightarrow> TaskExecution \<Rightarrow> TaskExecution" where
  "approved_task now msg comments t =
     t\<lparr>te_TaskState := COMPLETED, te_ExitCode := decision_string ApprovalDecisionApproved,
       te_ExitMessage := msg, te_Comments := comments, te_EndedAt := Some now, te_UpdatedAt := now\<rparr>"

definition approved_request :: "int \<Rightarrow> JobRequest \<Rightarrow> JobRequest" where
  "approved_request now r =
     r\<lparr>jr_JobState := PENDING, jr_ErrorCode := [], jr_ErrorMessage := [], jr_UpdatedAt := now\<rparr>"

definition rejected_task :: "int \<Rightarrow> string \<Rightarrow> string \<Rightarrow> TaskExecution \<Rightarrow> TaskExecution" where
  "rejected_task now msg comments t =
     t\<lparr>te_TaskState := FAILED, te_ExitCode := decision_string ApprovalDecisionRejected,
       te_ExitMessage := msg, te_ErrorCode := ''ERR_MANUAL_REJECTION'', te_ErrorMessage := msg,
       te_Comments := comments, te_EndedAt := Some now, te_UpdatedAt := now\<rparr>"

definition rejected_exec :: "int \<Rightarrow> string \<Rightarrow> JobExecution \<Rightarrow> JobExecution" where
  "rejected_exec now msg x =
     x\<lparr>je_JobState := FAILED, je_ErrorCode := ''ERR_MANUAL_REJECTION'', je_ErrorMessage := msg,
       je_EndedAt := Some now, je_UpdatedAt := now\<rparr>"

definition rejected_request :: "string \<Rightarrow> int \<Rightarrow> string \<Rightarrow> JobRequest \<Rightarrow> JobRequest" where
  "rejected_request newid now msg r =
     r\<lparr>jr_JobState := FAILED, jr_ErrorCode := ''ERR_MANUAL_REJECTION'', jr_ErrorMessage := msg,
       jr_UserKey := newid, jr_UpdatedAt := now\<rparr>"

text \<open>A failure to resolve the deadlines is logged and does not fail the transaction.\<close>

definition resolve_open :: "db_engine \<Rightarrow> string \<Rightarrow> DB \<Rightarrow> DB" where
  "resolve_open e taskExecutionID db =
     (case update_deadlines e (\<lambda>d. ad_TaskExecutionID d = taskExecutionID \<and> \<not> ad_Resolved d)
             (\<lambda>d. d\<lparr>ad_Resolved := True\<rparr>) db of
        Inl _ \<Rightarrow> db
      | Inr (db', _) \<Rightarrow> db')"

definition approval_body ::
  "db_engine \<Rightarrow> int \<Rightarrow> QueryContext \<Rightarrow> JobRequest \<Rightarrow> string \<Rightarrow> string \<Rightarrow> string \<Rightarrow> string \<Rightarrow>
   DB \<Rightarrow> (repo_error, DB) result" where
  "approval_body e now qc request taskType taskExecutionID approvedBy comments db =
     (let msg = decision_message ''Approved by '' approvedBy comments in
      case update_tasks e (awaiting_task request taskType)
             (approved_task now msg comments) db of
        Inl m \<Rightarrow> Err (DatabaseError m)
      | Inr (db1, _) \<Rightarrow>
          (case update_requests e (awaiting_request qc request)
                  (approved_request now) db1 of
             Inl m \<Rightarrow> Err (DatabaseError m)
           | Inr (db2, _) \<Rightarrow> Ok (resolve_open e taskExecutionID db2)))"

definition finalizeApproval ::
  "db_engine \<Rightarrow> int \<Rightarrow> QueryContext \<Rightarrow> JobRequest \<Rightarrow> string \<Rightarrow> string \<Rightarrow> string \<Rightarrow> string \<Rightarrow>
   DB \<Rightarrow> DB \<times> repo_error option" where
  "finalizeApproval e now qc request taskType taskExecutionID approvedBy comments db =
     e_transaction e (approval_body e now qc request taskType taskExecutionID approvedBy comments) db"

definition rejection_body ::
  "db_engine \<Rightarrow> string \<Rightarrow> int \<Rightarrow> QueryContext \<Rightarrow> JobRequest \<Rightarrow> string \<Rightarrow> string \<Rightarrow> string \<Rightarrow> string \<Rightarrow>
   DB \<Rightarrow> (repo_error, DB) result" where
  "rejection_body e newid now qc request taskType taskExecutionID rejectedBy comments db =
     (let msg = decision_message ''Rejected by '' rejectedBy comments in
      case update_tasks e (awaiting_task request taskType)
             (rejected_task now msg comments) db of
        Inl m \<Rightarrow> Err (DatabaseError m)
      | Inr (db1, _) \<Rightarrow>
          (case update_execs e (awaiting_exec request)
                  (rejected_exec now msg) db1 of
             Inl m \<Rightarrow> Err (DatabaseError m)
           | Inr (db2, _) \<Rightarrow>
               (case update_requests e (awaiting_request qc request)
                       (rejected_request newid now msg) db2 of
                  Inl m \<Rightarrow> Err (DatabaseError m)
                | Inr (db3, _) \<Rightarrow> Ok (resolve_open e taskExecutionID db3))))"

definition finalizeRejection ::
  "db_engine \<Rightarrow> string \<Rightarrow> int \<Rightarrow> QueryContext \<Rightarrow> JobRequest \<Rightarrow> string \<Rightarrow> string \<Rightarrow> string \<Rightarrow> string \<Rightarrow>
   DB \<Rightarrow> DB \<times> repo_error option" where
  "finalizeRejection e newid now qc request taskType taskExecutionID rejectedBy comments db =
     e_transaction e (rejection_body e newid now qc request taskType taskExecutionID rejectedBy comments) db"

subsection \<open>Service: casting a vote\<close>

text \<open>A call of \<open>CastVote\<close>: the caller, what is voted, the time, and the ids that are drawn for the
  vote and for the user key of a rejected request.\<close>

record vote_call =
  vc_qc :: QueryContext
  vc_voterID :: string
  vc_voterName :: string
  vc_decision :: ApprovalDecision
  vc_comments :: string
  vc_now :: int
  vc_newid :: string
  vc_newkey :: string

text \<open>The checks before the database is read.\<close>

definition cast_guard ::
  "JobRequest option \<Rightarrow> string \<Rightarrow> string \<Rightarrow> ApprovalPolicy option \<Rightarrow> vote_call \<Rightarrow> repo_error option" where
  "cast_guard request taskType taskExecutionID policy c =
     (case request of
        None \<Rightarrow> Some ValidationError
      | Some r \<Rightarrow>
          if taskType = [] then Some ValidationError
          else if taskExecutionID = [] then Some ValidationError
          else if vc_voterID c = [] then Some ValidationError
          else if vc_decision c \<noteq> ApprovalDecisionApproved \<and> vc_decision c \<noteq> ApprovalDecisionRejected
          then Some ValidationError
          else if jr_JobState r \<noteq> MANUAL_APPROVAL_REQUIRED then Some ConflictError
          else authorizeVoter (vc_qc c) policy (vc_voterID c))"

text \<open>Recording the vote.  The result says whether the voter had voted before.\<close>

definition cast_record ::
  "db_engine \<Rightarrow> JobRequest \<Rightarrow> string \<Rightarrow> vote_call \<Rightarrow> DB \<Rightarrow> DB \<times> (repo_error, bool) result" where
  "cast_record e request taskExecutionID c db =
     (case HasVoted e taskExecutionID (vc_voterID c) db of
        Inl err \<Rightarrow> (db, Err err)
      | Inr alreadyVoted \<Rightarrow>
          if alreadyVoted then (db, Ok True)
          else if vc_decision c = ApprovalDecisionRejected \<and> TrimSpace (vc_comments c) = []
          then (db, Err ValidationError)
          else
            let vote = \<lparr>av_ID = [], av_TaskExecutionID = taskExecutionID, av_JobRequestID = jr_ID request,
                        av_VoterID = vc_voterID c, av_VoterName = vc_voterName c,
                        av_Decision = vc_decision c, av_Comments = vc_comments c, av_VotedAt = vc_now c\<rparr>
            in case SaveVote e (vc_newid c) (vc_now c) vote db of
                 (db', Inl err) \<Rightarrow> (db', Err err)
               | (db', Inr _) \<Rightarrow> (db', Ok False))"

text \<open>Counting the votes.\<close>

definition cast_tally ::
  "db_engine \<Rightarrow> JobRequest \<Rightarrow> string \<Rightarrow> ApprovalPolicy option \<Rightarrow> DB \<Rightarrow> (repo_error, ApprovalStatus) result" where
  "cast_tally e request taskExecutionID policy db =
     (case CountVotes e taskExecutionID db of
        Inl err \<Rightarrow> Err err
      | Inr (approvals, rejections) \<Rightarrow>
          (case GetVotes e taskExecutionID db of
             Inl err \<Rightarrow> Err err
           | Inr allVotes \<Rightarrow>
               Ok \<lparr>as_TaskExecutionID = taskExecutionID, as_JobRequestID = jr_ID request,
                   as_ApprovalsReceived = approvals, as_RejectionsReceived = rejections,
                   as_MinApprovalsRequired = min_required policy, as_QuorumReached = False,
                   as_Rejected = False, as_SLABreached = False, as_Deadline = None,
                   as_Votes = allVotes, as_Policy = policy\<rparr>))"

text \<open>Deciding on the counted votes.\<close>

definition cast_finish ::
  "db_engine \<Rightarrow> JobRequest \<Rightarrow> string \<Rightarrow> string \<Rightarrow> ApprovalPolicy option \<Rightarrow> vote_call \<Rightarrow> ApprovalStatus \<Rightarrow> DB \<Rightarrow>
   DB \<times> ApprovalStatus \<times> repo_error option" where
  "cast_finish e request taskType taskExecutionID policy c status db =
     (if isRejected (as_ApprovalsReceived status) (as_RejectionsReceived status) policy then
        (case finalizeRejection e (vc_newkey c) (vc_now c) (vc_qc c) request taskType taskExecutionID
                (vc_voterID c) (vc_comments c) db of
           (db', err) \<Rightarrow> (db', status\<lparr>as_Rejected := True\<rparr>, err))
      else if as_ApprovalsReceived status \<ge> as_MinApprovalsRequired status then
        (case finalizeApproval e (vc_now c) (vc_qc c) request taskType taskExecutionID
                (vc_voterID c) (vc_comments c) db of
           (db', err) \<Rightarrow> (db', status\<lparr>as_QuorumReached := True\<rparr>, err))
      else (db, status, None))"

definition CastVote ::
  "db_engine \<Rightarrow> JobRequest option \<Rightarrow> string \<Rightarrow> string \<Rightarrow> ApprovalPolicy option \<Rightarrow> vote_call \<Rightarrow> DB \<Rightarrow>
   DB \<times> ApprovalStatus option \<times> repo_error option" where
  "CastVote e request taskType taskExecutionID policy c db =
     (case cast_guard request taskType taskExecutionID policy c of
        Some err \<Rightarrow> (db, None, Some err)
      | None \<Rightarrow>
          let r = the request in
          (case cast_record e r taskExecutionID c db of
             (db1, Inl err) \<Rightarrow> (db1, None, Some err)
           | (db1, Inr True) \<Rightarrow>
               (case GetStatus e taskExecutionID (jr_ID r) policy db1 of
                  Inl err \<Rightarrow> (db1, None, Some err)
                | Inr status \<Rightarrow> (db1, Some status, None))
           | (db1, Inr False) \<Rightarrow>
               (case cast_tally e r taskExecutionID policy db1 of
                  Inl err \<Rightarrow> (db1, None, Some err)
                | Inr status \<Rightarrow>
                    (case cast_finish e r taskType taskExecutionID policy c status db1 of
                       (db2, status', err) \<Rightarrow> (db2, Some status', err)))))"

subsection \<open>Service: deadlines\<close>

text \<open>The message that is sent is returned along with the result; a failure to send it is only
  logged.  \<open>can_notify\<close>: a function to notify with was given.\<close>

definition HandleSLABreach ::
  "db_engine \<Rightarrow> string \<Rightarrow> int \<Rightarrow> QueryContext \<Rightarrow> ApprovalDeadline \<Rightarrow> JobRequest \<Rightarrow> string \<Rightarrow> bool \<Rightarrow> DB \<Rightarrow>
   DB \<times> (string list \<times> string) option \<times> repo_error option" where
  "HandleSLABreach e newid now qc deadline request taskType can_notify db =
     (case ad_TimeoutAction deadline of
        TimeoutActionAutoApprove \<Rightarrow>
          (case finalizeApproval e now qc request taskType (ad_TaskExecutionID deadline)
                  SyntheticVoterID ''Auto-approved by SLA timeout'' db of
             (db', Some err) \<Rightarrow> (db', None, Some err)
           | (db', None) \<Rightarrow>
               (case MarkDeadlineResolved e (ad_ID deadline) db' of (db'', err) \<Rightarrow> (db'', None, err)))
      | TimeoutActionAutoReject \<Rightarrow>
          (case finalizeRejection e newid now qc request taskType (ad_TaskExecutionID deadline)
                  SyntheticVoterID ''Auto-rejected by SLA timeout'' db of
             (db', Some err) \<Rightarrow> (db', None, Some err)
           | (db', None) \<Rightarrow>
               (case MarkDeadlineResolved e (ad_ID deadline) db' of (db'', err) \<Rightarrow> (db'', None, err)))
      | _ \<Rightarrow>
          (let recipients = splitTrimmed (ad_EscalationRecipients deadline);
               sent = (if length recipients > 0 \<and> can_notify
                       then Some (recipients, ''Approval SLA breached for job request '' @
                                   ad_JobRequestID deadline @ '' (task: '' @ taskType @ '')'')
                       else None)
           in case MarkDeadlineEscalated e (ad_ID deadline) db of (db', err) \<Rightarrow> (db', sent, err)))"

definition CreateDeadlineIfNeeded ::
  "db_engine \<Rightarrow> string \<Rightarrow> int \<Rightarrow> string \<Rightarrow> string \<Rightarrow> ApprovalPolicy option \<Rightarrow> DB \<Rightarrow> DB \<times> repo_error option" where
  "CreateDeadlineIfNeeded e newid now taskExecutionID jobRequestID policy db =
     (case policy of
        None \<Rightarrow> (db, None)
      | Some p \<Rightarrow>
          if ap_SLADeadline p \<le> 0 then (db, None)
          else
            (case SaveDeadline e newid now
                    \<lparr>ad_ID = [], ad_TaskExecutionID = taskExecutionID, ad_JobRequestID = jobRequestID,
                     ad_Deadline = now + ap_SLADeadline p, ad_Escalated = False, ad_Resolved = False,
                     ad_TimeoutAction = EffectiveTimeoutAction p,
                     ad_EscalationRecipients = ap_EscalationRecipients p, ad_CreatedAt = 0\<rparr> db of
               (db', Inl err) \<Rightarrow> (db', Some err)
             | (db', Inr _) \<Rightarrow> (db', None)))"

subsection \<open>Interleaved votes\<close>

text \<open>Several callers vote on one task.  A caller that has recorded its vote counts the votes later,
  and decides on what it counted later still; other callers may act in between, and any statement
  may fail, after which the caller gives up.  Callers are authenticated: the controller takes the
  voter from the session.\<close>

datatype vote_phase = Recorded vote_call | Tallied vote_call ApprovalStatus

definition voter_identity :: "QueryContext \<Rightarrow> string \<Rightarrow> string" where
  "voter_identity qc body_id =
     (if qc_GetUserID qc \<noteq> [] then qc_GetUserID qc
      else case qc_User qc of
             Some u \<Rightarrow> if us_Username u \<noteq> [] then us_Username u else body_id
           | None \<Rightarrow> body_id)"

inductive approval_step ::
  "db_engine \<Rightarrow> JobRequest \<Rightarrow> string \<Rightarrow> string \<Rightarrow> ApprovalPolicy \<Rightarrow> DB \<times> vote_phase list \<Rightarrow> DB \<times> vote_phase list \<Rightarrow> bool"
  for e request taskType taskExecutionID policy where
  record_ok: "qc_GetUserID (vc_qc c) \<noteq> [] \<Longrightarrow> vc_voterID c = voter_identity (vc_qc c) body_id \<Longrightarrow>
     cast_guard (Some request) taskType taskExecutionID (Some policy) c = None \<Longrightarrow>
     cast_record e request taskExecutionID c db = (db', Ok False) \<Longrightarrow>
     approval_step e request taskType taskExecutionID policy (db, ps) (db', Recorded c # ps)"
| record_other: "qc_GetUserID (vc_qc c) \<noteq> [] \<Longrightarrow> vc_voterID c = voter_identity (vc_qc c) body_id \<Longrightarrow>
     cast_guard (Some request) taskType taskExecutionID (Some policy) c = None \<Longrightarrow>
     cast_record e request taskExecutionID c db = (db', r) \<Longrightarrow> r \<noteq> Ok False \<Longrightarrow>
     approval_step e request taskType taskExecutionID policy (db, ps) (db', ps)"
| tally: "cast_tally e request taskExecutionID (Some policy) db = Ok status \<Longrightarrow>
     approval_step e request taskType taskExecutionID policy
       (db, ps @ Recorded c # qs) (db, ps @ Tallied c status # qs)"
| give_up: "approval_step e request taskType taskExecutionID policy (db, ps @ p # qs) (db, ps @ qs)"
| finish: "cast_finish e request taskType taskExecutionID (Some policy) c status db = (db', status', err) \<Longrightarrow>
     approval_step e request taskType taskExecutionID policy
       (db, ps @ Tallied c status # qs) (db', ps @ qs)"

definition votes_for :: "ApprovalDecision \<Rightarrow> string \<Rightarrow> DB \<Rightarrow> nat" where
  "votes_for d taskExecutionID db =
     length (filter (\<lambda>v. av_TaskExecutionID v = taskExecutionID \<and> av_Decision v = d) (db_votes db))"

definition votes_ok :: "ApprovalPolicy \<Rightarrow> string \<Rightarrow> DB \<Rightarrow> bool" where
  "votes_ok policy taskExecutionID db \<longleftrightarrow>
     distinct (map av_VoterID (filter (\<lambda>v. av_TaskExecutionID v = taskExecutionID) (db_votes db))) \<and>
     (\<forall>v \<in> set (db_votes db). av_TaskExecutionID v = taskExecutionID \<longrightarrow>
        av_Decision v \<in> {ApprovalDecisionApproved, ApprovalDecisionRejected} \<and>
        (\<exists>qc. qc_GetUserID qc = av_VoterID v \<and> authorizeVoter qc (Some policy) (av_VoterID v) = None))"

text \<open>What a caller counted was there, and the task has moved on only with the votes for it.\<close>

definition phase_ok :: "ApprovalPolicy \<Rightarrow> string \<Rightarrow> DB \<Rightarrow> vote_phase \<Rightarrow> bool" where
  "phase_ok policy taskExecutionID db p =
     (case p of
        Recorded c \<Rightarrow> True
      | Tallied c st \<Rightarrow>
          as_MinApprovalsRequired st = ap_MinApprovals policy \<and> 0 \<le> as_RejectionsReceived st \<and>
          as_ApprovalsReceived st \<le> int (votes_for ApprovalDecisionApproved taskExecutionID db) \<and>
          as_RejectionsReceived st \<le> int (votes_for ApprovalDecisionRejected taskExecutionID db))"

definition decided :: "ApprovalPolicy \<Rightarrow> string \<Rightarrow> DB \<Rightarrow> TaskExecution \<Rightarrow> bool" where
  "decided policy taskExecutionID db t \<longleftrightarrow>
     te_TaskState t = MANUAL_APPROVAL_REQUIRED \<or>
     te_TaskState t = COMPLETED \<and>
       ap_MinApprovals policy \<le> int (votes_for ApprovalDecisionApproved taskExecutionID db) \<or>
     te_TaskState t = FAILED \<and> 0 < votes_for ApprovalDecisionRejected taskExecutionID db"

definition approval_inv ::
  "JobRequest \<Rightarrow> string \<Rightarrow> string \<Rightarrow> ApprovalPolicy \<Rightarrow> DB \<times> vote_phase list \<Rightarrow> bool" where
  "approval_inv request taskType taskExecutionID policy s \<longleftrightarrow>
     votes_ok policy taskExecutionID (fst s) \<and>
     (\<forall>p \<in> set (snd s). phase_ok policy taskExecutionID (fst s) p) \<and>
     (\<forall>t \<in> set (db_tasks (fst s)).
        te_JobExecutionID t = jr_JobExecutionID request \<and> te_TaskType t = taskType \<longrightarrow>
        decided policy taskExecutionID (fst s) t)"

subsection \<open>Lemmas\<close>

lemma count_loop_eq:
  "distinct (map fst rows) \<Longrightarrow>
   count_loop rows (a, r) =
     ((case map_of rows ''APPROVED'' of Some n \<Rightarrow> int n | None \<Rightarrow> a),
      (case map_of rows ''REJECTED'' of Some n \<Rightarrow> int n | None \<Rightarrow> r))"
proof (induction rows arbitrary: a r)
  case (Cons x rows)
  obtain d n where x: "x = (d, n)" by fastforce
  have "d \<notin> fst ` set rows" "distinct (map fst rows)" using Cons.prems x by auto
  then have "map_of rows d = None" by (simp add: map_of_eq_None_iff)
  with Cons.IH[OF \<open>distinct (map fst rows)\<close>] show ?case by (auto simp: x)
qed simp

lemma group_lookup:
  assumes "distinct (map fst gs)" and "set gs = {(k, f k) | k. k \<in> S}"
  shows "map_of gs k = (if k \<in> S then Some (f k) else None)"
proof (cases "k \<in> S")
  case True
  then have "(k, f k) \<in> set gs" using assms(2) by blast
  then show ?thesis using True assms(1) by simp
next
  case False
  then have "k \<notin> fst ` set gs" using assms(2) by auto
  then show ?thesis using False by (simp add: map_of_eq_None_iff)
qed

lemma decision_string_iff:
  "d \<in> {ApprovalDecisionApproved, ApprovalDecisionRejected} \<Longrightarrow>
   (decision_string d = ''APPROVED'' \<longleftrightarrow> d = ApprovalDecisionApproved) \<and>
   (decision_string d = ''REJECTED'' \<longleftrightarrow> d = ApprovalDecisionRejected)"
  by auto

lemma cast_guard_None:
  "cast_guard (Some r) ty tid policy c = None \<Longrightarrow>
     vc_decision c \<in> {ApprovalDecisionApproved, ApprovalDecisionRejected} \<and>
     jr_JobState r = MANUAL_APPROVAL_REQUIRED \<and> authorizeVoter (vc_qc c) policy (vc_voterID c) = None"
  by (auto simp: cast_guard_def split: if_splits)

lemma authorizeVoter_synthetic: "authorizeVoter qc policy w = None \<Longrightarrow> w \<noteq> SyntheticVoterID"
  by (auto simp: authorizeVoter_def)

lemma isRejected_votes: "isRejected a r policy \<Longrightarrow> r \<noteq> 0"
  by (auto simp: isRejected_def)

lemma phase_ok_mono:
  "(\<And>d. votes_for d tid db \<le> votes_for d tid db') \<Longrightarrow> phase_ok policy tid db p \<Longrightarrow> phase_ok policy tid db' p"
  by (auto simp: phase_ok_def split: vote_phase.splits intro: order_trans)

lemma decided_mono:
  "(\<And>d. votes_for d tid db \<le> votes_for d tid db') \<Longrightarrow> decided policy tid db t \<Longrightarrow> decided policy tid db' t"
  unfolding decided_def by (meson le_trans less_le_trans of_nat_mono order.trans)

lemma votes_for_append: "votes_for d tid db \<le> votes_for d tid (db\<lparr>db_votes := db_votes db @ vs\<rparr>)"
  by (simp add: votes_for_def)

lemma votes_ok_append:
  assumes "votes_ok policy tid db" and "\<not> list_ex (same_voter tid (av_VoterID v)) (db_votes db)"
    and "av_TaskExecutionID v = tid" and "av_Decision v \<in> {ApprovalDecisionApproved, ApprovalDecisionRejected}"
    and "qc_GetUserID qc = av_VoterID v" and "authorizeVoter qc (Some policy) (av_VoterID v) = None"
  shows "votes_ok policy tid (db\<lparr>db_votes := db_votes db @ [v]\<rparr>)"
  using assms by (auto simp: votes_ok_def list_ex_iff same_voter_def)

context sql_engine
begin

lemma CountVotes_eq:
  assumes "votes_ok policy tid db" and "CountVotes e tid db = Ok (a, r)"
  shows "a = int (votes_for ApprovalDecisionApproved tid db)"
    and "r = int (votes_for ApprovalDecisionRejected tid db)"
proof -
  let ?p = "\<lambda>v. av_TaskExecutionID v = tid" and ?col = "\<lambda>v. decision_string (av_Decision v)"
  from assms(2) obtain gs where gs: "op_group (e_votes e) ?p ?col (db_votes db) = Ok gs"
    and ar: "count_loop gs (0, 0) = (a, r)"
    by (auto simp: CountVotes_def split: sum.splits)
  note g = votes.group_ok[OF gs]
  have look: "(case map_of gs k of Some n \<Rightarrow> int n | None \<Rightarrow> 0) =
      int (length (filter (\<lambda>v. ?p v \<and> ?col v = k) (db_votes db)))" for k
    using group_lookup[OF conjunct1[OF g] conjunct2[OF g], of k] by (auto simp: filter_empty_conv)
  have str: "filter (\<lambda>v. ?p v \<and> ?col v = decision_string d) (db_votes db) =
      filter (\<lambda>v. ?p v \<and> av_Decision v = d) (db_votes db)"
    if "d \<in> {ApprovalDecisionApproved, ApprovalDecisionRejected}" for d
    using assms(1) that by (intro filter_cong) (auto simp: votes_ok_def)
  have "a = int (length (filter (\<lambda>v. ?p v \<and> ?col v = ''APPROVED'') (db_votes db)))"
    "r = int (length (filter (\<lambda>v. ?p v \<and> ?col v = ''REJECTED'') (db_votes db)))"
    using ar unfolding count_loop_eq[OF conjunct1[OF g]] look by simp_all
  then show "a = int (votes_for ApprovalDecisionApproved tid db)"
    "r = int (votes_for ApprovalDecisionRejected tid db)"
    using str[of ApprovalDecisionApproved] str[of ApprovalDecisionRejected] by (simp_all add: votes_for_def)
qed

lemma SaveVote_effect:
  assumes "SaveVote e newid now v db = (db', r)"
  shows "db' = db \<or> vote_Validate v = None \<and> (\<exists>v'. av_TaskExecutionID v' = av_TaskExecutionID v \<and>
     av_VoterID v' = av_VoterID v \<and> av_Decision v' = av_Decision v \<and>
     \<not> list_ex (same_voter (av_TaskExecutionID v) (av_VoterID v)) (db_votes db) \<and>
     db' = db\<lparr>db_votes := db_votes db @ [v']\<rparr>)"
proof (cases "vote_Validate v = None")
  case True
  let ?v = "v\<lparr>av_ID := (if av_ID v = [] then newid else av_ID v),
     av_VotedAt := (if av_VotedAt v = 0 then now else av_VotedAt v)\<rparr>"
  let ?mine = "same_voter (av_TaskExecutionID v) (av_VoterID v)"
  show ?thesis
  proof (cases "op_create_new (e_votes e) ?mine ?v (db_votes db)")
    case (Inl m)
    with assms True show ?thesis by (simp add: SaveVote_def Let_def)
  next
    case (Inr rows)
    have "db' = db\<lparr>db_votes := rows\<rparr>"
      using assms True Inr by (simp add: SaveVote_def Let_def split: sum.splits option.splits)
    with votes.create_new_ok[OF Inr] True show ?thesis
      by (cases "list_ex ?mine (db_votes db)") (simp, intro disjI2 conjI exI[of _ ?v], simp_all)
  qed
next
  case False
  with assms show ?thesis by (simp add: SaveVote_def)
qed

lemma cast_record_effect:
  assumes "cast_record e request tid c db = (db', r)"
  shows "db' = db \<or> (\<exists>v. av_TaskExecutionID v = tid \<and> av_VoterID v = vc_voterID c \<and>
     av_Decision v = vc_decision c \<and> \<not> list_ex (same_voter tid (vc_voterID c)) (db_votes db) \<and>
     db' = db\<lparr>db_votes := db_votes db @ [v]\<rparr>)"
  using assms unfolding cast_record_def Let_def
  by (fastforce split: if_splits sum.splits prod.splits dest!: SaveVote_effect)

lemma resolve_open_frame:
  "db_tasks (resolve_open e tid db) = db_tasks db" "db_execs (resolve_open e tid db) = db_execs db"
  "db_requests (resolve_open e tid db) = db_requests db" "db_votes (resolve_open e tid db) = db_votes db"
  by (auto simp: resolve_open_def update_deadlines_def split: sum.splits prod.splits)

lemma approval_body_Ok:
  assumes "approval_body e now qc request ty tid by_whom comments db = Ok db'"
  shows "db_tasks db' = update_rows (awaiting_task request ty)
      (approved_task now (decision_message ''Approved by '' by_whom comments) comments) (db_tasks db)"
    and "db_requests db' = update_rows (awaiting_request qc request) (approved_request now) (db_requests db)"
    and "db_execs db' = db_execs db" and "db_votes db' = db_votes db"
  using assms
  by (auto simp: approval_body_def Let_def resolve_open_frame split: sum.splits prod.splits
      dest!: update_tasks_Ok update_requests_Ok)

lemma rejection_body_Ok:
  assumes "rejection_body e newid now qc request ty tid by_whom comments db = Ok db'"
  shows "db_tasks db' = update_rows (awaiting_task request ty)
      (rejected_task now (decision_message ''Rejected by '' by_whom comments) comments) (db_tasks db)"
    and "db_requests db' = update_rows (awaiting_request qc request)
      (rejected_request newid now (decision_message ''Rejected by '' by_whom comments)) (db_requests db)"
    and "db_execs db' = update_rows (awaiting_exec request)
      (rejected_exec now (decision_message ''Rejected by '' by_whom comments)) (db_execs db)"
    and "db_votes db' = db_votes db"
  using assms
  by (auto simp: rejection_body_def Let_def resolve_open_frame split: sum.splits prod.splits
      dest!: update_tasks_Ok update_requests_Ok update_execs_Ok)

lemma finalize_effect:
  "finalizeRejection e newid now qc request ty tid by_whom comments db = (db', err) \<Longrightarrow>
     db' = db \<or> rejection_body e newid now qc request ty tid by_whom comments db = Ok db'"
  "finalizeApproval e now qc request ty tid by_whom comments db = (db', err) \<Longrightarrow>
     db' = db \<or> approval_body e now qc request ty tid by_whom comments db = Ok db'"
  unfolding finalizeRejection_def finalizeApproval_def by (erule transaction_cases; simp)+

lemma cast_finish_effect:
  assumes "cast_finish e request ty tid policy c st db = (db', st', err)"
  shows "db_votes db' = db_votes db \<and> (db_tasks db' = db_tasks db \<or>
      isRejected (as_ApprovalsReceived st) (as_RejectionsReceived st) policy \<and>
        (\<exists>msg. db_tasks db' = update_rows (awaiting_task request ty)
           (rejected_task (vc_now c) msg (vc_comments c)) (db_tasks db)) \<or>
      as_MinApprovalsRequired st \<le> as_ApprovalsReceived st \<and>
        (\<exists>msg. db_tasks db' = update_rows (awaiting_task request ty)
           (approved_task (vc_now c) msg (vc_comments c)) (db_tasks db)))"
proof -
  consider (same) "db' = db"
    | (reject) "isRejected (as_ApprovalsReceived st) (as_RejectionsReceived st) policy"
        "rejection_body e (vc_newkey c) (vc_now c) (vc_qc c) request ty tid (vc_voterID c) (vc_comments c) db = Ok db'"
    | (approve) "as_MinApprovalsRequired st \<le> as_ApprovalsReceived st"
        "approval_body e (vc_now c) (vc_qc c) request ty tid (vc_voterID c) (vc_comments c) db = Ok db'"
    using assms unfolding cast_finish_def
    by (auto split: if_splits prod.splits dest!: finalize_effect)
  then show ?thesis
  proof cases
    case reject
    then show ?thesis using rejection_body_Ok(1,4)[OF reject(2)] by auto
  next
    case approve
    then show ?thesis using approval_body_Ok(1,4)[OF approve(2)] by auto
  qed simp
qed

lemma cast_tally_Ok:
  assumes "votes_ok policy tid db" and "cast_tally e request tid (Some policy) db = Ok st"
  shows "phase_ok policy tid db (Tallied c st)"
  using assms(2) CountVotes_eq[OF assms(1)]
  by (auto simp: cast_tally_def phase_ok_def min_required_def split: sum.splits prod.splits)

lemma approval_inv_finish:
  assumes inv: "approval_inv request ty tid policy (db, ps @ Tallied c st # qs)"
    and fin: "cast_finish e request ty tid (Some policy) c st db = (db', st', err)"
  shows "approval_inv request ty tid policy (db', ps @ qs)"
proof -
  note f = cast_finish_effect[OF fin]
  have votes: "votes_for d tid db' = votes_for d tid db" for d using f by (simp add: votes_for_def)
  have ph: "phase_ok policy tid db (Tallied c st)" using inv by (simp add: approval_inv_def)
  have "decided policy tid db' t"
    if t: "t \<in> set (db_tasks db')" "te_JobExecutionID t = jr_JobExecutionID request" "te_TaskType t = ty" for t
  proof -
    have old: "decided policy tid db' u" if "u \<in> set (db_tasks db)"
      "te_JobExecutionID u = jr_JobExecutionID request" "te_TaskType u = ty" for u
      using inv that by (auto simp: approval_inv_def decided_def votes)
    from f consider "db_tasks db' = db_tasks db"
      | msg where "isRejected (as_ApprovalsReceived st) (as_RejectionsReceived st) (Some policy)"
        "db_tasks db' = update_rows (awaiting_task request ty) (rejected_task (vc_now c) msg (vc_comments c)) (db_tasks db)"
      | msg where "as_MinApprovalsRequired st \<le> as_ApprovalsReceived st"
        "db_tasks db' = update_rows (awaiting_task request ty) (approved_task (vc_now c) msg (vc_comments c)) (db_tasks db)"
      by blast
    then show ?thesis
    proof cases
      case 1
      with t old show ?thesis by auto
    next
      case 2
      with t old ph isRejected_votes[OF 2(1)] show ?thesis
        by (auto simp: set_update_rows rejected_task_def decided_def votes phase_ok_def split: if_splits)
    next
      case 3
      with t old ph show ?thesis
        by (auto simp: set_update_rows approved_task_def decided_def votes phase_ok_def split: if_splits)
    qed
  qed
  then show ?thesis using inv f
    by (auto simp: approval_inv_def votes_ok_def phase_ok_def votes split: vote_phase.splits)
qed

lemma approval_inv_record:
  assumes "approval_inv request ty tid policy (db, ps)" and "qc_GetUserID (vc_qc c) \<noteq> []"
    and "vc_voterID c = voter_identity (vc_qc c) body_id"
    and "cast_guard (Some request) ty tid (Some policy) c = None"
    and "cast_record e request tid c db = (db', r)"
  shows "approval_inv request ty tid policy (db', ps)"
proof (cases "db' = db")
  case False
  then obtain v where v: "av_TaskExecutionID v = tid" "av_VoterID v = vc_voterID c"
    "av_Decision v = vc_decision c" "\<not> list_ex (same_voter tid (vc_voterID c)) (db_votes db)"
    and db': "db' = db\<lparr>db_votes := db_votes db @ [v]\<rparr>"
    using cast_record_effect[OF assms(5)] by blast
  note g = cast_guard_None[OF assms(4)]
  have mono: "votes_for d tid db \<le> votes_for d tid db'" for d by (simp add: db' votes_for_append)
  have "votes_ok policy tid db'"
    unfolding db' using assms(1,2,3) v g
    by (intro votes_ok_append[of _ _ _ _ "vc_qc c"]) (auto simp: approval_inv_def voter_identity_def)
  with assms(1) show ?thesis
    using phase_ok_mono[OF mono] decided_mono[OF mono] by (auto simp: approval_inv_def db')
qed (use assms(1) in simp)

lemma approval_step_inv:
  "approval_step e request ty tid policy s s' \<Longrightarrow> approval_inv request ty tid policy s \<Longrightarrow>
   approval_inv request ty tid policy s'"
proof (induction rule: approval_step.induct)
  case (record_ok c body_id db db' ps)
  then have "approval_inv request ty tid policy (db', ps)" using approval_inv_record by blast
  then show ?case by (simp add: approval_inv_def phase_ok_def)
next
  case (record_other c body_id db db' r ps)
  then show ?case using approval_inv_record by blast
next
  case (tally db st ps c qs)
  then show ?case using cast_tally_Ok by (fastforce simp: approval_inv_def)
next
  case (give_up db ps p qs)
  then show ?case by (simp add: approval_inv_def)
next
  case (finish c st db db' st' err ps qs)
  then show ?case using approval_inv_finish by blast
qed

lemma approval_steps_inv:
  "(approval_step e request ty tid policy)\<^sup>*\<^sup>* s s' \<Longrightarrow> approval_inv request ty tid policy s \<Longrightarrow>
   approval_inv request ty tid policy s'"
  by (induction rule: rtranclp_induct) (auto intro: approval_step_inv)

lemma GetStatus_quorum:
  assumes "GetStatus e tid rid policy db = Ok st"
  shows "as_QuorumReached st \<longleftrightarrow> min_required policy \<le> int (votes_for ApprovalDecisionApproved tid db)"
proof -
  from assms obtain vs where vs: "op_find (e_votes e) (\<lambda>v. av_TaskExecutionID v = tid) av_VotedAt (db_votes db) = Ok vs"
    and st: "as_QuorumReached st \<longleftrightarrow> min_required policy \<le> int (length (filter IsApproved vs))"
    by (auto simp: GetStatus_def GetVotes_def Let_def split: sum.splits)
  have "length (filter IsApproved vs) = length (filter IsApproved (filter (\<lambda>v. av_TaskExecutionID v = tid) (db_votes db)))"
    by (rule same_rows_filter[OF conjunct1[OF votes.find_ok[OF vs]]])
  also have "\<dots> = votes_for ApprovalDecisionApproved tid db"
    by (simp add: votes_for_def IsApproved_def conj_commute)
  finally show ?thesis using st by simp
qed

lemma cast_record_again:
  assumes "v \<in> set (db_votes db)" and "same_voter tid (vc_voterID c) v"
  shows "(\<exists>err. cast_record e request tid c db = (db, Err err)) \<or> cast_record e request tid c db = (db, Ok True)"
proof (cases "op_count (e_votes e) (same_voter tid (vc_voterID c)) (db_votes db)")
  case (Inr n)
  have "n \<noteq> 0" using votes.count_ok[OF Inr] assms by (auto simp: filter_empty_conv)
  with Inr show ?thesis by (simp add: cast_record_def HasVoted_def)
qed (simp add: cast_record_def HasVoted_def)

lemma HandleSLABreach_deadline:
  assumes "HandleSLABreach e newid now qc d request ty can_notify db = (db', sent, None)"
    and "x \<in> set (db_deadlines db')" and "ad_ID x = ad_ID d"
  shows "ad_Resolved x \<or> ad_Escalated x"
proof -
  have resolved: "ad_Resolved x" if "MarkDeadlineResolved e (ad_ID d) db1 = (db', None)" for db1
    using that assms(2,3) update_deadlines_Ok
    by (fastforce simp: MarkDeadlineResolved_def set_update_rows split: sum.splits prod.splits)
  have escalated: "ad_Escalated x" if "MarkDeadlineEscalated e (ad_ID d) db1 = (db', None)" for db1
    using that assms(2,3) update_deadlines_Ok
    by (fastforce simp: MarkDeadlineEscalated_def set_update_rows split: sum.splits prod.splits)
  show ?thesis using assms(1) resolved escalated
    by (auto simp: HandleSLABreach_def Let_def split: TimeoutAction.splits prod.splits option.splits)
qed

end

subsection \<open>A sample\<close>

definition sample_policy :: "int \<Rightarrow> ApprovalPolicy" where
  "sample_policy n =
     \<lparr>ap_ID = ''p1'', ap_TaskDefinitionID = ''d1'', ap_MinApprovals = n, ap_AllowedRoles = [],
      ap_AllowedUsers = ''alice, bob'', ap_RequireUnanimous = False, ap_SLADeadline = 0,
      ap_TimeoutAction = NoTimeoutAction, ap_EscalationRecipients = [], ap_EscalationMessage = [],
      ap_CreatedAt = 1, ap_UpdatedAt = 1\<rparr>"

definition sample_call :: "string \<Rightarrow> ApprovalDecision \<Rightarrow> vote_call" where
  "sample_call who d =
     \<lparr>vc_qc = NewQueryContextFromIDs who [], vc_voterID = who, vc_voterName = who, vc_decision = d,
      vc_comments = ''seen'', vc_now = 5, vc_newid = ''v-'' @ who, vc_newkey = ''k-'' @ who\<rparr>"

definition sample_vote :: "string \<Rightarrow> ApprovalDecision \<Rightarrow> ApprovalVote" where
  "sample_vote who d =
     \<lparr>av_ID = ''v-'' @ who, av_TaskExecutionID = ''t1'', av_JobRequestID = ''r1'', av_VoterID = who,
      av_VoterName = who, av_Decision = d, av_Comments = ''seen'', av_VotedAt = 5\<rparr>"

definition sample_deadline :: ApprovalDeadline where
  "sample_deadline =
     \<lparr>ad_ID = ''d1'', ad_TaskExecutionID = ''t1'', ad_JobRequestID = ''r1'', ad_Deadline = 3, ad_Escalated = False,
      ad_Resolved = False, ad_TimeoutAction = TimeoutActionEscalate, ad_EscalationRecipients = ''ops@x'',
      ad_CreatedAt = 1\<rparr>"

lemma sample_users: "AllowedUserList (sample_policy n) = [''alice'', ''bob'']" "AllowedRoleList (sample_policy n) = []"
  by (simp_all add: AllowedUserList_def AllowedRoleList_def sample_policy_def splitTrimmed_def SplitChar_def
      TrimSpace_def is_space_def)

lemma sample_guard:
  "who \<in> {''alice'', ''bob''} \<Longrightarrow> d \<in> {ApprovalDecisionApproved, ApprovalDecisionRejected} \<Longrightarrow>
   cast_guard (Some sample_request_row) ''deploy'' ''t1'' (Some (sample_policy n)) (sample_call who d) = None"
  by (auto simp: cast_guard_def sample_request_row_def sample_call_def authorizeVoter_def SyntheticVoterID_def
      sample_users Let_def)

lemma sample_record:
  "cast_record mem_engine sample_request_row ''t1'' (sample_call ''alice'' ApprovalDecisionApproved) sample_db =
     (sample_db\<lparr>db_votes := [sample_vote ''alice'' ApprovalDecisionApproved]\<rparr>, Ok False)"
  by (simp add: cast_record_def HasVoted_def SaveVote_def vote_Validate_def mem_engine_def mem_table_def
      sample_db_def sample_call_def sample_request_row_def sample_vote_def same_voter_def Let_def)

lemma CastVote_steps:
  assumes "qc_GetUserID (vc_qc c) \<noteq> []" and "vc_voterID c = voter_identity (vc_qc c) body_id"
    and "CastVote e (Some request) ty tid (Some policy) c db = (db', res)"
  shows "(approval_step e request ty tid policy)\<^sup>*\<^sup>* (db, []) (db', [])"
proof (cases "cast_guard (Some request) ty tid (Some policy) c")
  case None
  let ?step = "approval_step e request ty tid policy"
  obtain db1 r where rec: "cast_record e request tid c db = (db1, r)" by fastforce
  show ?thesis
  proof (cases "r = Ok False")
    case False
    then have "db' = db1" using assms(3) None rec
      by (auto simp: CastVote_def split: sum.splits bool.splits)
    then show ?thesis using record_other[OF assms(1,2) None rec False] by auto
  next
    case True
    then have s1: "?step (db, []) (db1, [] @ Recorded c # [])"
      using record_ok[OF assms(1,2) None] rec by simp
    show ?thesis
    proof (cases "cast_tally e request tid (Some policy) db1")
      case (Inl err)
      then have "db' = db1" using assms(3) None rec True by (simp add: CastVote_def)
      moreover have "?step (db1, [] @ Recorded c # []) (db1, [] @ [])" by (rule give_up)
      ultimately show ?thesis using s1 by (metis append_Nil rtranclp.simps)
    next
      case (Inr st)
      obtain db2 st' err where fin: "cast_finish e request ty tid (Some policy) c st db1 = (db2, st', err)"
        by (metis prod_cases3)
      have "db' = db2" using assms(3) None rec True Inr fin by (simp add: CastVote_def)
      moreover have "?step (db1, [] @ Recorded c # []) (db1, [] @ Tallied c st # [])" by (rule tally[OF Inr])
      moreover have "?step (db1, [] @ Tallied c st # []) (db2, [] @ [])" by (rule finish[OF fin])
      ultimately show ?thesis using s1 by (metis append_Nil rtranclp.simps)
    qed
  qed
next
  case (Some err)
  then show ?thesis using assms(3) by (simp add: CastVote_def)
qed

lemma sample_cast:
  "\<exists>st. CastVote mem_engine (Some sample_request_row) ''deploy'' ''t1'' (Some (sample_policy 1))
     (sample_call ''alice'' ApprovalDecisionApproved) sample_db =
   (sample_db\<lparr>db_votes := [sample_vote ''alice'' ApprovalDecisionApproved],
              db_tasks := [approved_task 5 ''Approved by alice: seen'' ''seen'' sample_task_row],
              db_requests := [approved_request 5 sample_request_row]\<rparr>, Some st, None)"
proof -
  let ?c = "sample_call ''alice'' ApprovalDecisionApproved"
  let ?db1 = "sample_db\<lparr>db_votes := [sample_vote ''alice'' ApprovalDecisionApproved]\<rparr>"
  let ?st = "\<lparr>as_TaskExecutionID = ''t1'', as_JobRequestID = ''r1'', as_ApprovalsReceived = 1,
    as_RejectionsReceived = 0, as_MinApprovalsRequired = 1, as_QuorumReached = False, as_Rejected = False,
    as_SLABreached = False, as_Deadline = None, as_Votes = [sample_vote ''alice'' ApprovalDecisionApproved],
    as_Policy = Some (sample_policy 1)\<rparr>"
  have guard: "cast_guard (Some sample_request_row) ''deploy'' ''t1'' (Some (sample_policy 1)) ?c = None"
    by (simp add: sample_guard)
  have tally: "cast_tally mem_engine sample_request_row ''t1'' (Some (sample_policy 1)) ?db1 = Ok ?st"
    by (simp add: cast_tally_def CountVotes_def GetVotes_def min_required_def mem_engine_def mem_table_def
        sample_vote_def sample_request_row_def sample_policy_def)
  have finish: "cast_finish mem_engine sample_request_row ''deploy'' ''t1'' (Some (sample_policy 1)) ?c ?st ?db1 =
     (?db1\<lparr>db_tasks := [approved_task 5 ''Approved by alice: seen'' ''seen'' sample_task_row],
           db_requests := [approved_request 5 sample_request_row]\<rparr>, ?st\<lparr>as_QuorumReached := True\<rparr>, None)"
    by (simp add: cast_finish_def isRejected_def finalizeApproval_def approval_body_def resolve_open_def Let_def
        update_tasks_def update_requests_def update_deadlines_def mem_engine_def mem_table_def mem_transaction_def
        sample_db_def sample_call_def sample_scope passes_def request_columns_def awaiting_task_def
        awaiting_request_def sample_task_row_def sample_request_row_def decision_message_def)
  show ?thesis by (simp add: CastVote_def guard sample_record tally finish)
qed

subsection \<open>Properties\<close>

text \<open>C12: However the votes of authenticated callers interleave and whatever statements fail, a task
  that awaited approval and had no votes is completed only when at least the required number of
  distinct voters, each authorized under its own identity and none of them the system, have approving
  votes on record, and failed only when a rejection is on record.\<close>

theorem approval_quorum:
  assumes "sql_engine e" and "(approval_step e request taskType taskExecutionID policy)\<^sup>*\<^sup>* (db, []) (db', ps)"
    and "\<forall>v \<in> set (db_votes db). av_TaskExecutionID v \<noteq> taskExecutionID"
    and "\<forall>t \<in> set (db_tasks db). te_JobExecutionID t = jr_JobExecutionID request \<and> te_TaskType t = taskType \<longrightarrow>
       te_TaskState t = MANUAL_APPROVAL_REQUIRED"
    and "t \<in> set (db_tasks db')" and "te_JobExecutionID t = jr_JobExecutionID request" and "te_TaskType t = taskType"
  shows "te_TaskState t = MANUAL_APPROVAL_REQUIRED \<or>
     te_TaskState t = COMPLETED \<and>
       (\<exists>voters. distinct voters \<and> ap_MinApprovals policy \<le> int (length voters) \<and>
          (\<forall>w \<in> set voters. w \<noteq> SyntheticVoterID \<and>
             (\<exists>v \<in> set (db_votes db'). same_voter taskExecutionID w v \<and> IsApproved v) \<and>
             (\<exists>qc. qc_GetUserID qc = w \<and> authorizeVoter qc (Some policy) w = None))) \<or>
     te_TaskState t = FAILED \<and>
       (\<exists>v \<in> set (db_votes db'). av_TaskExecutionID v = taskExecutionID \<and> av_Decision v = ApprovalDecisionRejected)"
proof -
  have "approval_inv request taskType taskExecutionID policy (db, [])"
    using assms(3,4) by (auto simp: approval_inv_def votes_ok_def decided_def filter_empty_conv)
  then have inv: "approval_inv request taskType taskExecutionID policy (db', ps)"
    by (rule sql_engine.approval_steps_inv[OF assms(1,2)])
  let ?mine = "filter (\<lambda>v. av_TaskExecutionID v = taskExecutionID) (db_votes db')"
  let ?yes = "filter IsApproved ?mine"
  have count: "votes_for ApprovalDecisionApproved taskExecutionID db' = length (map av_VoterID ?yes)"
    by (simp add: votes_for_def IsApproved_def conj_commute)
  have distinct: "distinct (map av_VoterID ?yes)"
    using inv distinct_map_filter[of av_VoterID ?mine IsApproved]
    unfolding approval_inv_def votes_ok_def fst_conv by blast
  have voter: "w \<noteq> SyntheticVoterID \<and> (\<exists>v \<in> set (db_votes db'). same_voter taskExecutionID w v \<and> IsApproved v) \<and>
      (\<exists>qc. qc_GetUserID qc = w \<and> authorizeVoter qc (Some policy) w = None)"
    if "w \<in> set (map av_VoterID ?yes)" for w
  proof -
    from that obtain v where v: "v \<in> set (db_votes db')" "av_TaskExecutionID v = taskExecutionID" "IsApproved v"
      "w = av_VoterID v" by auto
    then obtain qc where "qc_GetUserID qc = w" "authorizeVoter qc (Some policy) w = None"
      using inv unfolding approval_inv_def votes_ok_def fst_conv by blast
    then show ?thesis using v authorizeVoter_synthetic by (auto simp: same_voter_def)
  qed
  have no: "\<exists>v \<in> set (db_votes db'). av_TaskExecutionID v = taskExecutionID \<and> av_Decision v = ApprovalDecisionRejected"
    if "0 < votes_for ApprovalDecisionRejected taskExecutionID db'"
    using that by (auto simp: votes_for_def filter_empty_conv)
  have "decided policy taskExecutionID db' t" using inv assms(5-7) by (simp add: approval_inv_def)
  then show ?thesis unfolding decided_def count
  proof (elim disjE conjE)
    assume "te_TaskState t = COMPLETED" "ap_MinApprovals policy \<le> int (length (map av_VoterID ?yes))"
    then show ?thesis using distinct voter by (intro disjI2 disjI1 conjI exI[of _ "map av_VoterID ?yes"] ballI) simp_all
  qed (use no in simp_all)
qed

theorem approval_quorum_witness:
  "\<exists>voters. distinct voters \<and> 1 \<le> int (length voters) \<and>
     (\<forall>w \<in> set voters. w \<noteq> SyntheticVoterID \<and>
        (\<exists>v \<in> {sample_vote ''alice'' ApprovalDecisionApproved}. same_voter ''t1'' w v \<and> IsApproved v) \<and>
        (\<exists>qc. qc_GetUserID qc = w \<and> authorizeVoter qc (Some (sample_policy 1)) w = None))"
proof -
  let ?c = "sample_call ''alice'' ApprovalDecisionApproved"
  let ?t = "approved_task 5 ''Approved by alice: seen'' ''seen'' sample_task_row"
  let ?db' = "sample_db\<lparr>db_votes := [sample_vote ''alice'' ApprovalDecisionApproved], db_tasks := [?t],
    db_requests := [approved_request 5 sample_request_row]\<rparr>"
  have "qc_GetUserID (vc_qc ?c) \<noteq> []" "vc_voterID ?c = voter_identity (vc_qc ?c) []"
    by (simp_all add: sample_call_def sample_scope voter_identity_def)
  with sample_cast have steps: "(approval_step mem_engine sample_request_row ''deploy'' ''t1'' (sample_policy 1))\<^sup>*\<^sup>*
      (sample_db, []) (?db', [])"
    using CastVote_steps by blast
  show ?thesis
    using approval_quorum[OF mem_engine_laws steps, of ?t]
    by (simp add: sample_db_def sample_task_row_def sample_request_row_def approved_task_def sample_policy_def)
qed

text \<open>C26: Two decisions can race.  When an approval is finalized and a caller that counted a rejection
  before finalizes it afterwards, the approved task and the request that was moved to PENDING stay as
  they are while the execution of the request is marked FAILED.\<close>

theorem approval_race:
  assumes "sql_engine e"
    and "finalizeApproval e now1 qc1 request taskType taskExecutionID voter1 comments1 db = (db1, None)"
    and "finalizeRejection e newid now2 qc2 request taskType taskExecutionID voter2 comments2 db1 = (db2, None)"
    and "\<forall>r \<in> set (db_requests db). jr_ID r = jr_ID request \<longrightarrow>
       passes (AddOrgElseUserWhere qc1 False) (request_columns r)"
  shows "db_tasks db2 = db_tasks db1 \<and> db_requests db2 = db_requests db1 \<and>
     (\<forall>t \<in> set (db_tasks db2). \<not> awaiting_task request taskType t) \<and>
     (\<forall>x \<in> set (db_execs db). awaiting_exec request x \<longrightarrow>
        (\<exists>msg. rejected_exec now2 msg x \<in> set (db_execs db2)))"
proof -
  have body1: "approval_body e now1 qc1 request taskType taskExecutionID voter1 comments1 db = Ok db1"
    by (rule sql_engine.tx_commit[OF assms(1) assms(2)[unfolded finalizeApproval_def]])
  have body2: "rejection_body e newid now2 qc2 request taskType taskExecutionID voter2 comments2 db1 = Ok db2"
    by (rule sql_engine.tx_commit[OF assms(1) assms(3)[unfolded finalizeRejection_def]])
  note a = sql_engine.approval_body_Ok[OF assms(1) body1] and r = sql_engine.rejection_body_Ok[OF assms(1) body2]
  have t: "\<not> awaiting_task request taskType t" if "t \<in> set (db_tasks db1)" for t
    using that unfolding a(1) by (rule update_rows_cleared) (simp_all add: approved_task_def awaiting_task_def)
  have q: "\<not> awaiting_request qc2 request r" if "r \<in> set (db_requests db1)" for r
    using that unfolding a(2)
    by (rule update_rows_cleared) (use assms(4) in \<open>simp_all add: approved_request_def awaiting_request_def\<close>)
  have "db_tasks db2 = db_tasks db1" using t by (simp add: r(1) update_rows_none)
  moreover have "db_requests db2 = db_requests db1" using q by (simp add: r(2) update_rows_none)
  moreover have "\<exists>msg. rejected_exec now2 msg x \<in> set (db_execs db2)"
    if "x \<in> set (db_execs db)" "awaiting_exec request x" for x
    using that by (force simp: r(3) a(3) set_update_rows)
  ultimately show ?thesis using t by simp
qed

theorem approval_race_witness:
  "\<exists>db2. finalizeRejection mem_engine ''k'' 7 (NewQueryContextFromIDs ''alice'' []) sample_request_row ''deploy''
       ''t1'' ''bob'' ''no'' (fst (finalizeApproval mem_engine 6 (NewQueryContextFromIDs ''alice'' [])
         sample_request_row ''deploy'' ''t1'' ''alice'' [] sample_db)) = (db2, None) \<and>
     (\<forall>t \<in> set (db_tasks db2). \<not> awaiting_task sample_request_row ''deploy'' t) \<and>
     (\<exists>msg. rejected_exec 7 msg sample_exec_row \<in> set (db_execs db2))"
proof -
  let ?qc = "NewQueryContextFromIDs ''alice'' []"
  let ?r1 = "finalizeApproval mem_engine 6 ?qc sample_request_row ''deploy'' ''t1'' ''alice'' [] sample_db"
  let ?r2 = "finalizeRejection mem_engine ''k'' 7 ?qc sample_request_row ''deploy'' ''t1'' ''bob'' ''no'' (fst ?r1)"
  have 1: "?r1 = (fst ?r1, None)"
    by (simp add: finalizeApproval_def mem_engine_def mem_transaction_def approval_body_def update_tasks_def
        update_requests_def mem_table_def Let_def)
  have 2: "?r2 = (fst ?r2, None)"
    by (simp add: finalizeRejection_def mem_engine_def mem_transaction_def rejection_body_def update_tasks_def
        update_requests_def update_execs_def mem_table_def Let_def)
  have "\<forall>r \<in> set (db_requests sample_db). jr_ID r = jr_ID sample_request_row \<longrightarrow>
      passes (AddOrgElseUserWhere ?qc False) (request_columns r)"
    by (simp add: sample_db_def sample_scope passes_def request_columns_def sample_request_row_def)
  moreover have "sample_exec_row \<in> set (db_execs sample_db)" "awaiting_exec sample_request_row sample_exec_row"
    by (simp_all add: sample_db_def awaiting_exec_def sample_request_row_def sample_exec_row_def)
  ultimately show ?thesis using approval_race[OF mem_engine_laws 1 2] 2 by blast
qed

text \<open>C27: A caller whose vote is on record cannot make the decision happen: calling again changes
  nothing in the database, even when the status that is returned says that the quorum is reached.
  So when the caller that cast the deciding vote fails between recording and deciding, no voter on
  record can complete the approval.\<close>

theorem vote_retry_stuck:
  assumes "sql_engine e" and "v \<in> set (db_votes db)" and "same_voter taskExecutionID (vc_voterID c) v"
  shows "\<exists>res err. CastVote e (Some request) taskType taskExecutionID policy c db = (db, res, err) \<and>
     (\<forall>st. res = Some st \<longrightarrow>
        (as_QuorumReached st \<longleftrightarrow> min_required policy \<le> int (votes_for ApprovalDecisionApproved taskExecutionID db)))"
proof (cases "cast_guard (Some request) taskType taskExecutionID policy c")
  case None
  from sql_engine.cast_record_again[OF assms(1-3), of request] show ?thesis
  proof (elim disjE exE)
    assume "cast_record e request taskExecutionID c db = (db, Ok True)"
    with None show ?thesis using sql_engine.GetStatus_quorum[OF assms(1)]
      by (cases "GetStatus e taskExecutionID (jr_ID request) policy db") (simp_all add: CastVote_def)
  qed (use None in \<open>simp add: CastVote_def\<close>)
qed (simp add: CastVote_def)

theorem vote_retry_stuck_witness:
  "\<exists>st. CastVote mem_engine (Some sample_request_row) ''deploy'' ''t1'' (Some (sample_policy 1))
       (sample_call ''alice'' ApprovalDecisionApproved)
       (sample_db\<lparr>db_votes := [sample_vote ''alice'' ApprovalDecisionApproved]\<rparr>) =
     (sample_db\<lparr>db_votes := [sample_vote ''alice'' ApprovalDecisionApproved]\<rparr>, Some st, None) \<and>
     as_QuorumReached st"
proof -
  let ?c = "sample_call ''alice'' ApprovalDecisionApproved"
  let ?v = "sample_vote ''alice'' ApprovalDecisionApproved"
  let ?db = "sample_db\<lparr>db_votes := [?v]\<rparr>"
  have "?v \<in> set (db_votes ?db)" "same_voter ''t1'' (vc_voterID ?c) ?v"
    by (simp_all add: same_voter_def sample_vote_def sample_call_def)
  note stuck = vote_retry_stuck[OF mem_engine_laws this, of sample_request_row "''deploy''" "Some (sample_policy 1)"]
  have rec: "cast_record mem_engine sample_request_row ''t1'' ?c ?db = (?db, Ok True)"
    by (simp add: cast_record_def HasVoted_def mem_engine_def mem_table_def same_voter_def sample_vote_def sample_call_def)
  obtain st where "GetStatus mem_engine ''t1'' (jr_ID sample_request_row) (Some (sample_policy 1)) ?db = Ok st"
    by (simp add: GetStatus_def GetVotes_def mem_engine_def mem_table_def Let_def)
  then have r: "CastVote mem_engine (Some sample_request_row) ''deploy'' ''t1'' (Some (sample_policy 1)) ?c ?db = (?db, Some st, None)"
    by (simp add: CastVote_def sample_guard rec)
  have "min_required (Some (sample_policy 1)) \<le> int (votes_for ApprovalDecisionApproved ''t1'' ?db)"
    by (simp add: min_required_def sample_policy_def votes_for_def sample_vote_def)
  with stuck r show ?thesis by auto
qed

text \<open>Votes fail a task exactly when they have to: with a rejection on record, if the policy asks
  for unanimity or names no voters, or else if the voters it names who have not voted, were they all
  to approve, could not reach the required number.\<close>

theorem isRejected_hopeless:
  assumes "0 \<le> approvals" and "0 \<le> rejections"
  shows "isRejected approvals rejections (Some p) \<longleftrightarrow>
     rejections > 0 \<and> (ap_RequireUnanimous p \<or> AllowedUserList p = [] \<or>
       (\<forall>more. 0 \<le> more \<and> (more = 0 \<or> approvals + rejections + more \<le> int (length (AllowedUserList p))) \<longrightarrow>
          approvals + more < ap_MinApprovals p))"
proof -
  let ?n = "int (length (AllowedUserList p))"
  have "(\<forall>more. 0 \<le> more \<and> (more = 0 \<or> approvals + rejections + more \<le> ?n) \<longrightarrow> approvals + more < ap_MinApprovals p) \<longleftrightarrow>
      approvals + max 0 (?n - approvals - rejections) < ap_MinApprovals p" (is "?l \<longleftrightarrow> ?r")
  proof
    assume ?l
    then have "0 \<le> max 0 (?n - approvals - rejections) \<and>
        (max 0 (?n - approvals - rejections) = 0 \<or> approvals + rejections + max 0 (?n - approvals - rejections) \<le> ?n) \<longrightarrow>
        approvals + max 0 (?n - approvals - rejections) < ap_MinApprovals p" by blast
    then show ?r by (simp add: max_def split: if_splits)
  next
    assume r: ?r
    show ?l
    proof (intro allI impI)
      fix more assume "0 \<le> more \<and> (more = 0 \<or> approvals + rejections + more \<le> ?n)"
      then have "more \<le> max 0 (?n - approvals - rejections)" by auto
      then show "approvals + more < ap_MinApprovals p" using r by linarith
    qed
  qed
  then show ?thesis using assms by (auto simp: isRejected_def Let_def max_def)
qed

theorem isRejected_hopeless_witness:
  "isRejected 0 1 (Some (sample_policy 2)) \<and> \<not> isRejected 0 1 (Some (sample_policy 1))"
proof -
  have 1: "isRejected 0 1 (Some (sample_policy 2))"
    using isRejected_hopeless[of 0 1 "sample_policy 2"] by (auto simp: sample_users) (simp_all add: sample_policy_def)
  have "\<not> isRejected 0 1 (Some (sample_policy 1))"
    unfolding isRejected_hopeless[of 0 1 "sample_policy 1", simplified] sample_users
    by (auto simp: sample_policy_def intro!: exI[of _ 1])
  with 1 show ?thesis by simp
qed

text \<open>C28: A breach that is handled without error is handled once: the deadline is resolved or escalated
  and no later search for breached deadlines returns it.\<close>

theorem sla_breach_handled_once:
  assumes "sql_engine e" and "HandleSLABreach e newid now qc d request taskType can_notify db = (db', sent, None)"
    and "FindBreachedDeadlines e later n db' = Ok ds"
  shows "\<forall>x \<in> set ds. ad_ID x \<noteq> ad_ID d"
proof
  fix x assume x: "x \<in> set ds"
  from assms(3) obtain p where "op_page (e_deadlines e) (breached later) ad_Deadline 0 n (db_deadlines db') = Ok ds"
    by (auto simp: FindBreachedDeadlines_def split: sum.splits)
  then obtain xs where "same_rows xs (filter (breached later) (db_deadlines db'))" "ds = take n xs"
    using assms(1) sql_table.page_ok[of "e_deadlines e"] unfolding sql_engine_def by fastforce
  then have "x \<in> set (db_deadlines db')" "breached later x"
    using x by (auto dest!: same_rows_set in_set_takeD)
  then show "ad_ID x \<noteq> ad_ID d"
    using sql_engine.HandleSLABreach_deadline[OF assms(1,2)] by (auto simp: breached_def)
qed

theorem sla_breach_handled_once_witness:
  "\<exists>db' ds. HandleSLABreach mem_engine ''k'' 9 (NewQueryContext None []) sample_deadline sample_request_row ''deploy'' False
       (sample_db\<lparr>db_deadlines := [sample_deadline]\<rparr>) = (db', None, None) \<and>
     FindBreachedDeadlines mem_engine 10 100 db' = Ok ds \<and> (\<forall>x \<in> set ds. ad_ID x \<noteq> ''d1'')"
proof -
  let ?h = "HandleSLABreach mem_engine ''k'' 9 (NewQueryContext None []) sample_deadline sample_request_row ''deploy'' False
    (sample_db\<lparr>db_deadlines := [sample_deadline]\<rparr>)"
  have 1: "?h = (fst ?h, None, None)"
    by (simp add: HandleSLABreach_def MarkDeadlineEscalated_def update_deadlines_def mem_engine_def mem_table_def
        sample_deadline_def Let_def)
  obtain ds where 2: "FindBreachedDeadlines mem_engine 10 100 (fst ?h) = Ok ds"
    by (simp add: FindBreachedDeadlines_def mem_engine_def mem_table_def)
  have "ad_ID sample_deadline = ''d1''" by (simp add: sample_deadline_def)
  with sla_breach_handled_once[OF mem_engine_laws 1 2] 1 2 show ?thesis by metis
qed

end
