(* ===== verification/Request_Repository.thy ===== *)
theory Request_Repository
  imports Database
begin

text \<open>
  The repository of job requests (\<open>queen/repository/job_request_repository_impl.go\<close>): reading with
  the scope of the caller, the updates of the state with their conditions, cancelling, restarting,
  deleting and purging, and the searches for orphans.  Statements outside a transaction take effect
  one by one.  A column that is set to NULL is read as the empty text.  Reports that aggregate rows
  and free-form queries are left out.
\<close>

subsection \<open>Reading\<close>

text \<open>\<open>AfterLoad\<close> stops at the first parameter that does not parse, which is only logged.\<close>

definition loaded :: "(string \<Rightarrow> string \<Rightarrow> any option) \<Rightarrow> JobRequest \<Rightarrow> JobRequest" where
  "loaded dec r =
     (let good = takeWhile (\<lambda>p. is_ok (GetParsedValue dec p)) (jr_Params r)
      in r\<lparr>jr_lookupParams := fold (\<lambda>p. mset (nv_Name p) p) good [],
           jr_NameValueParams := rows_map dec good,
           jr_Params := sort_key nv_Name (jr_Params r)\<rparr>)"

definition in_scope :: "QueryContext \<Rightarrow> bool \<Rightarrow> JobRequest \<Rightarrow> bool" where
  "in_scope qc readonly r = passes (AddOrgElseUserWhere qc readonly) (request_columns r)"

definition req_Get ::
  "db_engine \<Rightarrow> (string \<Rightarrow> string \<Rightarrow> any option) \<Rightarrow> QueryContext \<Rightarrow> string \<Rightarrow> DB \<Rightarrow> (repo_error, JobRequest) result" where
  "req_Get e dec qc rid db =
     (if rid = [] then Err ValidationError
      else case op_first (e_requests e) (\<lambda>r. in_scope qc True r \<and> jr_ID r = rid) (db_requests db) of
             Inl _ \<Rightarrow> Err NotFoundError
           | Inr None \<Rightarrow> Err NotFoundError
           | Inr (Some r) \<Rightarrow> Ok (loaded dec r))"

definition req_GetByUserKey ::
  "db_engine \<Rightarrow> (string \<Rightarrow> string \<Rightarrow> any option) \<Rightarrow> QueryContext \<Rightarrow> string \<Rightarrow> DB \<Rightarrow> (repo_error, JobRequest) result" where
  "req_GetByUserKey e dec qc userKey db =
     (case op_first (e_requests e) (\<lambda>r. in_scope qc True r \<and> jr_UserKey r = userKey) (db_requests db) of
        Inl _ \<Rightarrow> Err NotFoundError
      | Inr None \<Rightarrow> Err NotFoundError
      | Inr (Some r) \<Rightarrow> Ok (loaded dec r))"

definition FindActiveChildRequests :: "db_engine \<Rightarrow> string \<Rightarrow> DB \<Rightarrow> (repo_error, JobRequest list) result" where
  "FindActiveChildRequests e parentID db =
     (if parentID = [] then Err ValidationError
      else case op_find (e_requests e) (\<lambda>r. jr_ParentID r = parentID \<and> jr_CascadeCancel r \<and>
                   jr_JobState r \<notin> set TerminalStates) (\<lambda>_. 0) (db_requests db) of
             Inl m \<Rightarrow> Err (DatabaseError m)
           | Inr rs \<Rightarrow> Ok rs)"

definition RecentIDs :: "db_engine \<Rightarrow> nat \<Rightarrow> DB \<Rightarrow> (repo_error, (string, RequestState) gomap) result" where
  "RecentIDs e n db =
     (case op_page (e_requests e) (\<lambda>_. True) (\<lambda>r. - jr_UpdatedAt r) 0 n (db_requests db) of
        Inl m \<Rightarrow> Err (DatabaseError m)
      | Inr rs \<Rightarrow> Ok (fold (\<lambda>r. mset (jr_ID r) (jr_JobState r)) rs []))"

definition RecentLiveIDs :: "db_engine \<Rightarrow> nat \<Rightarrow> DB \<Rightarrow> (repo_error, string list) result" where
  "RecentLiveIDs e n db =
     (case op_page (e_requests e) (\<lambda>r. jr_JobState r \<notin> set TerminalStates) (\<lambda>r. - jr_UpdatedAt r) 0 n (db_requests db) of
        Inl m \<Rightarrow> Err (DatabaseError m)
      | Inr rs \<Rightarrow> Ok (map jr_ID rs))"

definition RecentDeadIDs :: "db_engine \<Rightarrow> int \<Rightarrow> nat \<Rightarrow> int \<Rightarrow> int \<Rightarrow> DB \<Rightarrow> (repo_error, string list) result" where
  "RecentDeadIDs e now n fromOffset toOffset db =
     (case op_page (e_requests e)
             (\<lambda>r. jr_JobState r \<in> set TerminalStates \<and> jr_UpdatedAt r > now + i64 (fromOffset * -1) \<and>
                  jr_UpdatedAt r < now + i64 (toOffset * -1))
             (\<lambda>r. - jr_UpdatedAt r) 0 n (db_requests db) of
        Inl m \<Rightarrow> Err (DatabaseError m)
      | Inr rs \<Rightarrow> Ok (map jr_ID rs))"

definition CountByOrgAndState :: "db_engine \<Rightarrow> string \<Rightarrow> RequestState \<Rightarrow> DB \<Rightarrow> (repo_error, nat) result" where
  "CountByOrgAndState e org state db =
     (case op_count (e_requests e) (\<lambda>r. jr_OrganizationID r = org \<and> jr_JobState r = state) (db_requests db) of
        Inl m \<Rightarrow> Err (DatabaseError m)
      | Inr n \<Rightarrow> Ok n)"

definition CountByJobTypeAndState :: "db_engine \<Rightarrow> string \<Rightarrow> RequestState list \<Rightarrow> DB \<Rightarrow> (repo_error, nat) result" where
  "CountByJobTypeAndState e jobType states db =
     (case op_count (e_requests e)
             (\<lambda>r. jr_JobType r = jobType \<and> (length states > 0 \<longrightarrow> jr_JobState r \<in> set states)) (db_requests db) of
        Inl m \<Rightarrow> Err (DatabaseError m)
      | Inr n \<Rightarrow> Ok n)"

text \<open>\<open>staleInterval\<close> is a duration already; the product with a second wraps around at 64 bits.\<close>

definition orphan_cutoff :: "int \<Rightarrow> int \<Rightarrow> int" where
  "orphan_cutoff now staleInterval = now + i64 (i64 (- staleInterval) * Second)"

definition QueryOrphanRequests ::
  "db_engine \<Rightarrow> (string \<Rightarrow> string \<Rightarrow> any option) \<Rightarrow> int \<Rightarrow> nat \<Rightarrow> nat \<Rightarrow> int \<Rightarrow> DB \<Rightarrow> (repo_error, JobRequest list) result" where
  "QueryOrphanRequests e dec now n offset staleInterval db =
     (case op_page (e_requests e)
             (\<lambda>r. jr_JobState r \<in> set OrphanStates \<and> jr_UpdatedAt r < orphan_cutoff now staleInterval)
             jr_UpdatedAt offset n (db_requests db) of
        Inl m \<Rightarrow> Err (DatabaseError m)
      | Inr rs \<Rightarrow> Ok rs)"

subsection \<open>Updating one request\<close>

text \<open>A statement that must touch one row: zero or several rows are an error, which does not undo it.\<close>

definition update_one ::
  "db_engine \<Rightarrow> (JobRequest \<Rightarrow> bool) \<Rightarrow> (JobRequest \<Rightarrow> JobRequest) \<Rightarrow> DB \<Rightarrow> DB \<times> repo_error option" where
  "update_one e p f db =
     (case update_requests e p f db of
        Inl _ \<Rightarrow> (db, Some NotFoundError)
      | Inr (db', n) \<Rightarrow> (db', if n \<noteq> 1 then Some NotFoundError else None))"

definition job_state_updates ::
  "string \<Rightarrow> int \<Rightarrow> RequestState \<Rightarrow> string \<Rightarrow> string \<Rightarrow> int \<Rightarrow> int \<Rightarrow> int \<Rightarrow> JobRequest \<Rightarrow> JobRequest" where
  "job_state_updates newkey now newState errorMessage errorCode scheduleDelay retried pausedCount r =
     (let r = r\<lparr>jr_JobState := newState, jr_UpdatedAt := now\<rparr>;
          r = (if errorMessage \<noteq> [] \<or> newState = COMPLETED
               then r\<lparr>jr_ErrorMessage := errorMessage, jr_ErrorCode := errorCode\<rparr> else r);
          r = (if IsTerminal newState then r\<lparr>jr_UserKey := newkey\<rparr> else r);
          r = (if newState = EXECUTING then r\<lparr>jr_HardRestart := False\<rparr> else r)
      in if newState = PENDING \<or> newState = PAUSED then
           (let r = (if scheduleDelay > 0 then r\<lparr>jr_ScheduledAt := Some (now + scheduleDelay)\<rparr> else r);
                r = (if retried > 0 then r\<lparr>jr_Retried := retried\<rparr> else r)
            in if pausedCount > 0 then r\<lparr>jr_PausedCount := pausedCount\<rparr> else r)
         else r)"

definition UpdateJobState ::
  "db_engine \<Rightarrow> string \<Rightarrow> int \<Rightarrow> string \<Rightarrow> RequestState \<Rightarrow> RequestState \<Rightarrow> string \<Rightarrow> string \<Rightarrow> int \<Rightarrow> int \<Rightarrow> int \<Rightarrow> DB \<Rightarrow>
   DB \<times> repo_error option" where
  "UpdateJobState e newkey now rid oldState newState errorMessage errorCode scheduleDelay retried pausedCount db =
     (if oldState \<noteq> NoState \<and> \<not> CanTransitionTo oldState newState then (db, Some PlainError)
      else update_one e (\<lambda>r. jr_ID r = rid \<and> (oldState \<noteq> NoState \<longrightarrow> jr_JobState r = oldState))
             (job_state_updates newkey now newState errorMessage errorCode scheduleDelay retried pausedCount) db)"

definition UpdateRunningTimestamp :: "db_engine \<Rightarrow> int \<Rightarrow> string \<Rightarrow> DB \<Rightarrow> DB \<times> repo_error option" where
  "UpdateRunningTimestamp e now rid db =
     update_one e (\<lambda>r. jr_ID r = rid \<and> jr_JobState r \<in> set RunningStates) (\<lambda>r. r\<lparr>jr_UpdatedAt := now\<rparr>) db"

definition SetReadyToExecute ::
  "db_engine \<Rightarrow> int \<Rightarrow> string \<Rightarrow> string \<Rightarrow> string \<Rightarrow> DB \<Rightarrow> DB \<times> repo_error option" where
  "SetReadyToExecute e now rid jobExecutionID lastJobExecutionID db =
     (if rid = [] then (db, Some ValidationError)
      else if jobExecutionID = [] then (db, Some ValidationError)
      else case op_count (e_execs e) (\<lambda>x. je_ID x = jobExecutionID) (db_execs db) of
             Inl _ \<Rightarrow> (db, Some NotFoundError)
           | Inr totalExecutionCount \<Rightarrow>
               if totalExecutionCount = 0 then (db, Some NotFoundError)
               else update_one e (\<lambda>r. jr_ID r = rid \<and> jr_JobState r \<in> {PENDING, PAUSED})
                      (\<lambda>r. r\<lparr>jr_JobState := READY, jr_JobExecutionID := jobExecutionID,
                            jr_LastJobExecutionID := lastJobExecutionID, jr_UpdatedAt := now\<rparr>) db)"

definition UpdatePriority :: "db_engine \<Rightarrow> int \<Rightarrow> QueryContext \<Rightarrow> string \<Rightarrow> int \<Rightarrow> DB \<Rightarrow> DB \<times> repo_error option" where
  "UpdatePriority e now qc rid priority db =
     update_one e (\<lambda>r. in_scope qc False r \<and> jr_ID r = rid)
       (\<lambda>r. r\<lparr>jr_JobPriority := priority, jr_UpdatedAt := now\<rparr>) db"

definition IncrementScheduleAttempts ::
  "db_engine \<Rightarrow> int \<Rightarrow> string \<Rightarrow> int \<Rightarrow> int \<Rightarrow> string \<Rightarrow> DB \<Rightarrow> DB \<times> repo_error option" where
  "IncrementScheduleAttempts e now rid scheduleSecs decrPriority errorMessage db =
     update_one e (\<lambda>r. jr_ID r = rid)
       (\<lambda>r. r\<lparr>jr_ScheduleAttempts := jr_ScheduleAttempts r + 1, jr_ScheduledAt := Some (now + scheduleSecs),
             jr_JobPriority := jr_JobPriority r - decrPriority, jr_ErrorMessage := errorMessage,
             jr_UpdatedAt := now\<rparr>) db"

text \<open>The scope of the statements written in SQL.\<close>

definition raw_scope :: "QueryContext \<Rightarrow> JobRequest \<Rightarrow> bool" where
  "raw_scope qc r =
     (if qc_IsAdmin qc then True
      else if qc_HasOrganization qc then jr_OrganizationID r = qc_GetOrganizationID qc
      else if qc_GetUserID qc \<noteq> [] then jr_UserID r = qc_GetUserID qc
      else True)"

definition Trigger :: "db_engine \<Rightarrow> string \<Rightarrow> int \<Rightarrow> QueryContext \<Rightarrow> string \<Rightarrow> DB \<Rightarrow> DB \<times> repo_error option" where
  "Trigger e newkey now qc rid db =
     (case update_requests e
             (\<lambda>r. jr_ID r = rid \<and> jr_CronTriggered r \<and> jr_JobState r = PENDING \<and> raw_scope qc r)
             (\<lambda>r. r\<lparr>jr_ScheduledAt := Some now, jr_UpdatedAt := now, jr_UserKey := newkey\<rparr>) db of
        Inl _ \<Rightarrow> (db, Some NotFoundError)
      | Inr (db', _) \<Rightarrow> (db', None))"

definition restarted :: "int \<Rightarrow> bool \<Rightarrow> string \<Rightarrow> JobRequest \<Rightarrow> JobRequest" where
  "restarted now hard newJobDefinitionID r =
     (let r = r\<lparr>jr_JobState := PENDING, jr_LastJobExecutionID := jr_JobExecutionID r, jr_JobExecutionID := [],
               jr_ErrorCode := [], jr_ErrorMessage := [], jr_ScheduleAttempts := 0,
               jr_Retried := jr_Retried r + 1, jr_HardRestart := hard, jr_ScheduledAt := Some now,
               jr_UpdatedAt := now\<rparr>
      in if newJobDefinitionID \<noteq> [] then r\<lparr>jr_JobDefinitionID := newJobDefinitionID\<rparr> else r)"

definition req_Restart ::
  "db_engine \<Rightarrow> int \<Rightarrow> QueryContext \<Rightarrow> string \<Rightarrow> bool \<Rightarrow> string \<Rightarrow> DB \<Rightarrow> DB \<times> repo_error option" where
  "req_Restart e now qc rid hard newJobDefinitionID db =
     update_one e (\<lambda>r. jr_ID r = rid \<and> jr_JobState r \<notin> set NotRestartableStates \<and> raw_scope qc r)
       (restarted now hard newJobDefinitionID) db"

definition RequeueOrphanRequests :: "db_engine \<Rightarrow> int \<Rightarrow> int \<Rightarrow> DB \<Rightarrow> DB \<times> (repo_error, nat) result" where
  "RequeueOrphanRequests e now staleInterval db =
     (case update_requests e
             (\<lambda>r. jr_JobState r \<in> {STARTED, READY, EXECUTING} \<and> jr_UpdatedAt r < now + i64 (- staleInterval))
             (\<lambda>r. r\<lparr>jr_JobState := PENDING, jr_ScheduledAt := Some now, jr_UpdatedAt := now\<rparr>) db of
        Inl m \<Rightarrow> (db, Err (DatabaseError m))
      | Inr (db', n) \<Rightarrow> (db', Ok n))"

subsection \<open>Saving\<close>

definition save_body ::
  "db_engine \<Rightarrow> (string \<Rightarrow> string \<Rightarrow> any option) \<Rightarrow> string \<Rightarrow> string \<Rightarrow> int \<Rightarrow> QueryContext \<Rightarrow> JobRequest \<Rightarrow> DB \<Rightarrow>
   (repo_error, DB \<times> JobRequest) result" where
  "save_body e dec newid newkey now qc req db =
     (if jr_ID req = [] then
        (let req = req\<lparr>jr_ID := newid, jr_CreatedAt := now, jr_UpdatedAt := now, jr_JobState := PENDING,
                      jr_UserKey := (if jr_UserKey req = [] then newkey else jr_UserKey req)\<rparr>
         in case op_create (e_requests e) req (db_requests db) of
              Inl m \<Rightarrow> Err (DatabaseError m)
            | Inr rows \<Rightarrow> Ok (db\<lparr>db_requests := rows\<rparr>, req))
      else
        (case req_Get e dec qc (jr_ID req) db of
           Inl err \<Rightarrow> Err err
         | Inr old \<Rightarrow>
             if \<not> request_Editable old (qc_GetUserID qc) (qc_GetOrganizationID qc) then Err PermissionError
             else
               (let req = req\<lparr>jr_UpdatedAt := now,
                             jr_UserKey := (if jr_UserKey req = [] then newkey else jr_UserKey req)\<rparr>
                in case op_save (e_requests e) (\<lambda>r. jr_ID r = jr_ID req) req (db_requests db) of
                     Inl m \<Rightarrow> Err (DatabaseError m)
                   | Inr rows \<Rightarrow> Ok (db\<lparr>db_requests := rows\<rparr>, req))))"

definition req_Save ::
  "db_engine \<Rightarrow> (string \<Rightarrow> string \<Rightarrow> any option) \<Rightarrow> string \<Rightarrow> string \<Rightarrow> int \<Rightarrow> QueryContext \<Rightarrow> JobRequest \<Rightarrow> DB \<Rightarrow>
   DB \<times> repo_error option" where
  "req_Save e dec newid newkey now qc req db =
     (case request_ValidateBeforeSave dec req of
        Inl _ \<Rightarrow> (db, Some ValidationError)
      | Inr req1 \<Rightarrow>
          (let req2 = req1\<lparr>jr_OrganizationID := qc_GetOrganizationID qc, jr_UserID := qc_GetUserID qc\<rparr>
           in e_transaction e
                (\<lambda>d. case save_body e dec newid newkey now qc req2 d of Inl err \<Rightarrow> Err err | Inr (d', _) \<Rightarrow> Ok d') db))"

subsection \<open>Cancelling and deleting\<close>

definition zero_time_secs :: int where
  "zero_time_secs = - 62135596800"

definition cancel_body :: "db_engine \<Rightarrow> int \<Rightarrow> QueryContext \<Rightarrow> string \<Rightarrow> JobRequest \<Rightarrow> DB \<Rightarrow> (repo_error, DB) result" where
  "cancel_body e now qc rid req db =
     (case update_requests e
             (\<lambda>r. in_scope qc False r \<and> jr_ID r = rid \<and> jr_JobState r \<notin> set TerminalStates)
             (\<lambda>r. r\<lparr>jr_JobState := CANCELLED, jr_ErrorCode := ''ERR_JOB_CANCELLED'',
                   jr_ErrorMessage := ''cancelled by job request'', jr_UpdatedAt := now\<rparr>) db of
        Inl _ \<Rightarrow> Err NotFoundError
      | Inr (db1, n) \<Rightarrow>
          if n \<noteq> 1 then Err NotFoundError
          else if jr_JobExecutionID req \<noteq> [] then
            (case update_execs e
                    (\<lambda>x. passes (AddOrgElseUserWhere qc False) (exec_columns x) \<and> je_ID x = jr_JobExecutionID req)
                    (\<lambda>x. x\<lparr>je_JobState := CANCELLED, je_ErrorMessage := ''job request cancelled'',
                          je_ErrorCode := ''ERR_JOB_CANCELLED'', je_UpdatedAt := now,
                          je_CPUSecs := unix_secs now -
                            (case jr_ScheduledAt req of Some t \<Rightarrow> unix_secs t | None \<Rightarrow> zero_time_secs),
                          je_EndedAt := Some now\<rparr>) db1 of
               Inl _ \<Rightarrow> Err NotFoundError
             | Inr (db2, _) \<Rightarrow> Ok db2)
          else Ok db1)"

definition req_Cancel ::
  "db_engine \<Rightarrow> (string \<Rightarrow> string \<Rightarrow> any option) \<Rightarrow> int \<Rightarrow> QueryContext \<Rightarrow> string \<Rightarrow> DB \<Rightarrow> DB \<times> repo_error option" where
  "req_Cancel e dec now qc rid db =
     (case req_Get e dec qc rid db of
        Inl _ \<Rightarrow> (db, None)
      | Inr req \<Rightarrow>
          if IsTerminal (jr_JobState req) then (db, Some ConflictError)
          else e_transaction e (cancel_body e now qc rid req) db)"

text \<open>The deletion of the parameters does not matter once the request is deleted; its error is dropped.\<close>

definition req_Delete ::
  "db_engine \<Rightarrow> (string \<Rightarrow> string \<Rightarrow> any option) \<Rightarrow> QueryContext \<Rightarrow> string \<Rightarrow> DB \<Rightarrow> DB \<times> repo_error option" where
  "req_Delete e dec qc rid db =
     (case req_Get e dec qc rid db of
        Inl err \<Rightarrow> (db, Some err)
      | Inr _ \<Rightarrow>
          e_transaction e
            (\<lambda>d. case delete_requests e (\<lambda>r. jr_ID r = rid) d of
                   Inl m \<Rightarrow> Err (DatabaseError m)
                 | Inr (d', _) \<Rightarrow> Ok d') db)"

text \<open>The statements go to the connection and not to the transaction around them, so that they are not
  undone when the second fails or the transaction does.\<close>

definition DeletePendingCronByJobType ::
  "db_engine \<Rightarrow> QueryContext \<Rightarrow> string \<Rightarrow> DB \<Rightarrow> DB \<times> repo_error option" where
  "DeletePendingCronByJobType e qc jobType db =
     (case op_page (e_requests e) (\<lambda>r. jr_JobType r = jobType \<and> jr_JobState r = PENDING \<and> jr_CronTriggered r \<and>
              raw_scope qc r) (\<lambda>_. 0) 0 100 (db_requests db) of
        Inl m \<Rightarrow> (db, Some (DatabaseError m))
      | Inr rows \<Rightarrow>
          let ids = map jr_ID rows in
          if length ids = 0 then (db, None)
          else case update_requests e (\<lambda>r. jr_ID r \<in> set ids) (\<lambda>r. r\<lparr>jr_Params := []\<rparr>) db of
                 Inl _ \<Rightarrow> (db, Some NotFoundError)
               | Inr (db1, _) \<Rightarrow>
                   (case delete_requests e (\<lambda>r. jr_ID r \<in> set ids \<and> jr_JobState r = PENDING) db1 of
                      Inl _ \<Rightarrow> (db1, Some NotFoundError)
                    | Inr (db2, _) \<Rightarrow> (db2, snd (e_transaction e Ok db2))))"

subsection \<open>Purging\<close>

text \<open>One statement after the other; the first failure ends the sequence.\<close>

definition deleting :: "(DB \<Rightarrow> (string, DB \<times> nat) result) \<Rightarrow> (DB \<Rightarrow> (repo_error, 'a) result) \<Rightarrow> DB \<Rightarrow> (repo_error, 'a) result" where
  "deleting stmt rest db = (case stmt db of Inl m \<Rightarrow> Err (DatabaseError m) | Inr (db', _) \<Rightarrow> rest db')"

definition purge_tasks :: "db_engine \<Rightarrow> string list \<Rightarrow> DB \<Rightarrow> (repo_error, DB) result" where
  "purge_tasks e taskIDs db =
     (if length taskIDs > 0 then
        deleting (delete_votes e (\<lambda>v. av_TaskExecutionID v \<in> set taskIDs))
          (deleting (delete_deadlines e (\<lambda>d. ad_TaskExecutionID d \<in> set taskIDs))
            (deleting (delete_uses e (\<lambda>k. k \<in> set taskIDs))
              (deleting (delete_tasks e (\<lambda>t. te_ID t \<in> set taskIDs)) Ok))) db
      else Ok db)"

definition purge_execs :: "db_engine \<Rightarrow> string list \<Rightarrow> DB \<Rightarrow> (repo_error, DB) result" where
  "purge_execs e execIDs db =
     (if length execIDs > 0 then
        deleting (delete_logs e (\<lambda>k. k \<in> set execIDs))
          (deleting (delete_execs e (\<lambda>x. je_ID x \<in> set execIDs)) Ok) db
      else Ok db)"

definition purge_requests :: "db_engine \<Rightarrow> string list \<Rightarrow> DB \<Rightarrow> (repo_error, DB \<times> nat) result" where
  "purge_requests e reqIDs db =
     deleting (delete_artifacts e (\<lambda>k. k \<in> set reqIDs))
       (\<lambda>d. case delete_requests e (\<lambda>r. jr_ID r \<in> set reqIDs) d of
              Inl m \<Rightarrow> Err (DatabaseError m)
            | Inr r \<Rightarrow> Ok r) db"

definition find_task_ids :: "db_engine \<Rightarrow> string list \<Rightarrow> DB \<Rightarrow> (repo_error, string list) result" where
  "find_task_ids e execIDs db =
     (if length execIDs > 0 then
        (case op_find (e_tasks e) (\<lambda>t. te_JobExecutionID t \<in> set execIDs) (\<lambda>_. 0) (db_tasks db) of
           Inl m \<Rightarrow> Err (DatabaseError m)
         | Inr ts \<Rightarrow> Ok (map te_ID ts))
      else Ok [])"

definition purge_body ::
  "db_engine \<Rightarrow> string \<Rightarrow> RequestState \<Rightarrow> int \<Rightarrow> nat \<Rightarrow> DB \<Rightarrow> (repo_error, DB \<times> nat) result" where
  "purge_body e jobType state olderThan n db =
     (case op_page (e_requests e) (\<lambda>r. jr_JobType r = jobType \<and> jr_JobState r = state \<and> jr_UpdatedAt r < olderThan)
             (\<lambda>_. 0) 0 n (db_requests db) of
        Inl m \<Rightarrow> Err (DatabaseError m)
      | Inr reqs \<Rightarrow>
          if length reqs = 0 then Ok (db, 0)
          else
            let reqIDs = map jr_ID reqs in
            case op_find (e_execs e) (\<lambda>x. je_JobRequestID x \<in> set reqIDs) (\<lambda>_. 0) (db_execs db) of
              Inl m \<Rightarrow> Err (DatabaseError m)
            | Inr execs \<Rightarrow>
                let execIDs = map je_ID execs in
                (case find_task_ids e execIDs db of
                   Inl err \<Rightarrow> Err err
                 | Inr taskIDs \<Rightarrow>
                     (case purge_tasks e taskIDs db of
                        Inl err \<Rightarrow> Err err
                      | Inr db1 \<Rightarrow>
                          (case purge_execs e execIDs db1 of
                             Inl err \<Rightarrow> Err err
                           | Inr db2 \<Rightarrow> purge_requests e reqIDs db2))))"

text \<open>The number of deleted requests is that of the last statement, also when the transaction fails.\<close>

definition PurgeOldRequests ::
  "db_engine \<Rightarrow> string \<Rightarrow> RequestState \<Rightarrow> int \<Rightarrow> int \<Rightarrow> DB \<Rightarrow> DB \<times> nat \<times> repo_error option" where
  "PurgeOldRequests e jobType state olderThan n db =
     (if \<not> IsTerminal state then (db, 0, Some PlainError)
      else
        let n = (if n \<le> 0 then 500 else nat n);
            body = purge_body e jobType state olderThan n;
            deleted = (case body db of Inr (_, k) \<Rightarrow> k | Inl _ \<Rightarrow> 0)
        in case e_transaction e (\<lambda>d. case body d of Inl err \<Rightarrow> Err err | Inr (d', _) \<Rightarrow> Ok d') db of
             (db', err) \<Rightarrow> (db', deleted, err))"

subsection \<open>Lemmas\<close>

lemma loaded_fields [simp]:
  "jr_ID (loaded dec r) = jr_ID r" "jr_JobState (loaded dec r) = jr_JobState r"
  "jr_JobExecutionID (loaded dec r) = jr_JobExecutionID r" "jr_ScheduledAt (loaded dec r) = jr_ScheduledAt r"
  "jr_UserID (loaded dec r) = jr_UserID r" "jr_OrganizationID (loaded dec r) = jr_OrganizationID r"
  by (simp_all add: loaded_def Let_def)

lemma in_scope_readonly: "qc_IsReadAdmin qc \<Longrightarrow> in_scope qc True r"
  by (simp add: in_scope_def AddOrgElseUserWhere_def passes_def)

lemma refs_filter:
  assumes "g ` set A \<subseteq> h ` set B" and "\<And>a. a \<in> set A \<Longrightarrow> P a \<Longrightarrow> Q (g a)"
  shows "g ` set (filter P A) \<subseteq> h ` set (filter (\<lambda>b. Q (h b)) B)"
proof
  fix y assume "y \<in> g ` set (filter P A)"
  then obtain a where a: "a \<in> set A" "P a" "y = g a" by auto
  with assms(1) obtain b where b: "b \<in> set B" "g a = h b" by blast
  have "Q (h b)" using assms(2)[OF a(1,2)] b(2) by simp
  with a b show "y \<in> h ` set (filter (\<lambda>b. Q (h b)) B)" by simp
qed

lemma deleting_Ok:
  "deleting stmt rest db = Ok x \<longleftrightarrow> (\<exists>db' n. stmt db = Ok (db', n) \<and> rest db' = Ok x)"
  by (auto simp: deleting_def split: sum.splits)

context sql_engine
begin

lemma req_Get_Ok:
  assumes "req_Get e dec qc rid db = Ok req"
  obtains r where "r \<in> set (db_requests db)" "in_scope qc True r" "jr_ID r = rid" "req = loaded dec r"
proof -
  from assms obtain r where "op_first (e_requests e) (\<lambda>r. in_scope qc True r \<and> jr_ID r = rid) (db_requests db) = Ok (Some r)"
    and "req = loaded dec r"
    by (auto simp: req_Get_def split: if_splits sum.splits option.splits)
  with requests.first_ok that show ?thesis by blast
qed

lemma update_one_effect:
  assumes "update_one e p f db = (db', err)"
  shows "(db' = db \<and> err \<noteq> None) \<or> db' = db\<lparr>db_requests := update_rows p f (db_requests db)\<rparr>"
    and "err = None \<Longrightarrow> length (filter p (db_requests db)) = 1"
  using assms by (auto simp: update_one_def split: sum.splits prod.splits if_splits dest!: update_requests_Ok)

lemma page_subset:
  assumes "op_page (e_requests e) p key 0 n (db_requests db) = Ok rs"
  shows "set rs \<subseteq> {r \<in> set (db_requests db). p r}"
proof -
  from requests.page_ok[OF assms] obtain xs where xs: "same_rows xs (filter p (db_requests db))" "rs = take n xs" by auto
  have "set rs \<subseteq> set xs" by (simp add: xs(2) set_take_subset)
  then show ?thesis using same_rows_set[OF xs(1)] by auto
qed

lemma purge_tasks_Ok:
  assumes "purge_tasks e ids db = Ok db'"
  shows "db_votes db' = filter (\<lambda>v. av_TaskExecutionID v \<notin> set ids) (db_votes db)"
    "db_deadlines db' = filter (\<lambda>d. ad_TaskExecutionID d \<notin> set ids) (db_deadlines db)"
    "db_uses db' = filter (\<lambda>k. k \<notin> set ids) (db_uses db)"
    "db_tasks db' = filter (\<lambda>t. te_ID t \<notin> set ids) (db_tasks db)"
    "db_execs db' = db_execs db" "db_requests db' = db_requests db" "db_logs db' = db_logs db"
    "db_artifacts db' = db_artifacts db"
  using assms
  by (auto simp: purge_tasks_def deleting_Ok split: if_splits
      dest!: delete_votes_Ok delete_deadlines_Ok delete_uses_Ok delete_tasks_Ok)

lemma purge_execs_Ok:
  assumes "purge_execs e ids db = Ok db'"
  shows "db_logs db' = filter (\<lambda>k. k \<notin> set ids) (db_logs db)"
    "db_execs db' = filter (\<lambda>x. je_ID x \<notin> set ids) (db_execs db)"
    "db_votes db' = db_votes db" "db_deadlines db' = db_deadlines db" "db_uses db' = db_uses db"
    "db_tasks db' = db_tasks db" "db_requests db' = db_requests db" "db_artifacts db' = db_artifacts db"
  using assms
  by (auto simp: purge_execs_def deleting_Ok split: if_splits dest!: delete_logs_Ok delete_execs_Ok)

lemma purge_requests_Ok:
  assumes "purge_requests e ids db = Ok (db', n)"
  shows "db_artifacts db' = filter (\<lambda>k. k \<notin> set ids) (db_artifacts db)"
    "db_requests db' = filter (\<lambda>r. jr_ID r \<notin> set ids) (db_requests db)"
    "n = length (filter (\<lambda>r. jr_ID r \<in> set ids) (db_requests db))"
    "db_votes db' = db_votes db" "db_deadlines db' = db_deadlines db" "db_uses db' = db_uses db"
    "db_tasks db' = db_tasks db" "db_execs db' = db_execs db" "db_logs db' = db_logs db"
proof -
  from assms obtain d m where "delete_artifacts e (\<lambda>k. k \<in> set ids) db = Ok (d, m)"
    and "delete_requests e (\<lambda>r. jr_ID r \<in> set ids) d = Ok (db', n)"
    unfolding purge_requests_def deleting_Ok by (fastforce split: sum.splits)
  then have "db' = db\<lparr>db_artifacts := filter (\<lambda>k. k \<notin> set ids) (db_artifacts db),
      db_requests := filter (\<lambda>r. jr_ID r \<notin> set ids) (db_requests db)\<rparr>"
    "n = length (filter (\<lambda>r. jr_ID r \<in> set ids) (db_requests db))"
    by (auto dest!: delete_artifacts_Ok delete_requests_Ok)
  then show "db_artifacts db' = filter (\<lambda>k. k \<notin> set ids) (db_artifacts db)"
    "db_requests db' = filter (\<lambda>r. jr_ID r \<notin> set ids) (db_requests db)"
    "n = length (filter (\<lambda>r. jr_ID r \<in> set ids) (db_requests db))"
    "db_votes db' = db_votes db" "db_deadlines db' = db_deadlines db" "db_uses db' = db_uses db"
    "db_tasks db' = db_tasks db" "db_execs db' = db_execs db" "db_logs db' = db_logs db"
    by simp_all
qed

text \<open>What a purge deletes: requests \<open>rs\<close>, their executions \<open>xs\<close> and the tasks \<open>ts\<close> of these.\<close>

lemma purge_body_Ok:
  assumes "purge_body e jobType state olderThan n db = Ok (db', k)"
  obtains rs xs ts where
    "rs \<subseteq> jr_ID ` {r \<in> set (db_requests db). jr_JobType r = jobType \<and> jr_JobState r = state \<and> jr_UpdatedAt r < olderThan}"
    "xs = je_ID ` {x \<in> set (db_execs db). je_JobRequestID x \<in> rs}"
    "ts = te_ID ` {t \<in> set (db_tasks db). te_JobExecutionID t \<in> xs}"
    "db_requests db' = filter (\<lambda>r. jr_ID r \<notin> rs) (db_requests db)"
    "db_execs db' = filter (\<lambda>x. je_ID x \<notin> xs) (db_execs db)"
    "db_tasks db' = filter (\<lambda>t. te_ID t \<notin> ts) (db_tasks db)"
    "db_votes db' = filter (\<lambda>v. av_TaskExecutionID v \<notin> ts) (db_votes db)"
    "db_deadlines db' = filter (\<lambda>d. ad_TaskExecutionID d \<notin> ts) (db_deadlines db)"
    "db_uses db' = filter (\<lambda>t. t \<notin> ts) (db_uses db)"
    "db_logs db' = filter (\<lambda>x. x \<notin> xs) (db_logs db)"
    "db_artifacts db' = filter (\<lambda>r. r \<notin> rs) (db_artifacts db)"
    "k = length (filter (\<lambda>r. jr_ID r \<in> rs) (db_requests db))"
proof -
  let ?p = "\<lambda>r. jr_JobType r = jobType \<and> jr_JobState r = state \<and> jr_UpdatedAt r < olderThan"
  from assms obtain reqs where reqs: "op_page (e_requests e) ?p (\<lambda>_. 0) 0 n (db_requests db) = Ok reqs"
    by (auto simp: purge_body_def split: sum.splits)
  show thesis
  proof (cases "reqs = []")
    case True
    with assms reqs have "db' = db" "k = 0" by (simp_all add: purge_body_def)
    then show thesis by (intro that[of "{}" "{}" "{}"]) simp_all
  next
    case False
    let ?rids = "map jr_ID reqs"
    from assms reqs False obtain execs where
      execs: "op_find (e_execs e) (\<lambda>x. je_JobRequestID x \<in> set ?rids) (\<lambda>_. 0) (db_execs db) = Ok execs"
      by (auto simp: purge_body_def Let_def split: sum.splits)
    let ?xids = "map je_ID execs"
    from assms reqs False execs obtain tids db1 db2 where tids: "find_task_ids e ?xids db = Ok tids"
      and 1: "purge_tasks e tids db = Ok db1" and 2: "purge_execs e ?xids db1 = Ok db2"
      and 3: "purge_requests e ?rids db2 = Ok (db', k)"
      by (auto simp: purge_body_def Let_def split: sum.splits)
    have "set execs = {x \<in> set (db_execs db). je_JobRequestID x \<in> set ?rids}"
      using execs.find_ok[OF execs] by (auto dest: same_rows_set)
    then have xs: "set ?xids = je_ID ` {x \<in> set (db_execs db). je_JobRequestID x \<in> set ?rids}" by simp
    have ts: "set tids = te_ID ` {t \<in> set (db_tasks db). te_JobExecutionID t \<in> set ?xids}"
    proof (cases "execs = []")
      case True
      with tids show ?thesis by (auto simp: find_task_ids_def)
    next
      case False
      with tids obtain tasks where "op_find (e_tasks e) (\<lambda>t. te_JobExecutionID t \<in> set ?xids) (\<lambda>_. 0) (db_tasks db) = Ok tasks"
        "tids = map te_ID tasks" by (auto simp: find_task_ids_def split: sum.splits)
      then show ?thesis using tasks.find_ok same_rows_set by fastforce
    qed
    have "set ?rids \<subseteq> jr_ID ` {r \<in> set (db_requests db). ?p r}" using page_subset[OF reqs] by auto
    from that[OF this xs ts] show thesis
      by (simp add: purge_requests_Ok[OF 3] purge_execs_Ok[OF 2] purge_tasks_Ok[OF 1])
  qed
qed

end

subsection \<open>Properties\<close>

text \<open>Every row that refers to another finds it.\<close>

definition integrity :: "DB \<Rightarrow> bool" where
  "integrity db \<longleftrightarrow>
     je_JobRequestID ` set (db_execs db) \<subseteq> jr_ID ` set (db_requests db) \<and>
     te_JobExecutionID ` set (db_tasks db) \<subseteq> je_ID ` set (db_execs db) \<and>
     av_TaskExecutionID ` set (db_votes db) \<subseteq> te_ID ` set (db_tasks db) \<and>
     ad_TaskExecutionID ` set (db_deadlines db) \<subseteq> te_ID ` set (db_tasks db) \<and>
     set (db_uses db) \<subseteq> te_ID ` set (db_tasks db) \<and> set (db_logs db) \<subseteq> je_ID ` set (db_execs db) \<and>
     set (db_artifacts db) \<subseteq> jr_ID ` set (db_requests db)"


definition sample_done :: DB where
  "sample_done = sample_db\<lparr>db_requests := [sample_request_row\<lparr>jr_JobType := ''job'', jr_JobState := COMPLETED\<rparr>,
       sample_request_row\<lparr>jr_ID := ''r2'', jr_JobType := ''job'', jr_JobExecutionID := []\<rparr>],
     db_logs := [''x1''], db_artifacts := [''r1'', ''r2'']\<rparr>"

lemma mem_purge:
  "\<exists>d. purge_tasks mem_engine ids db = Ok d" "\<exists>d. purge_execs mem_engine ids db = Ok d"
  "\<exists>r. purge_requests mem_engine ids db = Ok r" "\<exists>ts. find_task_ids mem_engine ids db = Ok ts"
  by (simp_all add: purge_tasks_def purge_execs_def purge_requests_def find_task_ids_def deleting_def
      delete_votes_def delete_deadlines_def delete_uses_def delete_tasks_def delete_logs_def delete_execs_def
      delete_artifacts_def delete_requests_def mem_engine_def mem_table_def)

lemma mem_purge_body: "\<exists>d k. purge_body mem_engine jobType state olderThan n db = Ok (d, k)"
proof -
  obtain rs where rs: "op_page (e_requests mem_engine) (\<lambda>r. jr_JobType r = jobType \<and> jr_JobState r = state \<and>
      jr_UpdatedAt r < olderThan) (\<lambda>_. 0) 0 n (db_requests db) = Ok rs" by (simp add: mem_engine_def mem_table_def)
  obtain xs where xs: "op_find (e_execs mem_engine) (\<lambda>x. je_JobRequestID x \<in> set (map jr_ID rs)) (\<lambda>_. 0) (db_execs db) = Ok xs"
    by (simp add: mem_engine_def mem_table_def)
  obtain ts where ts: "find_task_ids mem_engine (map je_ID xs) db = Ok ts" using mem_purge(4) by blast
  obtain d1 where d1: "purge_tasks mem_engine ts db = Ok d1" using mem_purge(1) by blast
  obtain d2 where d2: "purge_execs mem_engine (map je_ID xs) d1 = Ok d2" using mem_purge(2) by blast
  obtain r where "purge_requests mem_engine (map jr_ID rs) d2 = Ok r" using mem_purge(3) by blast
  then show ?thesis using rs xs ts d1 d2 by (cases r) (simp add: purge_body_def Let_def)
qed




text \<open>Deleting a request asks for no more than the right to read it: when no statement fails, a
  caller that may read every request deletes any of them, also those it may not change.\<close>

theorem delete_needs_read_only:
  assumes "qc_IsReadAdmin qc" and "rid \<noteq> []" and "r \<in> set (db_requests db)" and "jr_ID r = rid"
  shows "req_Delete mem_engine dec qc rid db =
       (db\<lparr>db_requests := filter (\<lambda>r. jr_ID r \<noteq> rid) (db_requests db)\<rparr>, None) \<and>
     ((\<forall>r' \<in> set (db_requests db). jr_ID r' = rid \<longrightarrow> \<not> in_scope qc False r') \<longrightarrow>
       UpdatePriority mem_engine now qc rid priority db = (db, Some NotFoundError))"
proof
  have "List.find (\<lambda>r. in_scope qc True r \<and> jr_ID r = rid) (db_requests db) \<noteq> None"
    using assms(3,4) in_scope_readonly[OF assms(1)] by (auto simp: find_None_iff)
  with assms(2) show "req_Delete mem_engine dec qc rid db =
      (db\<lparr>db_requests := filter (\<lambda>r. jr_ID r \<noteq> rid) (db_requests db)\<rparr>, None)"
    by (auto simp: req_Delete_def req_Get_def mem_engine_def mem_table_def mem_transaction_def delete_requests_def)
  show "(\<forall>r' \<in> set (db_requests db). jr_ID r' = rid \<longrightarrow> \<not> in_scope qc False r') \<longrightarrow>
      UpdatePriority mem_engine now qc rid priority db = (db, Some NotFoundError)"
  proof
    assume none: "\<forall>r' \<in> set (db_requests db). jr_ID r' = rid \<longrightarrow> \<not> in_scope qc False r'"
    then have "filter (\<lambda>r. in_scope qc False r \<and> jr_ID r = rid) (db_requests db) = []" by (auto simp: filter_empty_conv)
    moreover have "update_rows (\<lambda>r. in_scope qc False r \<and> jr_ID r = rid) f (db_requests db) = db_requests db" for f
      using none by (intro update_rows_none) auto
    ultimately show "UpdatePriority mem_engine now qc rid priority db = (db, Some NotFoundError)"
      by (simp add: UpdatePriority_def update_one_def update_requests_def mem_engine_def mem_table_def)
  qed
qed

definition sample_reader :: QueryContext where
  "sample_reader = NewQueryContext (Some ((NewUser [] [] [] [] [])\<lparr>us_ID := ''eve'',
     us_roles := Some [(''ReadAdmin'', NewRole ''ReadAdmin'' [])]\<rparr>)) []"

lemma sample_reader_rights:
  "qc_IsReadAdmin sample_reader" "AddOrgElseUserWhere sample_reader False = Some (''user_id'', ''eve'')"
  by (simp_all add: sample_reader_def qc_IsReadAdmin_def NewQueryContext_def user_IsReadAdmin_def GetRoles_def
      NewUser_def Let_def roles_IsReadAdmin_def HasRole_def AddOrgElseUserWhere_def AddUserWhere_def qc_IsAdmin_def
      user_IsAdmin_def roles_IsAdmin_def)

theorem delete_needs_read_only_witness:
  "snd (req_Delete mem_engine (\<lambda>_ _. None) sample_reader ''r1'' sample_db) = None \<and>
   snd (UpdatePriority mem_engine 5 sample_reader ''r1'' 7 sample_db) = Some NotFoundError"
  using delete_needs_read_only[OF sample_reader_rights(1), of "''r1''" sample_request_row sample_db "\<lambda>_ _. None" 5 7]
  by (simp add: sample_db_def sample_request_row_def in_scope_def sample_reader_rights passes_def request_columns_def)

end
