(* ===== verification/Execution_Repository.thy ===== *)
theory Execution_Repository
  imports Database
begin

text \<open>
  The repository of executions (\<open>queen/repository/job_execution_repository_impl.go\<close>): reading an
  execution with its active tasks and healing duplicates, moving request and execution together,
  saving with retries, deleting.  The rows of executions hold no tasks: these are rows of their own.
  \<open>SaveTask\<close>, which depends on how the engine saves under a condition, and the reports of resource
  usage are left out.  Sorting keeps the order of equal elements.
\<close>

subsection \<open>Reading\<close>

fun latest_loop :: "TaskExecution list \<Rightarrow> (string, TaskExecution) gomap \<Rightarrow> (string, TaskExecution) gomap" where
  "latest_loop [] latest = latest"
| "latest_loop (t # ts) latest =
     (case mget latest (te_TaskType t) of
        None \<Rightarrow> latest_loop ts (mset (te_TaskType t) t latest)
      | Some prev \<Rightarrow>
          if te_UpdatedAt t > te_UpdatedAt prev then latest_loop ts (mset (te_TaskType t) t latest)
          else latest_loop ts latest)"

text \<open>A failure to deactivate a duplicate is only logged.\<close>

fun heal_loop ::
  "db_engine \<Rightarrow> int \<Rightarrow> (string, TaskExecution) gomap \<Rightarrow> TaskExecution list \<Rightarrow> DB \<Rightarrow> DB \<times> TaskExecution list" where
  "heal_loop e now latest [] db = (db, [])"
| "heal_loop e now latest (t # ts) db =
     (if map_option te_ID (mget latest (te_TaskType t)) = Some (te_ID t) then
        (case heal_loop e now latest ts db of (db', kept) \<Rightarrow> (db', t # kept))
      else
        (case update_tasks e (\<lambda>r. te_ID r = te_ID t) (\<lambda>r. r\<lparr>te_Active := False, te_UpdatedAt := now\<rparr>) db of
           Inl _ \<Rightarrow> heal_loop e now latest ts db
         | Inr (db', _) \<Rightarrow> heal_loop e now latest ts db'))"

definition sort_contexts :: "JobExecution \<Rightarrow> JobExecution" where
  "sort_contexts je =
     je\<lparr>je_Contexts := sort_key nv_Name (je_Contexts je),
        je_Tasks := map (\<lambda>t. t\<lparr>te_Contexts := sort_key nv_Name (te_Contexts t)\<rparr>) (je_Tasks je)\<rparr>"

definition exec_Get ::
  "db_engine \<Rightarrow> (string \<Rightarrow> string \<Rightarrow> any option) \<Rightarrow> int \<Rightarrow> string \<Rightarrow> DB \<Rightarrow> DB \<times> (repo_error, JobExecution) result" where
  "exec_Get e dec now xid db =
     (if xid = [] then (db, Err ValidationError)
      else case op_first (e_execs e) (\<lambda>x. je_ID x = xid \<and> je_Active x) (db_execs db) of
             Inl _ \<Rightarrow> (db, Err NotFoundError)
           | Inr None \<Rightarrow> (db, Err NotFoundError)
           | Inr (Some x) \<Rightarrow>
               (case op_find (e_tasks e) (\<lambda>t. te_JobExecutionID t = xid \<and> te_Active t) (\<lambda>_. 0) (db_tasks db) of
                  Inl _ \<Rightarrow> (db, Err NotFoundError)
                | Inr rows \<Rightarrow>
                    (case job_AfterLoad dec (x\<lparr>je_Tasks := rows\<rparr>) of
                       Inl _ \<Rightarrow> (db, Err ValidationError)
                     | Inr job \<Rightarrow>
                         let tasks = sort_key te_TaskOrder (je_Tasks job);
                             latest = latest_loop tasks []
                         in if length latest < length tasks then
                              (case heal_loop e now latest tasks db of
                                 (db', kept) \<Rightarrow> (db', Ok (sort_contexts (job\<lparr>je_Tasks := kept\<rparr>))))
                            else (db, Ok (sort_contexts (job\<lparr>je_Tasks := tasks\<rparr>))))))"

subsection \<open>Moving request and execution together\<close>

definition ResetStateToReady :: "db_engine \<Rightarrow> int \<Rightarrow> string \<Rightarrow> DB \<Rightarrow> DB \<times> repo_error option" where
  "ResetStateToReady e now xid db =
     e_transaction e
       (\<lambda>d. case update_execs e (\<lambda>x. je_ID x = xid \<and> je_JobState x \<notin> set TerminalStates)
                  (\<lambda>x. x\<lparr>je_JobState := READY, je_UpdatedAt := now\<rparr>) d of
              Inl _ \<Rightarrow> Err NotFoundError
            | Inr (d', n) \<Rightarrow> if n \<noteq> 1 then Err NotFoundError else Ok d') db"

text \<open>Both updates must touch one row.\<close>

definition update_both ::
  "db_engine \<Rightarrow> string \<Rightarrow> RequestState \<Rightarrow> (JobRequest \<Rightarrow> JobRequest) \<Rightarrow> (JobExecution \<Rightarrow> JobExecution) \<Rightarrow> DB \<Rightarrow>
   (repo_error, DB) result" where
  "update_both e xid oldState f g db =
     (case update_requests e (\<lambda>r. jr_JobExecutionID r = xid \<and> jr_JobState r = oldState) f db of
        Inl _ \<Rightarrow> Err NotFoundError
      | Inr (db1, n) \<Rightarrow>
          if n \<noteq> 1 then Err NotFoundError
          else case update_execs e (\<lambda>x. je_ID x = xid \<and> je_JobState x = oldState \<and> je_JobState x \<notin> set TerminalStates)
                      g db1 of
                 Inl _ \<Rightarrow> Err NotFoundError
               | Inr (db2, m) \<Rightarrow> if m \<noteq> 1 then Err NotFoundError else Ok db2)"

definition finalized_request ::
  "string \<Rightarrow> int \<Rightarrow> RequestState \<Rightarrow> string \<Rightarrow> string \<Rightarrow> int \<Rightarrow> int \<Rightarrow> int \<Rightarrow> JobRequest \<Rightarrow> JobRequest" where
  "finalized_request newkey now newState errorMessage errorCode scheduleDelay retried pausedCount r =
     (let r = r\<lparr>jr_JobState := newState, jr_ErrorMessage := errorMessage, jr_ErrorCode := errorCode,
               jr_Retried := retried, jr_UpdatedAt := now\<rparr>;
          r = (if pausedCount > 0 then r\<lparr>jr_PausedCount := pausedCount\<rparr> else r);
          r = (if IsTerminal newState then r\<lparr>jr_UserKey := newkey\<rparr> else r)
      in if newState = PAUSED \<and> scheduleDelay > 0 then r\<lparr>jr_ScheduledAt := Some (now + scheduleDelay)\<rparr> else r)"

definition FinalizeJobRequestAndExecutionState ::
  "db_engine \<Rightarrow> string \<Rightarrow> int \<Rightarrow> string \<Rightarrow> RequestState \<Rightarrow> RequestState \<Rightarrow> string \<Rightarrow> string \<Rightarrow> int \<Rightarrow> int \<Rightarrow> int \<Rightarrow> int \<Rightarrow>
   DB \<Rightarrow> DB \<times> repo_error option" where
  "FinalizeJobRequestAndExecutionState e newkey now xid oldState newState errorMessage errorCode cpuSecs
     scheduleDelay retried pausedCount db =
     (if \<not> CanFinalize newState then (db, Some ValidationError)
      else e_transaction e
        (update_both e xid oldState
           (finalized_request newkey now newState errorMessage errorCode scheduleDelay retried pausedCount)
           (\<lambda>x. x\<lparr>je_JobState := newState, je_ErrorMessage := errorMessage, je_ErrorCode := errorCode,
                 je_EndedAt := Some now, je_CPUSecs := cpuSecs, je_UpdatedAt := now\<rparr>)) db)"

definition UpdateJobRequestAndExecutionState ::
  "db_engine \<Rightarrow> int \<Rightarrow> string \<Rightarrow> RequestState \<Rightarrow> RequestState \<Rightarrow> string \<Rightarrow> DB \<Rightarrow> DB \<times> repo_error option" where
  "UpdateJobRequestAndExecutionState e now xid oldState newState currentTask db =
     (if IsTerminal newState then (db, Some ValidationError)
      else e_transaction e
        (update_both e xid oldState
           (\<lambda>r. r\<lparr>jr_JobState := newState, jr_UpdatedAt := now,
                 jr_CurrentTask := (if currentTask \<noteq> [] then currentTask else jr_CurrentTask r)\<rparr>)
           (\<lambda>x. x\<lparr>je_JobState := newState, je_UpdatedAt := now,
                 je_CurrentTask := (if currentTask \<noteq> [] then currentTask else je_CurrentTask x)\<rparr>)) db)"

definition UpdateTaskState ::
  "db_engine \<Rightarrow> int \<Rightarrow> string \<Rightarrow> RequestState \<Rightarrow> RequestState \<Rightarrow> DB \<Rightarrow> DB \<times> repo_error option" where
  "UpdateTaskState e now tid oldState newState db =
     e_transaction e
       (\<lambda>d. case update_tasks e (\<lambda>t. te_ID t = tid \<and> te_TaskState t = oldState \<and> te_TaskState t \<notin> set TerminalStates)
                  (\<lambda>t. t\<lparr>te_TaskState := newState, te_UpdatedAt := now\<rparr>) d of
              Inl _ \<Rightarrow> Err NotFoundError
            | Inr (d', n) \<Rightarrow> if n \<noteq> 1 then Err NotFoundError else Ok d') db"

definition UpdateJobContext :: "db_engine \<Rightarrow> string \<Rightarrow> NameTypeValue list \<Rightarrow> DB \<Rightarrow> DB \<times> repo_error option" where
  "UpdateJobContext e xid contexts db =
     e_transaction e
       (\<lambda>d. case update_execs e (\<lambda>x. je_ID x = xid) (\<lambda>x. x\<lparr>je_Contexts := contexts\<rparr>) d of
              Inl m \<Rightarrow> Err (DatabaseError m)
            | Inr (d', _) \<Rightarrow> Ok d') db"

subsection \<open>Deleting\<close>

definition exec_DeleteTask :: "db_engine \<Rightarrow> int \<Rightarrow> string \<Rightarrow> DB \<Rightarrow> DB \<times> repo_error option" where
  "exec_DeleteTask e now tid db =
     (case update_tasks e (\<lambda>t. te_ID t = tid \<and> te_Active t) (\<lambda>t. t\<lparr>te_Active := False, te_UpdatedAt := now\<rparr>) db of
        Inl _ \<Rightarrow> (db, Some NotFoundError)
      | Inr (db', n) \<Rightarrow> (db', if n \<noteq> 1 then Some NotFoundError else None))"

text \<open>The statements go to the connection and not to the transaction around them: what was deleted
  before a failure stays deleted.\<close>

fun delete_loop :: "db_engine \<Rightarrow> int \<Rightarrow> TaskExecution list \<Rightarrow> DB \<Rightarrow> DB \<times> repo_error option" where
  "delete_loop e now [] db = (db, None)"
| "delete_loop e now (t # ts) db =
     (case exec_DeleteTask e now (te_ID t) db of
        (db', Some err) \<Rightarrow> (db', Some err)
      | (db', None) \<Rightarrow> delete_loop e now ts db')"

definition exec_Delete ::
  "db_engine \<Rightarrow> (string \<Rightarrow> string \<Rightarrow> any option) \<Rightarrow> int \<Rightarrow> string \<Rightarrow> DB \<Rightarrow> DB \<times> repo_error option" where
  "exec_Delete e dec now xid db =
     (case exec_Get e dec now xid db of
        (db1, Inl err) \<Rightarrow> (db1, Some err)
      | (db1, Inr old) \<Rightarrow>
          (case delete_loop e now (je_Tasks old) db1 of
             (db2, Some err) \<Rightarrow> (db2, Some err)
           | (db2, None) \<Rightarrow>
               (case update_execs e (\<lambda>x. je_ID x = xid \<and> je_Active x) (\<lambda>x. x\<lparr>je_Active := False, je_UpdatedAt := now\<rparr>) db2 of
                  Inl _ \<Rightarrow> (db2, Some NotFoundError)
                | Inr (db3, n) \<Rightarrow>
                    (db3, if n \<noteq> 1 then Some NotFoundError else snd (e_transaction e Ok db3)))))"

subsection \<open>Saving\<close>

definition loadTasksIDByJobID :: "db_engine \<Rightarrow> string \<Rightarrow> DB \<Rightarrow> (string, string list) result" where
  "loadTasksIDByJobID e jobID db =
     (case op_find (e_tasks e) (\<lambda>t. te_JobExecutionID t = jobID) (\<lambda>_. 0) (db_tasks db) of
        Inl m \<Rightarrow> Err m
      | Inr ts \<Rightarrow> Ok (map te_ID ts))"

text \<open>Contexts are part of the rows of tasks, which the save that follows replaces.\<close>

definition clearOrphanJobTasks :: "db_engine \<Rightarrow> JobExecution \<Rightarrow> DB \<Rightarrow> DB" where
  "clearOrphanJobTasks e job db =
     (case loadTasksIDByJobID e (je_ID job) db of
        Inl _ \<Rightarrow> db
      | Inr oldTaskIDs \<Rightarrow>
          let deletedTaskIDs = filter (\<lambda>i. i \<notin> set oldTaskIDs) (map te_ID (je_Tasks job)) in
          (case delete_tasks e (\<lambda>t. te_ID t \<in> set deletedTaskIDs \<and> te_JobExecutionID t = je_ID job) db of
             Inl _ \<Rightarrow> db
           | Inr (db', _) \<Rightarrow> db'))"

definition isDeadlockError :: "repo_error option \<Rightarrow> bool" where
  "isDeadlockError err =
     (case err of
        Some (DatabaseError msg) \<Rightarrow>
          Contains msg ''Error 1213'' \<or> Contains msg ''Deadlock found'' \<or> Contains msg ''SQLITE_BUSY'' \<or>
          Contains msg ''database is locked''
      | _ \<Rightarrow> False)"

text \<open>Saving the tasks one by one; \<open>fresh\<close> gives the ids of new tasks.  The tasks are changed in memory
  also when a statement fails.\<close>

fun save_tasks ::
  "db_engine \<Rightarrow> (nat \<Rightarrow> string) \<Rightarrow> nat \<Rightarrow> TaskExecution list \<Rightarrow> DB \<Rightarrow> (repo_error, DB) result \<times> TaskExecution list" where
  "save_tasks e fresh i [] db = (Ok db, [])"
| "save_tasks e fresh i (t # ts) db =
     (let newTask = (te_ID t = []);
          t = (if newTask then t\<lparr>te_ID := fresh i\<rparr> else t);
          res = (if newTask then op_create (e_tasks e) t (db_tasks db)
                 else op_save (e_tasks e) (\<lambda>r. te_ID r = te_ID t) t (db_tasks db))
      in case res of
           Inl m \<Rightarrow> (Err (DatabaseError m), t # ts)
         | Inr rows \<Rightarrow>
             (case save_tasks e fresh (Suc i) ts (db\<lparr>db_tasks := rows\<rparr>) of
                (r, ts') \<Rightarrow> (r, t # ts')))"

text \<open>\<open>calcCost\<close> is the cost the database computes from its times.\<close>

definition save_prepare ::
  "(string \<Rightarrow> DB \<Rightarrow> int) \<Rightarrow> string \<Rightarrow> int \<Rightarrow> JobExecution \<Rightarrow> DB \<Rightarrow> JobExecution" where
  "save_prepare calcCost newid now je db =
     (let newJob = (je_ID je = []);
          je = je\<lparr>je_UpdatedAt := now, je_ID := (if newJob then newid else je_ID je), je_Active := True\<rparr>;
          je = je\<lparr>je_Tasks := map (\<lambda>t. t\<lparr>te_JobExecutionID := je_ID je, te_Active := True\<rparr>) (je_Tasks je)\<rparr>
      in if CanFinalize (je_JobState je) then
           (let cpuSecs = job_ExecutionCostSecs now je;
                cost = (if newJob then 0 else calcCost (je_ID je) db)
            in je\<lparr>je_CPUSecs := (if cost > 0 \<and> cost > cpuSecs then cost else cpuSecs), je_EndedAt := Some now\<rparr>)
         else je)"

definition exec_save_body ::
  "db_engine \<Rightarrow> (string \<Rightarrow> DB \<Rightarrow> int) \<Rightarrow> string \<Rightarrow> (nat \<Rightarrow> string) \<Rightarrow> int \<Rightarrow> JobExecution \<Rightarrow> DB \<Rightarrow>
   (repo_error, DB) result \<times> JobExecution" where
  "exec_save_body e calcCost newid fresh now je db =
     (let newJob = (je_ID je = []);
          db = (if newJob then db else clearOrphanJobTasks e je db);
          je = save_prepare calcCost newid now je db;
          row = je\<lparr>je_Tasks := []\<rparr>;
          res = (if newJob then op_create (e_execs e) row (db_execs db)
                 else op_save (e_execs e) (\<lambda>x. je_ID x = je_ID je) row (db_execs db))
      in case res of
           Inl m \<Rightarrow> (Err (DatabaseError m), je)
         | Inr rows \<Rightarrow>
             (case save_tasks e fresh 0 (je_Tasks je) (db\<lparr>db_execs := rows\<rparr>) of
                (r, ts) \<Rightarrow> (r, je\<lparr>je_Tasks := ts\<rparr>)))"

text \<open>At most \<open>left + 1\<close> attempts, each with ids of its own; a new execution gets a new id each time.\<close>

fun save_attempts ::
  "db_engine \<Rightarrow> (string \<Rightarrow> DB \<Rightarrow> int) \<Rightarrow> (nat \<Rightarrow> string) \<Rightarrow> (nat \<Rightarrow> nat \<Rightarrow> string) \<Rightarrow> int \<Rightarrow> bool \<Rightarrow> nat \<Rightarrow> JobExecution \<Rightarrow> DB \<Rightarrow>
   DB \<times> JobExecution \<times> repo_error option" where
  "save_attempts e calcCost newids fresh now isNewJob left je db =
     (let je = (if isNewJob then je\<lparr>je_ID := []\<rparr> else je);
          body = exec_save_body e calcCost (newids left) (fresh left) now je
      in case e_transaction e (\<lambda>d. fst (body d)) db of
           (db', err) \<Rightarrow>
             if err = None \<or> \<not> isDeadlockError err \<or> left = 0 then (db', snd (body db), err)
             else save_attempts e calcCost newids fresh now isNewJob (left - 1) (snd (body db)) db')"

definition exec_Save ::
  "db_engine \<Rightarrow> (string \<Rightarrow> DB \<Rightarrow> int) \<Rightarrow> (nat \<Rightarrow> string) \<Rightarrow> (nat \<Rightarrow> nat \<Rightarrow> string) \<Rightarrow> int \<Rightarrow> JobExecution option \<Rightarrow> DB \<Rightarrow>
   DB \<times> JobExecution option \<times> repo_error option" where
  "exec_Save e calcCost newids fresh now jobExec db =
     (case jobExec of
        None \<Rightarrow> (db, None, Some ValidationError)
      | Some je \<Rightarrow>
          if job_exec_ValidateBeforeSave je \<noteq> None then (db, None, Some ValidationError)
          else
            (let je = je\<lparr>je_StartedAt := (if je_StartedAt je = 0 then now else je_StartedAt je)\<rparr>
             in case save_attempts e calcCost newids fresh now (je_ID je = []) 2 je db of
                  (db', je', err) \<Rightarrow> (db', Some je', err)))"

declare save_attempts.simps [simp del]

subsection \<open>Lemmas\<close>

lemma latest_loop_mwf: "mwf m \<Longrightarrow> mwf (latest_loop ts m)"
  by (induction ts arbitrary: m) (auto split: option.splits)

lemma latest_loop_from:
  "mget (latest_loop ts m) ty = Some t \<Longrightarrow> t \<in> set ts \<and> te_TaskType t = ty \<or> mget m ty = Some t"
  by (induction ts arbitrary: m) (fastforce split: option.splits if_splits)+

lemma latest_loop_old:
  "mget m ty = Some p \<Longrightarrow> \<exists>t. mget (latest_loop ts m) ty = Some t \<and> te_UpdatedAt p \<le> te_UpdatedAt t"
proof (induction ts arbitrary: m p)
  case (Cons s ts)
  show ?case
  proof (cases "te_TaskType s = ty")
    case True
    with Cons.prems Cons.IH[of "mset ty s m" s] Cons.IH[of m p] show ?thesis by fastforce
  next
    case False
    with Cons.prems Cons.IH show ?thesis by (auto split: option.splits)
  qed
qed simp

lemma latest_loop_max:
  "s \<in> set ts \<Longrightarrow> \<exists>t. mget (latest_loop ts m) (te_TaskType s) = Some t \<and> te_UpdatedAt s \<le> te_UpdatedAt t"
proof (induction ts arbitrary: m)
  case (Cons x ts)
  show ?case
  proof (cases "s = x")
    case True
    show ?thesis
    proof (cases "mget m (te_TaskType x)")
      case None
      then show ?thesis using True latest_loop_old[of "mset (te_TaskType x) x m" "te_TaskType x" x ts] by simp
    next
      case (Some p)
      then show ?thesis
        using True latest_loop_old[of "mset (te_TaskType x) x m" "te_TaskType x" x ts] latest_loop_old[OF Some, of ts]
        by fastforce
    qed
  next
    case False
    then have "s \<in> set ts" using Cons.prems by simp
    then show ?thesis using Cons.IH by (auto split: option.splits)
  qed
qed simp

definition is_latest :: "(string, TaskExecution) gomap \<Rightarrow> TaskExecution \<Rightarrow> bool" where
  "is_latest latest t \<longleftrightarrow> map_option te_ID (mget latest (te_TaskType t)) = Some (te_ID t)"

lemma heal_loop_kept: "snd (heal_loop e now latest ts db) = filter (is_latest latest) ts"
  by (induction ts arbitrary: db) (auto simp: is_latest_def case_prod_beta split: sum.splits)

lemma latest_kept:
  assumes "distinct (map te_ID ts)"
  shows "distinct (map te_TaskType (filter (is_latest (latest_loop ts [])) ts))"
    and "te_TaskType ` set (filter (is_latest (latest_loop ts [])) ts) = te_TaskType ` set ts"
    and "t \<in> set (filter (is_latest (latest_loop ts [])) ts) \<Longrightarrow> s \<in> set ts \<Longrightarrow> te_TaskType s = te_TaskType t \<Longrightarrow>
      te_UpdatedAt s \<le> te_UpdatedAt t"
proof -
  let ?l = "latest_loop ts []"
  have inj: "a = b" if "a \<in> set ts" "b \<in> set ts" "te_ID a = te_ID b" for a b
    using assms that by (auto simp: distinct_map inj_on_def)
  have kept: "is_latest ?l t \<longleftrightarrow> mget ?l (te_TaskType t) = Some t" if "t \<in> set ts" for t
  proof
    assume "is_latest ?l t"
    then obtain u where u: "mget ?l (te_TaskType t) = Some u" "te_ID u = te_ID t" by (auto simp: is_latest_def)
    from latest_loop_from[OF u(1)] have "u \<in> set ts" by simp
    with inj[of u t] that u show "mget ?l (te_TaskType t) = Some t" by simp
  qed (simp add: is_latest_def)
  show "distinct (map te_TaskType (filter (is_latest ?l) ts))"
    using assms kept by (auto simp: distinct_map inj_on_def distinct_filter)
  have "te_TaskType s \<in> te_TaskType ` set (filter (is_latest ?l) ts)" if "s \<in> set ts" for s
  proof -
    from latest_loop_max[OF that, of "[]"] obtain t where "mget ?l (te_TaskType s) = Some t" by blast
    then have t: "t \<in> set ts" "te_TaskType s = te_TaskType t" "is_latest ?l t"
      using latest_loop_from[of ts "[]" "te_TaskType s" t] kept[of t] by auto
    show ?thesis unfolding t(2) by (rule imageI) (simp add: t)
  qed
  then show "te_TaskType ` set (filter (is_latest ?l) ts) = te_TaskType ` set ts" by auto
  show "te_UpdatedAt s \<le> te_UpdatedAt t"
    if "t \<in> set (filter (is_latest ?l) ts)" "s \<in> set ts" "te_TaskType s = te_TaskType t"
    using that kept[of t] latest_loop_max[of s ts "[]"] by auto
qed

lemma latest_all:
  assumes "\<not> length (latest_loop ts []) < length ts"
  shows "filter (is_latest (latest_loop ts [])) ts = ts"
proof -
  let ?l = "latest_loop ts []"
  have keys: "set (mkeys ?l) = te_TaskType ` set ts"
  proof (intro set_eqI iffI)
    fix ty assume "ty \<in> set (mkeys ?l)"
    then obtain t where "mget ?l ty = Some t" by (metis mget_None_iff option.exhaust)
    then show "ty \<in> te_TaskType ` set ts" using latest_loop_from[of ts "[]" ty t] by auto
  next
    fix ty assume "ty \<in> te_TaskType ` set ts"
    then obtain s where "s \<in> set ts" "ty = te_TaskType s" by auto
    with latest_loop_max[of s ts "[]"] show "ty \<in> set (mkeys ?l)" using mget_None_iff[of ?l ty] by auto
  qed
  have "length ?l = card (set (mkeys ?l))"
    using latest_loop_mwf[of "[]" ts] distinct_card[of "mkeys ?l"] by (simp add: mwf_def mkeys_def)
  with keys assms have "length ts \<le> card (te_TaskType ` set ts)" by simp
  then have d: "distinct (map te_TaskType ts)"
    by (metis card_distinct card_length eq_iff length_map list.set_map)
  have "is_latest ?l t" if t: "t \<in> set ts" for t
  proof -
    obtain u where u: "mget ?l (te_TaskType t) = Some u" using latest_loop_max[OF t, of "[]"] by blast
    then have "u \<in> set ts" "te_TaskType u = te_TaskType t" using latest_loop_from[of ts "[]"] by fastforce+
    then have "u = t" using t d by (auto simp: distinct_map inj_on_def)
    with u show ?thesis by (simp add: is_latest_def)
  qed
  then show ?thesis by simp
qed

lemma load_tasks_fields:
  "load_tasks dec ts = Ok ts' \<Longrightarrow>
   map (\<lambda>t. (te_ID t, te_TaskType t, te_UpdatedAt t, te_TaskOrder t)) ts' =
   map (\<lambda>t. (te_ID t, te_TaskType t, te_UpdatedAt t, te_TaskOrder t)) ts"
  by (induction ts arbitrary: ts') (auto simp: task_AfterLoad_def split: sum.splits)

lemma exec_Get_Ok:
  assumes "exec_Get e dec now xid db = (db', Ok je)"
  obtains rows ts where "op_find (e_tasks e) (\<lambda>t. te_JobExecutionID t = xid \<and> te_Active t) (\<lambda>_. 0) (db_tasks db) = Ok rows"
    "load_tasks dec rows = Ok ts"
    "je_Tasks je = map (\<lambda>t. t\<lparr>te_Contexts := sort_key nv_Name (te_Contexts t)\<rparr>)
       (filter (is_latest (latest_loop (sort_key te_TaskOrder ts) [])) (sort_key te_TaskOrder ts))"
proof -
  let ?find = "op_find (e_tasks e) (\<lambda>t. te_JobExecutionID t = xid \<and> te_Active t) (\<lambda>_. 0) (db_tasks db)"
  from assms obtain x where x: "xid \<noteq> []" "op_first (e_execs e) (\<lambda>x. je_ID x = xid \<and> je_Active x) (db_execs db) = Ok (Some x)"
    by (auto simp: exec_Get_def split: if_splits sum.splits option.splits)
  with assms obtain rows where rows: "?find = Ok rows" by (auto simp: exec_Get_def split: sum.splits)
  with assms x obtain job where job: "job_AfterLoad dec (x\<lparr>je_Tasks := rows\<rparr>) = Ok job"
    by (auto simp: exec_Get_def split: sum.splits)
  then obtain ts where ts: "load_tasks dec rows = Ok ts" "je_Tasks job = ts"
    by (auto simp: job_AfterLoad_def split: sum.splits)
  let ?T = "sort_key te_TaskOrder ts"
  let ?l = "latest_loop ?T []"
  have "je = sort_contexts (job\<lparr>je_Tasks := filter (is_latest ?l) ?T\<rparr>)"
  proof (cases "length ?l < length ?T")
    case True
    then have "je = sort_contexts (job\<lparr>je_Tasks := snd (heal_loop e now ?l ?T db)\<rparr>)"
      using assms x rows job ts(2) by (simp add: exec_Get_def Let_def split: prod.splits)
    then show ?thesis by (simp only: heal_loop_kept)
  next
    case False
    then have "je = sort_contexts (job\<lparr>je_Tasks := ?T\<rparr>)"
      using assms x rows job ts(2) by (simp add: exec_Get_def Let_def)
    with latest_all[OF False] show ?thesis by simp
  qed
  with rows ts(1) that show thesis by (simp add: sort_contexts_def)
qed

text \<open>A request and the execution it points to are in the same state.\<close>

definition in_sync :: "string \<Rightarrow> DB \<Rightarrow> bool" where
  "in_sync xid db \<longleftrightarrow>
     (\<forall>r \<in> set (db_requests db). \<forall>x \<in> set (db_execs db).
        jr_JobExecutionID r = xid \<and> je_ID x = xid \<longrightarrow> jr_JobState r = je_JobState x)"

context sql_engine
begin

lemma clearOrphanJobTasks_noop: "clearOrphanJobTasks e job db = db"
proof (cases "loadTasksIDByJobID e (je_ID job) db")
  case (Inr old)
  then obtain ts where ts: "op_find (e_tasks e) (\<lambda>t. te_JobExecutionID t = je_ID job) (\<lambda>_. 0) (db_tasks db) = Ok ts"
    and old: "old = map te_ID ts" by (auto simp: loadTasksIDByJobID_def split: sum.splits)
  have "set ts = {t \<in> set (db_tasks db). te_JobExecutionID t = je_ID job}"
    using tasks.find_ok[OF ts] by (auto dest: same_rows_set)
  then have "filter (\<lambda>t. \<not> (te_ID t \<in> set (filter (\<lambda>i. i \<notin> set old) (map te_ID (je_Tasks job))) \<and>
      te_JobExecutionID t = je_ID job)) (db_tasks db) = db_tasks db"
    by (auto simp: old filter_id_conv)
  with Inr show ?thesis
    by (auto simp: clearOrphanJobTasks_def Let_def split: sum.splits dest!: delete_tasks_Ok)
qed (simp add: clearOrphanJobTasks_def)

lemma save_task_row:
  assumes "(if new then op_create (e_tasks e) t rows else op_save (e_tasks e) (\<lambda>r. te_ID r = te_ID t) t rows) = Ok rows'"
  shows "t \<in> set rows'"
    and "filter (\<lambda>r. te_ID r \<noteq> te_ID t) rows' = filter (\<lambda>r. te_ID r \<noteq> te_ID t) rows"
proof -
  have keep: "filter (\<lambda>r. te_ID r \<noteq> te_ID t) (update_rows (\<lambda>r. te_ID r = te_ID t) (\<lambda>_. t) rs) =
      filter (\<lambda>r. te_ID r \<noteq> te_ID t) rs" for rs by (induction rs) auto
  have put: "t \<in> set (update_rows (\<lambda>r. te_ID r = te_ID t) (\<lambda>_. t) rs)" if "list_ex (\<lambda>r. te_ID r = te_ID t) rs" for rs
    using that by (induction rs) auto
  from assms have "rows' = rows @ [t] \<or> (list_ex (\<lambda>r. te_ID r = te_ID t) rows \<and>
      rows' = update_rows (\<lambda>r. te_ID r = te_ID t) (\<lambda>_. t) rows)"
    by (auto dest!: tasks.create_ok tasks.save_ok split: if_splits)
  then show "t \<in> set rows'" "filter (\<lambda>r. te_ID r \<noteq> te_ID t) rows' = filter (\<lambda>r. te_ID r \<noteq> te_ID t) rows"
    using keep put by auto
qed

lemma save_tasks_stored:
  "save_tasks e fresh i ts db = (Ok db', ts') \<Longrightarrow> distinct (map te_ID ts') \<Longrightarrow>
   (\<forall>t \<in> set ts'. t \<in> set (db_tasks db')) \<and>
   filter (\<lambda>r. te_ID r \<notin> te_ID ` set ts') (db_tasks db') = filter (\<lambda>r. te_ID r \<notin> te_ID ` set ts') (db_tasks db) \<and>
   db'\<lparr>db_tasks := []\<rparr> = db\<lparr>db_tasks := []\<rparr>"
proof (induction ts arbitrary: i db ts')
  case (Cons t ts)
  define t1 where "t1 = (if te_ID t = [] then t\<lparr>te_ID := fresh i\<rparr> else t)"
  from Cons.prems(1) obtain rows us where
    1: "(if te_ID t = [] then op_create (e_tasks e) t1 (db_tasks db)
         else op_save (e_tasks e) (\<lambda>r. te_ID r = te_ID t1) t1 (db_tasks db)) = Ok rows"
    and 2: "save_tasks e fresh (Suc i) ts (db\<lparr>db_tasks := rows\<rparr>) = (Ok db', us)" and 3: "ts' = t1 # us"
    unfolding t1_def by (auto simp: Let_def split: sum.splits prod.splits if_splits)
  note head = save_task_row[OF 1]
  have d: "te_ID t1 \<notin> te_ID ` set us" "distinct (map te_ID us)" using Cons.prems(2) 3 by simp_all
  note IH = Cons.IH[OF 2 d(2)]
  let ?F = "\<lambda>us. filter (\<lambda>r. te_ID r \<notin> te_ID ` set us)" and ?G = "filter (\<lambda>r. te_ID r \<noteq> te_ID t1)"
  have FG: "?F ts' rs = ?F us (?G rs)" "?F us (?G rs) = ?G (?F us rs)" for rs
    unfolding 3 filter_filter by (auto intro: filter_cong)
  have tail: "?F us (db_tasks db') = ?F us rows" using IH by simp
  have "?F ts' (db_tasks db') = ?G (?F us rows)" by (simp only: FG tail)
  also have "\<dots> = ?F ts' (db_tasks db)" by (simp only: FG(2)[symmetric] head(2) FG(1))
  finally have "?F ts' (db_tasks db') = ?F ts' (db_tasks db)" .
  moreover have "t1 \<in> set (?F us (db_tasks db'))" unfolding tail using head(1) d(1) by simp
  then have "t1 \<in> set (db_tasks db')" by simp
  ultimately show ?case using IH 3 by simp
qed simp

end

text \<open>What saving does to the tasks in memory, whether or not a statement fails: every task keeps all but
  its id, and ids that are missing come from \<open>fresh\<close>.\<close>

lemma save_tasks_memory:
  assumes "save_tasks e fresh i ts db = (r, ts')" and "inj fresh" and "\<And>k. fresh k \<noteq> []"
    and "\<And>k. i \<le> k \<Longrightarrow> fresh k \<notin> te_ID ` set ts" and "distinct (filter (\<lambda>x. x \<noteq> []) (map te_ID ts))"
  shows "map (\<lambda>t. t\<lparr>te_ID := []\<rparr>) ts' = map (\<lambda>t. t\<lparr>te_ID := []\<rparr>) ts \<and>
    te_ID ` set ts' \<subseteq> te_ID ` set ts \<union> fresh ` {i..} \<and>
    distinct (filter (\<lambda>x. x \<noteq> []) (map te_ID ts')) \<and>
    (r = Ok db' \<longrightarrow> [] \<notin> te_ID ` set ts')"
  using assms
proof (induction ts arbitrary: i db ts')
  case (Cons t ts)
  define t1 where "t1 = (if te_ID t = [] then t\<lparr>te_ID := fresh i\<rparr> else t)"
  have fresh: "fresh i \<notin> te_ID ` set ts \<union> fresh ` {Suc i..}" using Cons.prems(2) Cons.prems(4)[of i] by (auto dest: injD)
  have t1: "te_ID t1 \<noteq> []" "te_ID t1 \<in> insert (te_ID t) (fresh ` {i..})" "t1\<lparr>te_ID := []\<rparr> = t\<lparr>te_ID := []\<rparr>"
    unfolding t1_def using Cons.prems(3) by auto
  have new: "te_ID t1 \<notin> te_ID ` set ts \<union> fresh ` {Suc i..}"
  proof (cases "te_ID t = []")
    case False
    then have "te_ID t \<notin> te_ID ` set ts" using Cons.prems(5) by auto
    moreover have "te_ID t \<noteq> fresh k" if "Suc i \<le> k" for k using Cons.prems(4)[of k] that by auto
    ultimately show ?thesis using False unfolding t1_def by auto
  qed (use fresh in \<open>simp add: t1_def\<close>)
  have d: "distinct (filter (\<lambda>x. x \<noteq> []) (map te_ID ts))" using Cons.prems(5) by (simp split: if_splits)
  from Cons.prems(1) consider (err) m where "r = Err m" "ts' = t1 # ts"
    | (rec) rows us where "save_tasks e fresh (Suc i) ts (db\<lparr>db_tasks := rows\<rparr>) = (r, us)" "ts' = t1 # us"
    unfolding t1_def by (auto simp: Let_def split: sum.splits prod.splits if_splits)
  then show ?case
  proof cases
    case err
    with t1 new d show ?thesis by auto
  next
    case rec
    have "fresh k \<notin> te_ID ` set ts" if "Suc i \<le> k" for k using Cons.prems(4)[of k] that by auto
    note IH = Cons.IH[OF rec(1) Cons.prems(2,3) this d]
    have "{Suc i..} \<subseteq> {i..}" by auto
    then have "fresh ` {Suc i..} \<subseteq> fresh ` {i..}" by (rule image_mono)
    with IH t1(2) have "te_ID ` set ts' \<subseteq> te_ID ` set (t # ts) \<union> fresh ` {i..}" unfolding rec(2) by auto
    moreover have "te_ID t1 \<notin> te_ID ` set us" using IH new by blast
    then have "distinct (filter (\<lambda>x. x \<noteq> []) (map te_ID ts'))" using IH t1(1) unfolding rec(2) by simp
    ultimately show ?thesis using IH t1(1,3) unfolding rec(2) by simp
  qed
qed simp

text \<open>Ids: those present are distinct, and those to come are new.\<close>

definition ids_ok :: "(nat \<Rightarrow> nat \<Rightarrow> string) \<Rightarrow> nat \<Rightarrow> TaskExecution list \<Rightarrow> bool" where
  "ids_ok fresh left ts \<longleftrightarrow> distinct (filter (\<lambda>x. x \<noteq> []) (map te_ID ts)) \<and> (\<forall>l \<le> left. \<forall>i. fresh l i \<notin> te_ID ` set ts)"

text \<open>The execution \<open>j\<close> and its tasks are rows of \<open>db'\<close>, and all rows of others are those of \<open>db\<close>.\<close>

definition stored :: "JobExecution \<Rightarrow> DB \<Rightarrow> DB \<Rightarrow> bool" where
  "stored j db db' \<longleftrightarrow>
     j\<lparr>je_Tasks := []\<rparr> \<in> set (db_execs db') \<and>
     (\<forall>t \<in> set (je_Tasks j). t \<in> set (db_tasks db') \<and> te_JobExecutionID t = je_ID j \<and> te_Active t) \<and>
     distinct (map te_ID (je_Tasks j)) \<and>
     filter (\<lambda>y. je_ID y \<noteq> je_ID j) (db_execs db') = filter (\<lambda>y. je_ID y \<noteq> je_ID j) (db_execs db) \<and>
     filter (\<lambda>t. te_ID t \<notin> te_ID ` set (je_Tasks j)) (db_tasks db') =
       filter (\<lambda>t. te_ID t \<notin> te_ID ` set (je_Tasks j)) (db_tasks db) \<and>
     db'\<lparr>db_tasks := [], db_execs := []\<rparr> = db\<lparr>db_tasks := [], db_execs := []\<rparr>"

context sql_engine
begin

lemma save_exec_row:
  assumes "(if new then op_create (e_execs e) x rows else op_save (e_execs e) (\<lambda>r. je_ID r = je_ID x) x rows) = Ok rows'"
  shows "x \<in> set rows' \<and> filter (\<lambda>r. je_ID r \<noteq> je_ID x) rows' = filter (\<lambda>r. je_ID r \<noteq> je_ID x) rows"
proof -
  have keep: "filter (\<lambda>r. je_ID r \<noteq> je_ID x) (update_rows (\<lambda>r. je_ID r = je_ID x) (\<lambda>_. x) rs) =
      filter (\<lambda>r. je_ID r \<noteq> je_ID x) rs" for rs by (induction rs) auto
  have put: "x \<in> set (update_rows (\<lambda>r. je_ID r = je_ID x) (\<lambda>_. x) rs)" if "list_ex (\<lambda>r. je_ID r = je_ID x) rs" for rs
    using that by (induction rs) auto
  from assms have "rows' = rows @ [x] \<or> (list_ex (\<lambda>r. je_ID r = je_ID x) rows \<and>
      rows' = update_rows (\<lambda>r. je_ID r = je_ID x) (\<lambda>_. x) rows)"
    by (auto dest!: execs.create_ok execs.save_ok split: if_splits)
  then show ?thesis using keep put by auto
qed

text \<open>One attempt: the execution in memory, and what is stored when no statement failed.\<close>

lemma exec_save_body_result:
  assumes "exec_save_body e calcCost newid fresh now je db = (r, j)"
  defines "x \<equiv> save_prepare calcCost newid now je db"
  obtains (failed) m where "r = Err m" "j = x"
  | (saved) rows ts where "save_tasks e fresh 0 (je_Tasks x) (db\<lparr>db_execs := rows\<rparr>) = (r, ts)" "j = x\<lparr>je_Tasks := ts\<rparr>"
    "x\<lparr>je_Tasks := []\<rparr> \<in> set rows"
    "filter (\<lambda>y. je_ID y \<noteq> je_ID x) rows = filter (\<lambda>y. je_ID y \<noteq> je_ID x) (db_execs db)"
proof -
  let ?row = "x\<lparr>je_Tasks := []\<rparr>"
  let ?res = "if je_ID je = [] then op_create (e_execs e) ?row (db_execs db)
     else op_save (e_execs e) (\<lambda>y. je_ID y = je_ID ?row) ?row (db_execs db)"
  have body: "(case ?res of Inl m \<Rightarrow> (Err (DatabaseError m), x)
      | Inr rows \<Rightarrow> (case save_tasks e fresh 0 (je_Tasks x) (db\<lparr>db_execs := rows\<rparr>) of (r, ts) \<Rightarrow> (r, x\<lparr>je_Tasks := ts\<rparr>))) = (r, j)"
    using assms(1) unfolding exec_save_body_def x_def Let_def clearOrphanJobTasks_noop if_cancel
    by (cases "je_ID je = []") simp_all
  show thesis
  proof (cases ?res)
    case (Inl m)
    with body failed show thesis by auto
  next
    case (Inr rows)
    from save_exec_row[OF this] body Inr saved show thesis by (auto split: prod.splits)
  qed
qed

lemma save_attempt:
  assumes "exec_save_body e calcCost newid (fresh left) now je db = (r, j)"
    and "ids_ok fresh left (je_Tasks je)" and "inj (case_prod fresh)" and "\<And>l i. fresh l i \<noteq> []"
  shows "je_ID j = (if je_ID je = [] then newid else je_ID je) \<and>
    map te_TaskType (je_Tasks j) = map te_TaskType (je_Tasks je) \<and>
    (\<forall>k < left. ids_ok fresh k (je_Tasks j)) \<and> (r = Ok db' \<longrightarrow> stored j db db')"
proof -
  let ?x = "save_prepare calcCost newid now je db"
  have x: "je_ID ?x = (if je_ID je = [] then newid else je_ID je)"
    "je_Tasks ?x = map (\<lambda>t. t\<lparr>te_JobExecutionID := je_ID ?x, te_Active := True\<rparr>) (je_Tasks je)"
    by (simp_all add: save_prepare_def Let_def)
  have ids: "map te_ID (je_Tasks ?x) = map te_ID (je_Tasks je)" "te_ID ` set (je_Tasks ?x) = te_ID ` set (je_Tasks je)"
    "map te_TaskType (je_Tasks ?x) = map te_TaskType (je_Tasks je)"
    by (simp_all add: x(2) comp_def image_image)
  from assms(1) show ?thesis
  proof (cases rule: exec_save_body_result)
    case (failed m)
    with assms(2) ids show ?thesis by (auto simp: ids_ok_def x(1))
  next
    case (saved rows ts)
    have inj: "inj (fresh left)" using assms(3) by (auto simp: inj_def)
    have other: "fresh l i \<noteq> fresh left k" if "l < left" for l i k using assms(3) that by (auto simp: inj_def)
    have new: "fresh left k \<notin> te_ID ` set (je_Tasks ?x)" for k using assms(2) unfolding ids ids_ok_def by blast
    have "distinct (filter (\<lambda>x. x \<noteq> []) (map te_ID (je_Tasks ?x)))" using assms(2) unfolding ids ids_ok_def by blast
    note mem = save_tasks_memory[OF saved(1) inj assms(4) new this, of db']
    have "fresh l i \<notin> te_ID ` set ts" if "l < left" for l i
    proof -
      have "fresh l i \<notin> te_ID ` set (je_Tasks ?x)" using assms(2) that unfolding ids ids_ok_def by (meson less_imp_le)
      moreover have "fresh l i \<notin> fresh left ` {0..}" using other[OF that] by auto
      ultimately show ?thesis using mem by blast
    qed
    then have k: "\<forall>k < left. ids_ok fresh k ts" using mem by (auto simp: ids_ok_def)
    have same: "map (\<lambda>t. t\<lparr>te_ID := []\<rparr>) ts = map (\<lambda>t. t\<lparr>te_ID := []\<rparr>) (je_Tasks ?x)" using mem by blast
    have ty: "map te_TaskType ts = map te_TaskType (je_Tasks je)"
      using arg_cong[OF same, of "map te_TaskType"] ids(3) by (simp add: comp_def)
    have "(\<lambda>t. (te_JobExecutionID t, te_Active t)) ` set ts = (\<lambda>t. (te_JobExecutionID t, te_Active t)) ` set (je_Tasks ?x)"
      using arg_cong[OF same, of "\<lambda>us. set (map (\<lambda>t. (te_JobExecutionID t, te_Active t)) us)"] by (simp add: image_image)
    then have own: "te_JobExecutionID t = je_ID ?x \<and> te_Active t" if "t \<in> set ts" for t
      using imageI[OF that, of "\<lambda>t. (te_JobExecutionID t, te_Active t)"] x(2) by (auto simp del: image_cong_simp)
    have "stored j db db'" if "r = Ok db'"
    proof -
      have "[] \<notin> set (map te_ID ts)" using mem that by simp
      then have "\<forall>x \<in> set (map te_ID ts). x \<noteq> []" by blast
      then have d: "distinct (map te_ID ts)" using mem by (simp only: filter_True)
      note st = save_tasks_stored[OF saved(1)[unfolded that] d]
      then have "db'\<lparr>db_tasks := []\<rparr> = db\<lparr>db_execs := rows, db_tasks := []\<rparr>" by simp
      from arg_cong[OF this, of db_execs] arg_cong[OF this, of "db_execs_update (\<lambda>_. [])"]
      have db': "db_execs db' = rows" "db'\<lparr>db_tasks := [], db_execs := []\<rparr> = db\<lparr>db_tasks := [], db_execs := []\<rparr>"
        by simp_all
      from st own d saved(3,4) show ?thesis unfolding stored_def saved(2) db' by simp
    qed
    with k ty x(1) saved(2) show ?thesis by simp
  qed
qed

lemma save_attempts_result:
  "save_attempts e calcCost newids fresh now isNewJob left je db = (db', j, err) \<Longrightarrow>
   ids_ok fresh left (je_Tasks je) \<Longrightarrow> inj (case_prod fresh) \<Longrightarrow> (\<And>l i. fresh l i \<noteq> []) \<Longrightarrow> (je_ID je = [] \<longrightarrow> isNewJob) \<Longrightarrow>
   (if err \<noteq> None then db' = db
    else stored j db db' \<and> map te_TaskType (je_Tasks j) = map te_TaskType (je_Tasks je) \<and>
      (if isNewJob then je_ID j \<in> range newids else je_ID j = je_ID je))"
proof (induction left arbitrary: je db rule: less_induct)
  case (less left)
  let ?je = "if isNewJob then je\<lparr>je_ID := []\<rparr> else je"
  let ?body = "exec_save_body e calcCost (newids left) (fresh left) now ?je"
  obtain r k where b: "?body db = (r, k)" by fastforce
  have ids: "ids_ok fresh left (je_Tasks ?je)" using less.prems(2) by simp
  note at = save_attempt[OF b ids less.prems(3,4)]
  obtain db1 err1 where tx: "e_transaction e (\<lambda>d. fst (?body d)) db = (db1, err1)" by fastforce
  show ?case
  proof (cases "err1 = None \<or> \<not> isDeadlockError err1 \<or> left = 0")
    case True
    with less.prems(1) tx b have eq: "db' = db1" "j = k" "err = err1"
      by (auto simp: save_attempts.simps[of e calcCost newids fresh now isNewJob left] Let_def)
    from tx show ?thesis
    proof (cases rule: transaction_cases)
      case commit
      with b have "r = Ok db1" by simp
      with at[of db1] commit(1) eq less.prems(5) show ?thesis by auto
    qed (simp add: eq)
  next
    case False
    from tx have db1: "db1 = db" using False by (cases rule: transaction_cases) auto
    from less.prems(1) tx b False db1
    have "save_attempts e calcCost newids fresh now isNewJob (left - 1) k db = (db', j, err)"
      by (auto simp: save_attempts.simps[of e calcCost newids fresh now isNewJob left] Let_def)
    from less.IH[OF _ this _ less.prems(3,4)] at[of db'] False less.prems(5) show ?thesis by auto
  qed
qed

lemma update_both_Ok:
  assumes "update_both e xid old f g db = Ok db'"
  shows "old \<notin> set TerminalStates"
    and "db' = db\<lparr>db_requests := update_rows (\<lambda>r. jr_JobExecutionID r = xid \<and> jr_JobState r = old) f (db_requests db),
      db_execs := update_rows (\<lambda>x. je_ID x = xid \<and> je_JobState x = old) g (db_execs db)\<rparr>"
    and "length (filter (\<lambda>r. jr_JobExecutionID r = xid \<and> jr_JobState r = old) (db_requests db)) = 1"
    and "length (filter (\<lambda>x. je_ID x = xid \<and> je_JobState x = old) (db_execs db)) = 1"
proof -
  let ?p = "\<lambda>r. jr_JobExecutionID r = xid \<and> jr_JobState r = old"
  let ?q = "\<lambda>x. je_ID x = xid \<and> je_JobState x = old \<and> je_JobState x \<notin> set TerminalStates"
  from assms obtain db1 where 1: "update_requests e ?p f db = Ok (db1, 1)" and 2: "update_execs e ?q g db1 = Ok (db', 1)"
    by (auto simp: update_both_def split: sum.splits if_splits)
  note u = update_requests_Ok[OF 1] update_execs_Ok[OF 2]
  then have "length (filter ?q (db_execs db)) = 1" by auto
  then have "filter ?q (db_execs db) \<noteq> []" by (metis length_0_conv zero_neq_one)
  then show old: "old \<notin> set TerminalStates" by (auto simp: filter_empty_conv)
  then have q: "?q = (\<lambda>x. je_ID x = xid \<and> je_JobState x = old)" by auto
  show "db' = db\<lparr>db_requests := update_rows ?p f (db_requests db),
      db_execs := update_rows (\<lambda>x. je_ID x = xid \<and> je_JobState x = old) g (db_execs db)\<rparr>"
    "length (filter ?p (db_requests db)) = 1" "length (filter (\<lambda>x. je_ID x = xid \<and> je_JobState x = old) (db_execs db)) = 1"
    using u unfolding q by auto
qed

lemma update_both_sync:
  assumes "update_both e xid old f g db = Ok db'" and "in_sync xid db"
    and f: "\<And>r. jr_JobState (f r) = new \<and> jr_JobExecutionID (f r) = jr_JobExecutionID r \<and> jr_ID (f r) = jr_ID r"
    and g: "\<And>x. je_JobState (g x) = new \<and> je_ID (g x) = je_ID x"
  shows "in_sync xid db'"
    and "\<forall>r \<in> set (db_requests db'). jr_JobExecutionID r = xid \<longrightarrow> jr_JobState r = new"
    and "\<forall>x \<in> set (db_execs db'). je_ID x = xid \<longrightarrow> je_JobState x = new"
    and "filter (\<lambda>r. jr_JobExecutionID r \<noteq> xid) (db_requests db') = filter (\<lambda>r. jr_JobExecutionID r \<noteq> xid) (db_requests db)"
    and "filter (\<lambda>x. je_ID x \<noteq> xid) (db_execs db') = filter (\<lambda>x. je_ID x \<noteq> xid) (db_execs db)"
    and "db_tasks db' = db_tasks db"
    and "\<exists>r \<in> set (db_requests db'). jr_JobExecutionID r = xid" and "\<exists>x \<in> set (db_execs db'). je_ID x = xid"
    and "r' \<in> set (db_requests db') \<Longrightarrow> jr_JobExecutionID r' = xid \<Longrightarrow> \<exists>r \<in> set (db_requests db). r' = f r"
proof -
  note u = update_both_Ok[OF assms(1)]
  have "filter (\<lambda>r. jr_JobExecutionID r = xid \<and> jr_JobState r = old) (db_requests db) \<noteq> []"
    "filter (\<lambda>x. je_ID x = xid \<and> je_JobState x = old) (db_execs db) \<noteq> []" using u(3,4) by (metis length_0_conv zero_neq_one)+
  then obtain r0 x0 where 0: "r0 \<in> set (db_requests db)" "jr_JobExecutionID r0 = xid" "jr_JobState r0 = old"
    "x0 \<in> set (db_execs db)" "je_ID x0 = xid" "je_JobState x0 = old" unfolding filter_empty_conv by blast
  have r: "jr_JobState r = old" if "r \<in> set (db_requests db)" "jr_JobExecutionID r = xid" for r
    using assms(2)[unfolded in_sync_def, rule_format, OF that(1) 0(4)] that(2) 0(5,6) by simp
  have x: "je_JobState x = old" if "x \<in> set (db_execs db)" "je_ID x = xid" for x
    using assms(2)[unfolded in_sync_def, rule_format, OF 0(1) that(1)] that(2) 0(2,3) by simp
  have R': "\<exists>r \<in> set (db_requests db). r' = f r" if "r' \<in> set (db_requests db')" and id: "jr_JobExecutionID r' = xid" for r'
  proof -
    from that obtain s where s: "s \<in> set (db_requests db)" "r' = (if jr_JobExecutionID s = xid \<and> jr_JobState s = old then f s else s)"
      unfolding u(2) by (auto simp: set_update_rows)
    with id have "jr_JobExecutionID s = xid" by (simp add: f split: if_splits)
    with r[OF s(1)] s show ?thesis by auto
  qed
  then show "r' \<in> set (db_requests db') \<Longrightarrow> jr_JobExecutionID r' = xid \<Longrightarrow> \<exists>r \<in> set (db_requests db). r' = f r" by blast
  show R: "\<forall>r \<in> set (db_requests db'). jr_JobExecutionID r = xid \<longrightarrow> jr_JobState r = new" using R' f by blast
  show X: "\<forall>x \<in> set (db_execs db'). je_ID x = xid \<longrightarrow> je_JobState x = new"
  proof (intro ballI impI)
    fix x' assume "x' \<in> set (db_execs db')" and id: "je_ID x' = xid"
    then obtain s where s: "s \<in> set (db_execs db)" "x' = (if je_ID s = xid \<and> je_JobState s = old then g s else s)"
      unfolding u(2) by (auto simp: set_update_rows)
    with id have "je_ID s = xid" by (simp add: g split: if_splits)
    with x[OF s(1)] s(2) show "je_JobState x' = new" by (simp add: g)
  qed
  show "in_sync xid db'" using R X by (simp add: in_sync_def)
  have "filter (\<lambda>r. jr_JobExecutionID r \<noteq> xid) (update_rows (\<lambda>r. jr_JobExecutionID r = xid \<and> jr_JobState r = old) f rs) =
      filter (\<lambda>r. jr_JobExecutionID r \<noteq> xid) rs" for rs by (induction rs) (auto simp: f)
  then show "filter (\<lambda>r. jr_JobExecutionID r \<noteq> xid) (db_requests db') = filter (\<lambda>r. jr_JobExecutionID r \<noteq> xid) (db_requests db)"
    unfolding u(2) by simp
  have "filter (\<lambda>x. je_ID x \<noteq> xid) (update_rows (\<lambda>x. je_ID x = xid \<and> je_JobState x = old) g xs) =
      filter (\<lambda>x. je_ID x \<noteq> xid) xs" for xs by (induction xs) (auto simp: g)
  then show "filter (\<lambda>x. je_ID x \<noteq> xid) (db_execs db') = filter (\<lambda>x. je_ID x \<noteq> xid) (db_execs db)" unfolding u(2) by simp
  show "db_tasks db' = db_tasks db" unfolding u(2) by simp
  have "f r0 \<in> set (db_requests db')" "g x0 \<in> set (db_execs db')" unfolding u(2) using 0
    by (auto simp: set_update_rows intro: rev_image_eqI)
  then show "\<exists>r \<in> set (db_requests db'). jr_JobExecutionID r = xid" "\<exists>x \<in> set (db_execs db'). je_ID x = xid"
    using 0(2,5) f[of r0] g[of x0] by metis+
qed

end

subsection \<open>Properties\<close>

text \<open>C25: An execution that is read has one task per task type: among the active rows of the execution
  every type keeps the row that was updated last, and no type is lost.\<close>

theorem exec_Get_unique:
  assumes "sql_engine e" and "distinct (map te_ID (db_tasks db))" and "exec_Get e dec now xid db = (db', Ok je)"
  shows "distinct (map te_TaskType (je_Tasks je)) \<and>
     te_TaskType ` set (je_Tasks je) = te_TaskType ` {t \<in> set (db_tasks db). te_JobExecutionID t = xid \<and> te_Active t} \<and>
     (\<forall>t \<in> set (je_Tasks je). \<exists>row \<in> set (db_tasks db). te_ID row = te_ID t \<and> te_UpdatedAt row = te_UpdatedAt t \<and>
        (\<forall>s \<in> set (db_tasks db). te_JobExecutionID s = xid \<and> te_Active s \<and> te_TaskType s = te_TaskType t \<longrightarrow>
           te_UpdatedAt s \<le> te_UpdatedAt t))"
proof -
  let ?mine = "\<lambda>t. te_JobExecutionID t = xid \<and> te_Active t"
  let ?f = "\<lambda>t. (te_ID t, te_TaskType t, te_UpdatedAt t, te_TaskOrder t)"
  from assms(3) obtain rows ts where rows: "op_find (e_tasks e) ?mine (\<lambda>_. 0) (db_tasks db) = Ok rows"
    and ts: "load_tasks dec rows = Ok ts"
    and je: "je_Tasks je = map (\<lambda>t. t\<lparr>te_Contexts := sort_key nv_Name (te_Contexts t)\<rparr>)
       (filter (is_latest (latest_loop (sort_key te_TaskOrder ts) [])) (sort_key te_TaskOrder ts))"
    by (rule exec_Get_Ok)
  let ?T = "sort_key te_TaskOrder ts"
  let ?K = "filter (is_latest (latest_loop ?T [])) ?T"
  have same: "same_rows rows (filter ?mine (db_tasks db))"
    using assms(1) rows sql_table.find_ok[of "e_tasks e"] unfolding sql_engine_def by blast
  have set: "set rows = {t \<in> set (db_tasks db). ?mine t}" using same_rows_set[OF same] by simp
  have "distinct (map te_ID rows)" by (rule same_rows_distinct[OF same distinct_map_filter[OF assms(2)]])
  moreover have fields: "map ?f ts = map ?f rows" by (rule load_tasks_fields[OF ts])
  from arg_cong[OF this, of "map fst"] have "map te_ID ts = map te_ID rows" by (simp add: comp_def)
  ultimately have "distinct (map te_ID ts)" by simp
  then have "distinct (map te_ID ?T)" by (rule same_rows_distinct[OF same_rows_sort_key])
  note K = latest_kept[OF this]
  have img: "?f ` set ts = ?f ` set rows" using arg_cong[OF fields, of set] by simp
  then have rowT: "\<exists>r \<in> set rows. ?f r = ?f t" if "t \<in> set ts" for t
    using imageI[OF that, of ?f] unfolding img by (auto simp del: prod.inject)
  have Trow: "\<exists>t \<in> set ts. ?f t = ?f r" if "r \<in> set rows" for r
    using imageI[OF that, of ?f] unfolding img[symmetric] by (auto simp del: prod.inject)
  have "te_TaskType ` set ts = te_TaskType ` set rows"
    using arg_cong[OF img, of "image (fst \<circ> snd)"] by (simp add: image_image)
  moreover have "\<exists>row \<in> set (db_tasks db). te_ID row = te_ID t \<and> te_UpdatedAt row = te_UpdatedAt t \<and>
      (\<forall>s \<in> set (db_tasks db). te_JobExecutionID s = xid \<and> te_Active s \<and> te_TaskType s = te_TaskType t \<longrightarrow>
         te_UpdatedAt s \<le> te_UpdatedAt t)" if t: "t \<in> set ?K" for t
  proof -
    from t have "t \<in> set ts" by simp
    then obtain r where r: "r \<in> set rows" "te_ID r = te_ID t" "te_UpdatedAt r = te_UpdatedAt t" using rowT[of t] by auto
    have "te_UpdatedAt s \<le> te_UpdatedAt t" if s: "s \<in> set rows" "te_TaskType s = te_TaskType t" for s
    proof -
      obtain u where "u \<in> set ts" "te_TaskType u = te_TaskType s" "te_UpdatedAt u = te_UpdatedAt s" using Trow[OF s(1)] by auto
      then show ?thesis using K(3)[OF t, of u] s(2) by simp
    qed
    with r show ?thesis unfolding set by blast
  qed
  ultimately show ?thesis using K(1) K(2) unfolding je by (simp add: comp_def image_image set)
qed

text \<open>Two active rows for one task type.\<close>

definition sample_dup :: DB where
  "sample_dup = sample_db\<lparr>db_execs := [sample_exec_row\<lparr>je_Active := True\<rparr>],
     db_tasks := [sample_task_row, sample_task_row\<lparr>te_ID := ''t2'', te_UpdatedAt := 7\<rparr>]\<rparr>"

lemma sample_dup_get: "\<exists>db' je. exec_Get mem_engine (\<lambda>_ _. None) 9 ''x1'' sample_dup = (db', Ok je)"
  by (simp add: exec_Get_def mem_engine_def mem_table_def sample_dup_def sample_db_def sample_exec_row_def
      NewJobExecution_def sample_task_row_def job_AfterLoad_def task_AfterLoad_def update_tasks_def
      sort_contexts_def Let_def)

theorem exec_Get_unique_witness:
  "\<exists>db' je. exec_Get mem_engine (\<lambda>_ _. None) 9 ''x1'' sample_dup = (db', Ok je) \<and>
     distinct (map te_TaskType (je_Tasks je)) \<and> te_TaskType ` set (je_Tasks je) = {''deploy''}"
proof -
  obtain db' je where g: "exec_Get mem_engine (\<lambda>_ _. None) 9 ''x1'' sample_dup = (db', Ok je)" using sample_dup_get by blast
  have "distinct (map te_ID (db_tasks sample_dup))" by (simp add: sample_dup_def sample_task_row_def)
  from exec_Get_unique[OF mem_engine_laws this g] have "distinct (map te_TaskType (je_Tasks je))"
    "te_TaskType ` set (je_Tasks je) = te_TaskType ` {t \<in> set (db_tasks sample_dup). te_JobExecutionID t = ''x1'' \<and> te_Active t}" by blast+
  moreover have "te_TaskType ` {t \<in> set (db_tasks sample_dup). te_JobExecutionID t = ''x1'' \<and> te_Active t} = {''deploy''}"
    unfolding set_filter[symmetric] by (simp add: sample_dup_def sample_task_row_def)
  ultimately show ?thesis using g by (intro exI[of _ db'] exI[of _ je]) simp
qed

text \<open>C23: Finalizing keeps request and execution in step: a failed call changes nothing; after a successful
  one, which is only possible towards a final or paused state and out of a state that is not terminal,
  every request of the execution and the execution itself are in the new state, a terminal request
  has freed its user key, and no other row has changed.\<close>

theorem finalize_sync:
  assumes "sql_engine e" and "in_sync xid db"
    and "FinalizeJobRequestAndExecutionState e newkey now xid oldState newState errorMessage errorCode cpuSecs
      scheduleDelay retried pausedCount db = (db', err)"
  shows "in_sync xid db' \<and>
    (if err \<noteq> None then db' = db
     else CanFinalize newState \<and> \<not> IsTerminal oldState \<and>
       (\<exists>r \<in> set (db_requests db'). jr_JobExecutionID r = xid) \<and> (\<exists>x \<in> set (db_execs db'). je_ID x = xid) \<and>
       (\<forall>r \<in> set (db_requests db'). jr_JobExecutionID r = xid \<longrightarrow>
          jr_JobState r = newState \<and> (IsTerminal newState \<longrightarrow> jr_UserKey r = newkey)) \<and>
       (\<forall>x \<in> set (db_execs db'). je_ID x = xid \<longrightarrow> je_JobState x = newState) \<and>
       filter (\<lambda>r. jr_JobExecutionID r \<noteq> xid) (db_requests db') = filter (\<lambda>r. jr_JobExecutionID r \<noteq> xid) (db_requests db) \<and>
       filter (\<lambda>x. je_ID x \<noteq> xid) (db_execs db') = filter (\<lambda>x. je_ID x \<noteq> xid) (db_execs db) \<and>
       db_tasks db' = db_tasks db)"
proof (cases "err = None")
  case False
  then have "db' = db"
    using assms(3) sql_engine.tx_rollback[OF assms(1)]
    unfolding FinalizeJobRequestAndExecutionState_def by (auto split: if_splits)
  with False assms(2) show ?thesis by simp
next
  case True
  let ?f = "finalized_request newkey now newState errorMessage errorCode scheduleDelay retried pausedCount"
  have fin: "CanFinalize newState" using assms(3) True by (auto simp: FinalizeJobRequestAndExecutionState_def split: if_splits)
  let ?g = "\<lambda>x. x\<lparr>je_JobState := newState, je_ErrorMessage := errorMessage, je_ErrorCode := errorCode,
    je_EndedAt := Some now, je_CPUSecs := cpuSecs, je_UpdatedAt := now\<rparr>"
  have "e_transaction e (update_both e xid oldState ?f ?g) db = (db', None)"
    using assms(3) fin True unfolding FinalizeJobRequestAndExecutionState_def by simp
  then have b: "update_both e xid oldState ?f ?g db = Ok db'" by (rule sql_engine.tx_commit[OF assms(1)])
  have f: "jr_JobState (?f r) = newState \<and> jr_JobExecutionID (?f r) = jr_JobExecutionID r \<and> jr_ID (?f r) = jr_ID r"
    "IsTerminal newState \<Longrightarrow> jr_UserKey (?f r) = newkey" for r
    by (simp_all add: finalized_request_def Let_def)
  have g: "je_JobState (?g x) = newState \<and> je_ID (?g x) = je_ID x" for x by simp
  note s = sql_engine.update_both_sync[OF assms(1) b assms(2) f(1) g]
  have "jr_UserKey r = newkey" if "r \<in> set (db_requests db')" "jr_JobExecutionID r = xid" "IsTerminal newState" for r
    using s(9)[OF that(1,2)] f(2)[OF that(3)] by auto
  moreover have "\<not> IsTerminal oldState"
    using sql_engine.update_both_Ok(1)[OF assms(1) b] by (simp add: IsTerminal_def TerminalStates_def)
  ultimately show ?thesis using s fin True by simp
qed

lemma sample_finalize:
  "\<exists>db'. FinalizeJobRequestAndExecutionState mem_engine ''k'' 9 ''x1'' MANUAL_APPROVAL_REQUIRED FAILED ''m'' ''c'' 3 0 1 0
     sample_db = (db', None)"
  by (simp add: FinalizeJobRequestAndExecutionState_def CanFinalize_def mem_engine_def mem_transaction_def
      update_both_def update_requests_def update_execs_def mem_table_def sample_db_def sample_request_row_def
      sample_exec_row_def TerminalStates_def IsTerminal_def)

theorem finalize_sync_witness:
  "\<exists>db'. FinalizeJobRequestAndExecutionState mem_engine ''k'' 9 ''x1'' MANUAL_APPROVAL_REQUIRED FAILED ''m'' ''c'' 3 0 1 0
     sample_db = (db', None) \<and> in_sync ''x1'' db' \<and> (\<forall>x \<in> set (db_execs db'). je_ID x = ''x1'' \<longrightarrow> je_JobState x = FAILED)"
proof -
  obtain db' where f: "FinalizeJobRequestAndExecutionState mem_engine ''k'' 9 ''x1'' MANUAL_APPROVAL_REQUIRED FAILED ''m'' ''c'' 3 0 1 0
     sample_db = (db', None)" using sample_finalize by blast
  have "in_sync ''x1'' sample_db"
    by (simp add: in_sync_def sample_db_def sample_request_row_def sample_exec_row_def)
  from finalize_sync[OF mem_engine_laws this f] f show ?thesis by auto
qed

text \<open>C24: Saving an execution is all or nothing, whichever statements fail and however often a deadlock makes
  it try again: an error leaves the database as it was; success stores the execution that is
  returned, with one active row of its own for every task, and changes no other row.\<close>

theorem exec_Save_atomic:
  assumes "sql_engine e" and "ids_ok fresh 2 (je_Tasks je)" and "inj (case_prod fresh)" and "\<And>l i. fresh l i \<noteq> []"
    and "exec_Save e calcCost newids fresh now (Some je) db = (db', res, err)"
  shows "if err \<noteq> None then db' = db
    else \<exists>j. res = Some j \<and> stored j db db' \<and> map te_TaskType (je_Tasks j) = map te_TaskType (je_Tasks je) \<and>
      (if je_ID je = [] then je_ID j \<in> range newids else je_ID j = je_ID je)"
proof (cases "job_exec_ValidateBeforeSave je = None")
  case True
  let ?je = "je\<lparr>je_StartedAt := (if je_StartedAt je = 0 then now else je_StartedAt je)\<rparr>"
  obtain db1 j err1 where a: "save_attempts e calcCost newids fresh now (je_ID ?je = []) 2 ?je db = (db1, j, err1)"
    by (metis prod_cases3)
  with True assms(5) have "db' = db1" "res = Some j" "err = err1" by (auto simp: exec_Save_def Let_def)
  with sql_engine.save_attempts_result[OF assms(1) a _ assms(3,4)] assms(2) show ?thesis by simp
qed (use assms(5) in \<open>auto simp: exec_Save_def\<close>)

definition sample_ids :: "nat \<Rightarrow> nat \<Rightarrow> string" where
  "sample_ids l i = replicate l CHR ''a'' @ replicate (Suc i) CHR ''b''"

lemma sample_ids_inj: "inj (case_prod sample_ids)"
proof (rule injI, clarsimp)
  fix l i l' i' assume eq: "sample_ids l i = sample_ids l' i'"
  have "count_list (replicate n c) d = (if c = d then n else 0)" for n and c d :: char by (induction n) auto
  with arg_cong[OF eq, of "\<lambda>s. count_list s CHR ''a''"] arg_cong[OF eq, of "\<lambda>s. count_list s CHR ''b''"]
  show "l = l' \<and> i = i'" by (simp add: sample_ids_def)
qed

definition sample_new :: JobExecution where
  "sample_new = (NewJobExecution 1 ''r1'' ''job'' ''1.0'' ''alice'' [])\<lparr>je_Tasks := [sample_task_row\<lparr>te_ID := []\<rparr>]\<rparr>"

lemma sample_save:
  "snd (snd (exec_Save mem_engine (\<lambda>_ _. 0) (\<lambda>_. ''x2'') sample_ids 9 (Some sample_new) sample_db)) = None"
  by (simp add: exec_Save_def sample_new_def NewJobExecution_def sample_task_row_def job_exec_ValidateBeforeSave_def
      job_exec_Validate_def task_exec_Validate_def Let_def save_attempts.simps mem_engine_def mem_transaction_def
      exec_save_body_def save_prepare_def mem_table_def CanFinalize_def IsTerminal_def)

theorem exec_Save_atomic_witness:
  "\<exists>db' j. exec_Save mem_engine (\<lambda>_ _. 0) (\<lambda>_. ''x2'') sample_ids 9 (Some sample_new) sample_db = (db', Some j, None) \<and>
     stored j sample_db db' \<and> je_ID j = ''x2'' \<and> map te_TaskType (je_Tasks j) = [''deploy'']"
proof -
  obtain db' res where r: "exec_Save mem_engine (\<lambda>_ _. 0) (\<lambda>_. ''x2'') sample_ids 9 (Some sample_new) sample_db = (db', res, None)"
    using sample_save by (metis prod.collapse)
  have "ids_ok sample_ids 2 (je_Tasks sample_new)" "\<And>l i. sample_ids l i \<noteq> []"
    by (auto simp: ids_ok_def sample_new_def sample_ids_def)
  from exec_Save_atomic[OF mem_engine_laws this(1) sample_ids_inj this(2) r]
  obtain j where "res = Some j" "stored j sample_db db'" "map te_TaskType (je_Tasks j) = map te_TaskType (je_Tasks sample_new)"
    "if je_ID sample_new = [] then je_ID j \<in> range (\<lambda>_::nat. ''x2'') else je_ID j = je_ID sample_new" by auto
  moreover have "je_ID sample_new = []" "map te_TaskType (je_Tasks sample_new) = [''deploy'']"
    by (simp_all add: sample_new_def NewJobExecution_def sample_task_row_def)
  ultimately show ?thesis using r by auto
qed

end
