(* ===== verification/Lru_Cache.thy ===== *)
theory Lru_Cache
  imports Formicary_Prelude
begin

text \<open>
  The least-recently-used cache (\<open>internal/utils/lru.go\<close>) and its refinement of a list of entries,
  the most recent first.

  The Go code shares list elements between the eviction list and the map of items, and updates an
  entry in place.  The model keeps the sharing: an element is an address, a position of \<open>lru_heap\<close>,
  which holds the entries; the eviction list is a list of addresses, front first, and the items map
  keys to addresses.  The calls of the eviction callback are the list \<open>lru_log\<close>, oldest first;
  a callback that is nil only drops the log.
\<close>

record ('k, 'v) LRU =
  lru_size :: int
  lru_evictList :: "nat list"
  lru_items :: "('k, nat) gomap"
  lru_heap :: "('k \<times> 'v) list"
  lru_log :: "('k \<times> 'v) list"

definition NewLRU :: "int \<Rightarrow> ('k, 'v) LRU" where
  "NewLRU sz =
     \<lparr>lru_size = (if sz \<le> 0 then 10000 else sz), lru_evictList = [], lru_items = [],
      lru_heap = [], lru_log = []\<rparr>"

text \<open>\<open>list.MoveToFront\<close> and \<open>list.Remove\<close>.\<close>

definition MoveToFront :: "nat \<Rightarrow> nat list \<Rightarrow> nat list" where
  "MoveToFront e l = e # removeAll e l"

definition removeElement :: "nat \<Rightarrow> ('k, 'v) LRU \<Rightarrow> ('k, 'v) LRU" where
  "removeElement e c =
     (let kv = lru_heap c ! e
      in c\<lparr>lru_evictList := removeAll e (lru_evictList c), lru_items := mdel (fst kv) (lru_items c),
           lru_log := lru_log c @ [kv]\<rparr>)"

definition removeOldest :: "('k, 'v) LRU \<Rightarrow> ('k, 'v) LRU" where
  "removeOldest c = (if lru_evictList c = [] then c else removeElement (last (lru_evictList c)) c)"

definition Purge :: "('k, 'v) LRU \<Rightarrow> ('k, 'v) LRU" where
  "Purge c = c\<lparr>lru_log := lru_log c @ map (\<lambda>(k, e). (k, snd (lru_heap c ! e))) (lru_items c),
     lru_items := [], lru_evictList := []\<rparr>"

definition Add :: "'k \<Rightarrow> 'v \<Rightarrow> ('k, 'v) LRU \<Rightarrow> ('k, 'v) LRU \<times> bool" where
  "Add key v c =
     (case mget (lru_items c) key of
        Some ent \<Rightarrow>
          (c\<lparr>lru_evictList := MoveToFront ent (lru_evictList c),
             lru_heap := (lru_heap c)[ent := (fst (lru_heap c ! ent), v)]\<rparr>, False)
      | None \<Rightarrow>
          (let ent = length (lru_heap c);
               c1 = c\<lparr>lru_evictList := ent # lru_evictList c, lru_heap := lru_heap c @ [(key, v)],
                      lru_items := mset key ent (lru_items c)\<rparr>;
               evict = int (length (lru_evictList c1)) > lru_size c1
           in (if evict then removeOldest c1 else c1, evict)))"

definition Get :: "'k \<Rightarrow> ('k, 'v) LRU \<Rightarrow> ('k, 'v) LRU \<times> 'v option" where
  "Get key c =
     (case mget (lru_items c) key of
        Some ent \<Rightarrow> (c\<lparr>lru_evictList := MoveToFront ent (lru_evictList c)\<rparr>, Some (snd (lru_heap c ! ent)))
      | None \<Rightarrow> (c, None))"

definition lru_Contains :: "'k \<Rightarrow> ('k, 'v) LRU \<Rightarrow> bool" where
  "lru_Contains key c = (mget (lru_items c) key \<noteq> None)"

definition Peek :: "'k \<Rightarrow> ('k, 'v) LRU \<Rightarrow> 'v option" where
  "Peek key c = (case mget (lru_items c) key of Some ent \<Rightarrow> Some (snd (lru_heap c ! ent)) | None \<Rightarrow> None)"

definition lru_Remove :: "'k \<Rightarrow> ('k, 'v) LRU \<Rightarrow> ('k, 'v) LRU \<times> bool" where
  "lru_Remove key c =
     (case mget (lru_items c) key of Some ent \<Rightarrow> (removeElement ent c, True) | None \<Rightarrow> (c, False))"

definition lru_RemoveOldest :: "('k, 'v) LRU \<Rightarrow> ('k, 'v) LRU \<times> ('k \<times> 'v) option" where
  "lru_RemoveOldest c =
     (if lru_evictList c = [] then (c, None)
      else (removeElement (last (lru_evictList c)) c, Some (lru_heap c ! (last (lru_evictList c)))))"

definition GetOldest :: "('k, 'v) LRU \<Rightarrow> ('k \<times> 'v) option" where
  "GetOldest c = (if lru_evictList c = [] then None else Some (lru_heap c ! (last (lru_evictList c))))"

definition lru_Keys :: "('k, 'v) LRU \<Rightarrow> 'k list" where
  "lru_Keys c = map (\<lambda>e. fst (lru_heap c ! e)) (rev (lru_evictList c))"

definition lru_Len :: "('k, 'v) LRU \<Rightarrow> nat" where
  "lru_Len c = length (lru_evictList c)"

definition Resize :: "int \<Rightarrow> ('k, 'v) LRU \<Rightarrow> ('k, 'v) LRU \<times> int" where
  "Resize sz c =
     (let diff = max 0 (int (lru_Len c) - sz)
      in (((removeOldest ^^ nat diff) c)\<lparr>lru_size := sz\<rparr>, diff))"

subsection \<open>Specification\<close>

text \<open>The entries, the most recently used first.\<close>

definition lru_entries :: "('k, 'v) LRU \<Rightarrow> ('k \<times> 'v) list" where
  "lru_entries c = map (\<lambda>x. lru_heap c ! x) (lru_evictList c)"

definition lru_inv :: "('k, 'v) LRU \<Rightarrow> bool" where
  "lru_inv c =
     (distinct (lru_evictList c) \<and> distinct (map fst (lru_entries c)) \<and> mwf (lru_items c) \<and>
      (\<forall>e \<in> set (lru_evictList c). e < length (lru_heap c)) \<and>
      (\<forall>k e. mget (lru_items c) k = Some e \<longleftrightarrow> e \<in> set (lru_evictList c) \<and> fst (lru_heap c ! e) = k))"

definition drop_key :: "'k \<Rightarrow> ('k \<times> 'v) list \<Rightarrow> ('k \<times> 'v) list" where
  "drop_key k xs = filter (\<lambda>p. fst p \<noteq> k) xs"

definition spec_add :: "int \<Rightarrow> 'k \<Rightarrow> 'v \<Rightarrow> ('k \<times> 'v) list \<Rightarrow> ('k \<times> 'v) list" where
  "spec_add sz k v xs =
     (let ys = (k, v) # drop_key k xs
      in if map_of xs k = None \<and> int (length ys) > sz then butlast ys else ys)"

definition spec_get :: "'k \<Rightarrow> ('k \<times> 'v) list \<Rightarrow> ('k \<times> 'v) list" where
  "spec_get k xs = (case map_of xs k of None \<Rightarrow> xs | Some v \<Rightarrow> (k, v) # drop_key k xs)"

subsection \<open>Lemmas\<close>

lemma lru_inv_item:
  assumes "lru_inv c" and "mget (lru_items c) k = Some e"
  shows "e \<in> set (lru_evictList c)" "fst (lru_heap c ! e) = k" "e < length (lru_heap c)"
  using assms by (auto simp: lru_inv_def)

lemma lru_key_inj:
  "lru_inv c \<Longrightarrow> e \<in> set (lru_evictList c) \<Longrightarrow> e' \<in> set (lru_evictList c) \<Longrightarrow>
     fst (lru_heap c ! e) = fst (lru_heap c ! e') \<Longrightarrow> e = e'"
  by (auto simp: lru_inv_def lru_entries_def distinct_map inj_on_def)

lemma lru_map_of:
  assumes "lru_inv c"
  shows "map_of (lru_entries c) k = Peek k c"
proof (cases "mget (lru_items c) k")
  case None
  then have "k \<notin> fst ` set (lru_entries c)" using assms by (auto simp: lru_inv_def lru_entries_def) (metis option.distinct(1))
  with None show ?thesis by (simp add: Peek_def map_of_eq_None_iff)
next
  case (Some e)
  have "(k, snd (lru_heap c ! e)) \<in> set (lru_entries c)"
    using lru_inv_item[OF assms Some] by (force simp: lru_entries_def)
  moreover have "distinct (map fst (lru_entries c))" using assms by (simp add: lru_inv_def)
  ultimately show ?thesis using Some by (simp add: Peek_def)
qed

lemma drop_key_entries:
  assumes "lru_inv c" and "e \<in> set (lru_evictList c)" and "fst (lru_heap c ! e) = k"
  shows "drop_key k (lru_entries c) = map (\<lambda>x. lru_heap c ! x) (removeAll e (lru_evictList c))"
proof -
  have "filter (\<lambda>x. fst (lru_heap c ! x) \<noteq> k) (lru_evictList c) = filter (\<lambda>x. e \<noteq> x) (lru_evictList c)"
    using lru_key_inj[OF assms(1)] assms(2,3) by (intro filter_cong) auto
  then show ?thesis
    by (simp add: drop_key_def lru_entries_def filter_map comp_def removeAll_filter_not_eq)
qed

lemma removeElement_props:
  assumes "lru_inv c" and "e \<in> set (lru_evictList c)"
  shows "lru_inv (removeElement e c)" "lru_entries (removeElement e c) = drop_key (fst (lru_heap c ! e)) (lru_entries c)"
    "lru_size (removeElement e c) = lru_size c" "lru_log (removeElement e c) = lru_log c @ [lru_heap c ! e]"
proof -
  show ent: "lru_entries (removeElement e c) = drop_key (fst (lru_heap c ! e)) (lru_entries c)"
    using drop_key_entries[OF assms refl] by (simp add: lru_entries_def removeElement_def Let_def)
  show "lru_size (removeElement e c) = lru_size c" "lru_log (removeElement e c) = lru_log c @ [lru_heap c ! e]"
    by (simp_all add: removeElement_def Let_def)
  have "distinct (map fst (lru_entries (removeElement e c)))"
    using assms(1) by (simp add: ent drop_key_def lru_inv_def distinct_map_filter)
  moreover have "mget (mdel (fst (lru_heap c ! e)) (lru_items c)) k = Some e' \<longleftrightarrow>
      e' \<in> set (lru_evictList c) - {e} \<and> fst (lru_heap c ! e') = k" for k e'
    using assms lru_key_inj[OF assms(1)] by (auto simp: lru_inv_def)
  ultimately show "lru_inv (removeElement e c)"
    using assms(1) by (auto simp: lru_inv_def removeElement_def Let_def distinct_removeAll)
qed

lemma drop_key_last:
  assumes "distinct (map fst xs)" "xs \<noteq> []"
  shows "drop_key (fst (last xs)) xs = butlast xs"
proof -
  obtain ys y where xs: "xs = ys @ [y]" using assms(2) by (cases xs rule: rev_cases) auto
  have "\<forall>p \<in> set ys. fst p \<noteq> fst y" using assms(1) by (simp add: xs) (metis image_eqI)
  then show ?thesis by (simp add: xs drop_key_def filter_id_conv)
qed

lemma removeOldest_props:
  assumes "lru_inv c"
  shows "lru_inv (removeOldest c)" "lru_entries (removeOldest c) = butlast (lru_entries c)"
    "lru_size (removeOldest c) = lru_size c"
proof -
  show "lru_inv (removeOldest c)" "lru_size (removeOldest c) = lru_size c"
    using assms removeElement_props[of c "last (lru_evictList c)"] by (simp_all add: removeOldest_def)
  show "lru_entries (removeOldest c) = butlast (lru_entries c)"
  proof (cases "lru_evictList c = []")
    case True
    then show ?thesis by (simp add: removeOldest_def lru_entries_def)
  next
    case False
    then have "last (lru_entries c) = lru_heap c ! (last (lru_evictList c))"
      by (simp add: lru_entries_def last_map)
    with False assms show ?thesis
      using removeElement_props(2)[OF assms, of "last (lru_evictList c)"]
        drop_key_last[of "lru_entries c"]
      by (simp add: removeOldest_def lru_inv_def) (simp add: lru_entries_def)
  qed
qed

lemma MoveToFront_props:
  assumes "lru_inv c" and "mget (lru_items c) k = Some e"
    and "c' = c\<lparr>lru_evictList := MoveToFront e (lru_evictList c), lru_heap := (lru_heap c)[e := (k, v)]\<rparr>"
  shows "lru_inv c'" "lru_entries c' = (k, v) # drop_key k (lru_entries c)"
proof -
  note e = lru_inv_item[OF assms(1,2)]
  have other: "(lru_heap c)[e := (k, v)] ! x = lru_heap c ! x" if "x \<noteq> e" for x using that by simp
  have "map (\<lambda>x. (lru_heap c)[e := (k, v)] ! x) (removeAll e (lru_evictList c)) =
      map (\<lambda>x. lru_heap c ! x) (removeAll e (lru_evictList c))"
    using other by (intro map_cong) auto
  then show ent: "lru_entries c' = (k, v) # drop_key k (lru_entries c)"
    using e drop_key_entries[OF assms(1) e(1,2)]
    by (simp add: assms(3) lru_entries_def MoveToFront_def)
  have "distinct (map fst (lru_entries c'))"
    using assms(1) by (auto simp: ent drop_key_def lru_inv_def distinct_map_filter)
  moreover have keys: "fst ((lru_heap c)[e := (k, v)] ! x) = fst (lru_heap c ! x)" for x
    using e by (cases "x = e") simp_all
  ultimately show "lru_inv c'"
    using assms(1) e by (auto simp: lru_inv_def assms(3) MoveToFront_def distinct_removeAll)
qed

lemma Get_as_update:
  assumes "lru_inv c" and "mget (lru_items c) k = Some e"
  shows "(lru_heap c)[e := (k, snd (lru_heap c ! e))] = lru_heap c"
  using lru_inv_item[OF assms] by (metis list_update_id prod.collapse)

lemma Add_new_props:
  assumes "lru_inv c" and "mget (lru_items c) k = None"
    and "c' = c\<lparr>lru_evictList := length (lru_heap c) # lru_evictList c, lru_heap := lru_heap c @ [(k, v)],
           lru_items := mset k (length (lru_heap c)) (lru_items c)\<rparr>"
  shows "lru_inv c'" "lru_entries c' = (k, v) # lru_entries c" "drop_key k (lru_entries c) = lru_entries c"
proof -
  have old: "e < length (lru_heap c)" if "e \<in> set (lru_evictList c)" for e using assms(1) that by (auto simp: lru_inv_def)
  show ent: "lru_entries c' = (k, v) # lru_entries c"
    using old by (auto simp: assms(3) lru_entries_def nth_append)
  have k: "k \<notin> fst ` set (lru_entries c)"
    using lru_map_of[OF assms(1), of k] assms(2) by (simp add: Peek_def map_of_eq_None_iff)
  then show "drop_key k (lru_entries c) = lru_entries c"
    by (auto simp: drop_key_def filter_id_conv)
  have "distinct (map fst (lru_entries c'))" using k assms(1) by (simp add: ent lru_inv_def)
  moreover have "mget (lru_items c') q = Some e \<longleftrightarrow> e \<in> set (lru_evictList c') \<and> fst (lru_heap c' ! e) = q" for q e
  proof -
    have it: "mget (lru_items c) q = Some e \<longleftrightarrow> e \<in> set (lru_evictList c) \<and> fst (lru_heap c ! e) = q" for q e
      using assms(1) by (simp add: lru_inv_def)
    show ?thesis
    proof (cases "e = length (lru_heap c)")
      case True
      with it[of q e] old[of e] show ?thesis by (auto simp: assms(3))
    next
      case False
      with it[of q e] it[of k e] old[of e] assms(2) show ?thesis by (auto simp: assms(3) nth_append)
    qed
  qed
  moreover have "length (lru_heap c) \<notin> set (lru_evictList c)" using old by blast
  moreover have "distinct (lru_evictList c)" "mwf (lru_items c)" using assms(1) by (simp_all add: lru_inv_def)
  ultimately show "lru_inv c'" using old by (auto simp: lru_inv_def assms(3) less_Suc_eq)
qed

lemma Add_props:
  assumes "lru_inv c"
  shows "lru_inv (fst (Add k v c))" "lru_entries (fst (Add k v c)) = spec_add (lru_size c) k v (lru_entries c)"
    "lru_size (fst (Add k v c)) = lru_size c"
proof -
  have "lru_inv (fst (Add k v c)) \<and> lru_entries (fst (Add k v c)) = spec_add (lru_size c) k v (lru_entries c) \<and>
      lru_size (fst (Add k v c)) = lru_size c"
  proof (cases "mget (lru_items c) k")
    case (Some e)
    have "fst (lru_heap c ! e) = k" using lru_inv_item[OF assms Some] by simp
    with Some MoveToFront_props[OF assms Some refl, of v] lru_map_of[OF assms, of k] show ?thesis
      by (simp add: Add_def spec_add_def Peek_def)
  next
    case None
    let ?c = "c\<lparr>lru_evictList := length (lru_heap c) # lru_evictList c, lru_heap := lru_heap c @ [(k, v)],
           lru_items := mset k (length (lru_heap c)) (lru_items c)\<rparr>"
    note n = Add_new_props(1,2)[OF assms None refl, of v] Add_new_props(3)[OF assms None refl]
    have "length (lru_entries c) = length (lru_evictList c)" by (simp add: lru_entries_def)
    moreover have "map_of (lru_entries c) k = None" using None lru_map_of[OF assms] by (simp add: Peek_def)
    ultimately show ?thesis
      using None n removeOldest_props[OF n(1)] by (simp add: Add_def spec_add_def Let_def)
  qed
  then show "lru_inv (fst (Add k v c))" "lru_entries (fst (Add k v c)) = spec_add (lru_size c) k v (lru_entries c)"
    "lru_size (fst (Add k v c)) = lru_size c" by auto
qed

lemma Get_props:
  assumes "lru_inv c"
  shows "lru_inv (fst (Get k c))" "lru_entries (fst (Get k c)) = spec_get k (lru_entries c)"
    "snd (Get k c) = map_of (lru_entries c) k" "lru_size (fst (Get k c)) = lru_size c"
proof -
  have "lru_inv (fst (Get k c)) \<and> lru_entries (fst (Get k c)) = spec_get k (lru_entries c)"
  proof (cases "mget (lru_items c) k")
    case None
    with assms lru_map_of[OF assms, of k] show ?thesis by (simp add: Get_def spec_get_def Peek_def)
  next
    case (Some e)
    note m = MoveToFront_props[OF assms Some refl, of "snd (lru_heap c ! e)"]
    have "c\<lparr>lru_evictList := MoveToFront e (lru_evictList c),
        lru_heap := (lru_heap c)[e := (k, snd (lru_heap c ! e))]\<rparr> =
        c\<lparr>lru_evictList := MoveToFront e (lru_evictList c)\<rparr>"
      by (simp add: Get_as_update[OF assms Some])
    with m Some lru_map_of[OF assms, of k] show ?thesis by (simp add: Get_def spec_get_def Peek_def)
  qed
  then show "lru_inv (fst (Get k c))" "lru_entries (fst (Get k c)) = spec_get k (lru_entries c)" by auto
  show "snd (Get k c) = map_of (lru_entries c) k"
    by (simp add: lru_map_of[OF assms] Get_def Peek_def split: option.splits)
  show "lru_size (fst (Get k c)) = lru_size c" by (simp add: Get_def split: option.splits)
qed

subsection \<open>Sequences of operations\<close>

datatype ('k, 'v) lru_op = OpAdd 'k 'v | OpGet 'k | OpRemove 'k | OpRemoveOldest | OpPurge | OpResize int

fun lru_apply :: "('k, 'v) lru_op \<Rightarrow> ('k, 'v) LRU \<Rightarrow> ('k, 'v) LRU" where
  "lru_apply (OpAdd k v) c = fst (Add k v c)"
| "lru_apply (OpGet k) c = fst (Get k c)"
| "lru_apply (OpRemove k) c = fst (lru_Remove k c)"
| "lru_apply OpRemoveOldest c = fst (lru_RemoveOldest c)"
| "lru_apply OpPurge c = Purge c"
| "lru_apply (OpResize n) c = fst (Resize n c)"

fun spec_apply :: "('k, 'v) lru_op \<Rightarrow> int \<times> ('k \<times> 'v) list \<Rightarrow> int \<times> ('k \<times> 'v) list" where
  "spec_apply (OpAdd k v) (n, xs) = (n, spec_add n k v xs)"
| "spec_apply (OpGet k) (n, xs) = (n, spec_get k xs)"
| "spec_apply (OpRemove k) (n, xs) = (n, drop_key k xs)"
| "spec_apply OpRemoveOldest (n, xs) = (n, butlast xs)"
| "spec_apply OpPurge (n, xs) = (n, [])"
| "spec_apply (OpResize m) (n, xs) = (m, take (nat m) xs)"

lemma removeOldest_iter:
  assumes "lru_inv c"
  shows "lru_inv ((removeOldest ^^ n) c) \<and>
     lru_entries ((removeOldest ^^ n) c) = take (length (lru_entries c) - n) (lru_entries c)"
proof (induction n)
  case (Suc n)
  then show ?case using removeOldest_props[of "(removeOldest ^^ n) c"]
    by (simp add: butlast_take)
qed (simp add: assms)

lemma lru_apply_refines:
  assumes "lru_inv c"
  shows "lru_inv (lru_apply op c) \<and>
     (lru_size (lru_apply op c), lru_entries (lru_apply op c)) = spec_apply op (lru_size c, lru_entries c)"
proof (cases op)
  case (OpRemove k)
  show ?thesis
  proof (cases "mget (lru_items c) k")
    case None
    then have "k \<notin> fst ` set (lru_entries c)"
      using lru_map_of[OF assms, of k] by (simp add: Peek_def map_of_eq_None_iff)
    then have "drop_key k (lru_entries c) = lru_entries c" by (auto simp: drop_key_def filter_id_conv)
    with None assms OpRemove show ?thesis by (simp add: lru_Remove_def)
  next
    case (Some e)
    note e = lru_inv_item[OF assms Some]
    from removeElement_props[OF assms e(1)] e Some OpRemove show ?thesis by (simp add: lru_Remove_def)
  qed
next
  case OpRemoveOldest
  have "fst (lru_RemoveOldest c) = removeOldest c" by (simp add: lru_RemoveOldest_def removeOldest_def)
  with OpRemoveOldest removeOldest_props[OF assms] show ?thesis by simp
next
  case OpPurge
  then show ?thesis by (simp add: Purge_def lru_inv_def lru_entries_def)
next
  case (OpResize m)
  have "lru_inv c' \<Longrightarrow> lru_inv (c'\<lparr>lru_size := m\<rparr>) \<and> lru_entries (c'\<lparr>lru_size := m\<rparr>) = lru_entries c'"
    for c' :: "('a, 'b) LRU" by (simp add: lru_inv_def lru_entries_def)
  moreover have "length (lru_entries c) = lru_Len c" by (simp add: lru_entries_def lru_Len_def)
  moreover have "take (lru_Len c - nat (max 0 (int (lru_Len c) - m))) (lru_entries c) = take (nat m) (lru_entries c)"
  proof -
    have "lru_Len c - nat (max 0 (int (lru_Len c) - m)) = min (lru_Len c) (nat m)" by linarith
    then show ?thesis using calculation(2) by (simp add: min_def)
  qed
  ultimately show ?thesis
    using OpResize removeOldest_iter[OF assms, of "nat (max 0 (int (lru_Len c) - m))"]
    by (simp add: Resize_def Let_def)
qed (use assms Add_props Get_props in auto)

lemma lru_run_refines:
  "lru_inv c \<Longrightarrow> lru_inv (fold lru_apply ops c) \<and>
     (lru_size (fold lru_apply ops c), lru_entries (fold lru_apply ops c)) =
       fold spec_apply ops (lru_size c, lru_entries c)"
proof (induction ops arbitrary: c)
  case (Cons op ops)
  then show ?case using lru_apply_refines[OF Cons.prems, of op] by auto
qed simp

lemma spec_apply_bound:
  assumes "int (length xs) \<le> n" "\<forall>m. op = OpResize m \<longrightarrow> 0 \<le> m"
  shows "int (length (snd (spec_apply op (n, xs)))) \<le> fst (spec_apply op (n, xs))"
proof (cases op)
  case (OpAdd k v)
  have len: "length (drop_key k xs) \<le> length xs" by (simp add: drop_key_def)
  have less: "length (drop_key k xs) < length xs" if "map_of xs k = Some w" for w
    using map_of_SomeD[OF that] length_filter_less[of "(k, w)" xs "\<lambda>p. fst p \<noteq> k"] by (simp add: drop_key_def)
  show ?thesis
    using OpAdd assms(1) len less by (cases "map_of xs k") (fastforce simp: spec_add_def Let_def)+
next
  case (OpGet k)
  have "length (drop_key k xs) < length xs" if "map_of xs k = Some w" for w
    using map_of_SomeD[OF that] length_filter_less[of "(k, w)" xs "\<lambda>p. fst p \<noteq> k"] by (simp add: drop_key_def)
  then show ?thesis using OpGet assms(1) by (cases "map_of xs k") (fastforce simp: spec_get_def)+
next
  case (OpRemove k)
  have "length (drop_key k xs) \<le> length xs" by (simp add: drop_key_def)
  with OpRemove assms(1) show ?thesis by simp
qed (use assms in auto)

lemma spec_run_bound:
  "int (length xs) \<le> n \<Longrightarrow> \<forall>m. OpResize m \<in> set ops \<longrightarrow> 0 \<le> m \<Longrightarrow>
     int (length (snd (fold spec_apply ops (n, xs)))) \<le> fst (fold spec_apply ops (n, xs))"
proof (induction ops arbitrary: n xs)
  case (Cons op ops)
  obtain n' xs' where s: "spec_apply op (n, xs) = (n', xs')" by fastforce
  with spec_apply_bound[OF Cons.prems(1), of op] Cons.prems(2) have "int (length xs') \<le> n'" by auto
  with Cons s show ?case by simp
qed simp

lemma NewLRU_inv: "lru_inv (NewLRU n)"
  by (simp add: NewLRU_def lru_inv_def lru_entries_def)

subsection \<open>Properties\<close>


text \<open>The cache never holds more entries than its capacity, as long as it is not resized to a
  negative capacity.\<close>

theorem lru_bounded:
  assumes "\<forall>m. OpResize m \<in> set ops \<longrightarrow> 0 \<le> m"
  shows "int (lru_Len (fold lru_apply ops (NewLRU n))) \<le> lru_size (fold lru_apply ops (NewLRU n))"
proof -
  let ?c = "fold lru_apply ops (NewLRU n)"
  have "(lru_size ?c, lru_entries ?c) = fold spec_apply ops (lru_size (NewLRU n), [])"
    using lru_run_refines[OF NewLRU_inv, of ops n] by (simp add: NewLRU_def lru_entries_def)
  moreover have "int (length ([] :: ('a \<times> 'b) list)) \<le> lru_size (NewLRU n :: ('a, 'b) LRU)"
    by (simp add: NewLRU_def)
  ultimately have "int (length (lru_entries ?c)) \<le> lru_size ?c"
    using spec_run_bound[OF _ assms] by (metis fst_conv snd_conv)
  then show ?thesis by (simp add: lru_Len_def lru_entries_def)
qed

theorem lru_bounded_witness:
  "int (lru_Len (fold lru_apply [OpAdd ''a'' (1::nat), OpAdd ''b'' 2, OpResize 1] (NewLRU 2))) \<le>
     lru_size (fold lru_apply [OpAdd ''a'' (1::nat), OpAdd ''b'' 2, OpResize 1] (NewLRU 2))"
  using lru_bounded[of "[OpAdd ''a'' (1::nat), OpAdd ''b'' 2, OpResize 1]" 2] by auto

end
