(* ===== verification/Rolling_Stats.thy ===== *)
theory Rolling_Stats
  imports Complex_Main Formicary_Prelude
begin

text \<open>
  Rolling averages (\<open>internal/math/rolling_average.go\<close>, \<open>rolling_min_max.go\<close>) and the helpers of
  \<open>internal/math/math.go\<close>: a ring buffer of the last samples with a running total of 64 bits.  The
  result of \<open>Average\<close> is a rational number; the rounding of \<open>float64\<close> is not modelled.  Adding to a
  buffer without capacity indexes an empty slice, which panics (None).
\<close>

definition Min :: "int \<Rightarrow> int \<Rightarrow> int" where
  "Min a b = (if a \<le> b then a else b)"

definition Max :: "int \<Rightarrow> int \<Rightarrow> int" where
  "Max a b = (if a \<ge> b then a else b)"

definition Min64 :: "int \<Rightarrow> int \<Rightarrow> int" where
  "Min64 a b = (if a \<le> b then a else b)"

definition Max64 :: "int \<Rightarrow> int \<Rightarrow> int" where
  "Max64 a b = (if a \<ge> b then a else b)"

record RollingAverage =
  ra_samples :: "int list"
  ra_total :: int
  ra_index :: nat
  ra_length :: nat

definition NewRollingAverage :: "nat \<Rightarrow> RollingAverage" where
  "NewRollingAverage capacity =
     \<lparr>ra_samples = replicate capacity 0, ra_total = 0, ra_index = 0, ra_length = 0\<rparr>"

definition ra_Add :: "RollingAverage \<Rightarrow> int \<Rightarrow> RollingAverage option" where
  "ra_Add r x =
     (if x \<le> 0 then Some r
      else if ra_index r \<ge> length (ra_samples r) then None
      else
        (let len = (if ra_length r < length (ra_samples r) then ra_length r + 1 else ra_length r);
             t1 = i64 (ra_total r + i64 (- (ra_samples r ! ra_index r)));
             samples = (ra_samples r)[ra_index r := x];
             t2 = i64 (t1 + x);
             next = ra_index r + 1
         in Some \<lparr>ra_samples = samples, ra_total = t2,
                  ra_index = (if next \<ge> length samples then 0 else next), ra_length = len\<rparr>))"

definition Average :: "RollingAverage \<Rightarrow> rat" where
  "Average r =
     of_int (ra_total r) / of_int (Max 1 (Min (int (length (ra_samples r))) (int (ra_length r))))"

record RollingMinMax =
  mm_average :: RollingAverage
  mm_Min :: int
  mm_Max :: int

definition NewRollingMinMax :: "nat \<Rightarrow> RollingMinMax" where
  "NewRollingMinMax capacity =
     \<lparr>mm_average = NewRollingAverage capacity, mm_Min = 2 ^ 63 - 1, mm_Max = 0\<rparr>"

definition mm_Add :: "RollingMinMax \<Rightarrow> int \<Rightarrow> RollingMinMax option" where
  "mm_Add r x =
     map_option (\<lambda>a. \<lparr>mm_average = a, mm_Min = Min64 (mm_Min r) x, mm_Max = Max64 (mm_Max r) x\<rparr>)
       (ra_Add (mm_average r) x)"

fun ra_adds :: "int list \<Rightarrow> RollingAverage \<Rightarrow> RollingAverage option" where
  "ra_adds [] r = Some r"
| "ra_adds (x # xs) r = (case ra_Add r x of None \<Rightarrow> None | Some r' \<Rightarrow> ra_adds xs r')"

subsection \<open>The window of samples\<close>

definition window :: "nat \<Rightarrow> 'a list \<Rightarrow> 'a list" where
  "window n xs = drop (length xs - n) xs"

definition ring :: "RollingAverage \<Rightarrow> int list" where
  "ring r = drop (ra_index r) (ra_samples r) @ take (ra_index r) (ra_samples r)"

text \<open>Read from the index on, the buffer is the window of the samples so far, after zeros.\<close>

definition ra_inv :: "nat \<Rightarrow> int list \<Rightarrow> RollingAverage \<Rightarrow> bool" where
  "ra_inv n ys r =
     (length (ra_samples r) = n \<and> ra_index r < n \<and> ra_length r = length (window n ys) \<and>
      ring r = replicate (n - length (window n ys)) 0 @ window n ys \<and>
      ra_total r = i64 (sum_list (window n ys)))"

lemma length_window: "length (window n xs) = min n (length xs)"
  by (simp add: window_def)

lemma window_snoc:
  "0 < n \<Longrightarrow> window n (xs @ [x]) = (if length xs < n then window n xs else tl (window n xs)) @ [x]"
  by (auto simp: window_def Suc_diff_le drop_Suc tl_drop)

lemma i64_add_left: "i64 (i64 a + b) = i64 (a + b)"
proof -
  have "i64 (i64 a + b) = ((a + 2 ^ 63) mod 2 ^ 64 + b) mod 2 ^ 64 - 2 ^ 63" by (simp add: i64_def)
  also have "\<dots> = (a + 2 ^ 63 + b) mod 2 ^ 64 - 2 ^ 63" by (simp only: mod_add_left_eq)
  also have "\<dots> = i64 (a + b)" by (simp add: i64_def algebra_simps)
  finally show ?thesis .
qed

lemma i64_add_right: "i64 (a + i64 b) = i64 (a + b)"
  using i64_add_left[of b a] by (simp add: add.commute)

lemma ring_step:
  assumes "ra_index r < length (ra_samples r)"
  shows "drop (Suc (ra_index r)) (ra_samples r) @ take (ra_index r) (ra_samples r) = tl (ring r)"
    "hd (ring r) = ra_samples r ! ra_index r"
  using assms by (simp_all add: ring_def drop_Suc tl_drop hd_append hd_drop_conv_nth)

lemma ra_Add_inv:
  assumes "ra_inv n ys r"
  shows "\<exists>r'. ra_Add r x = Some r' \<and> ra_inv n (if x > 0 then ys @ [x] else ys) r'"
proof (cases "x > 0")
  case False
  with assms show ?thesis by (simp add: ra_Add_def)
next
  case True
  have i: "length (ra_samples r) = n" "ra_index r < n" "ra_length r = length (window n ys)"
    "ring r = replicate (n - length (window n ys)) 0 @ window n ys" "ra_total r = i64 (sum_list (window n ys))"
    using assms by (auto simp: ra_inv_def)
  let ?old = "ra_samples r ! ra_index r" and ?k = "length (window n ys)"
  let ?s = "(ra_samples r)[ra_index r := x]"
  let ?ix = "if ra_index r + 1 \<ge> n then 0 else ra_index r + 1"
  let ?r = "\<lparr>ra_samples = ?s, ra_total = i64 (i64 (ra_total r + i64 (- ?old)) + x), ra_index = ?ix,
     ra_length = (if ?k < n then ?k + 1 else ?k)\<rparr>"
  have add: "ra_Add r x = Some ?r" using True i by (simp add: ra_Add_def Let_def)
  have step: "drop ?ix ?s @ take ?ix ?s = drop (Suc (ra_index r)) (ra_samples r) @ take (ra_index r) (ra_samples r) @ [x]"
  proof (cases "ra_index r + 1 \<ge> n")
    case True
    then have "Suc (ra_index r) = length (ra_samples r)" using i by simp
    with True i show ?thesis
      by (simp add: list_update_append take_Suc_conv_app_nth upd_conv_take_nth_drop)
  next
    case False
    with i show ?thesis by (simp add: take_Suc_conv_app_nth drop_update_cancel)
  qed
  have "ring ?r = drop ?ix ?s @ take ?ix ?s" by (simp add: ring_def)
  also note step
  also have "drop (Suc (ra_index r)) (ra_samples r) @ take (ra_index r) (ra_samples r) @ [x] = tl (ring r) @ [x]"
    using ring_step(1)[of r] i(1,2) by (metis append_assoc)
  finally have ring: "ring ?r = tl (ring r) @ [x]" .
  have old: "?old = hd (ring r)" using ring_step(2)[of r] i by simp
  have n: "0 < n" using i by simp
  have total: "i64 (i64 (ra_total r + i64 (- ?old)) + x) = i64 (sum_list (window n (ys @ [x])))"
  proof -
    have sum: "sum_list (window n (ys @ [x])) = sum_list (window n ys) - ?old + x"
    proof (cases "length ys < n")
      case True
      then have "?old = 0" using i by (simp add: old length_window hd_append)
      with True n show ?thesis by (simp add: window_snoc)
    next
      case False
      then have "ring r = window n ys" "window n ys \<noteq> []" using i n length_window[of n ys] by auto
      then have "sum_list (window n ys) = ?old + sum_list (tl (window n ys))"
        by (simp add: old) (metis list.collapse sum_list.Cons)
      with False n show ?thesis by (simp add: window_snoc)
    qed
    show ?thesis
      unfolding sum using i64_add_left[of "sum_list (window n ys)" "x - ?old"]
      by (simp add: i64_add_left i64_add_right i(5) algebra_simps)
  qed
  have "tl (ring r) @ [x] = replicate (n - length (window n (ys @ [x]))) 0 @ window n (ys @ [x])"
  proof (cases "length ys < n")
    case True
    then have "replicate (n - length ys) (0 :: int) = 0 # replicate (n - Suc (length ys)) 0"
      by (metis Suc_diff_Suc replicate_Suc)
    with True n i(4) show ?thesis by (simp add: window_snoc length_window)
  next
    case False
    with n i(4) show ?thesis by (simp add: window_snoc length_window)
  qed
  then have "ring ?r = replicate (n - length (window n (ys @ [x]))) 0 @ window n (ys @ [x])"
    by (simp only: ring)
  moreover have "length ?s = n" "?ix < n" "(if ?k < n then ?k + 1 else ?k) = length (window n (ys @ [x]))"
    using i n by (simp_all add: length_window)
  ultimately have "ra_inv n (ys @ [x]) ?r"
    using total by (simp only: ra_inv_def RollingAverage.simps)
  with add True show ?thesis by auto
qed

lemma ra_adds_inv:
  "ra_inv n ys r \<Longrightarrow> \<exists>r'. ra_adds xs r = Some r' \<and> ra_inv n (ys @ filter (\<lambda>x. x > 0) xs) r'"
proof (induction xs arbitrary: ys r)
  case (Cons x xs)
  from ra_Add_inv[OF Cons.prems, of x] obtain r1 where
    r1: "ra_Add r x = Some r1" "ra_inv n (if x > 0 then ys @ [x] else ys) r1" by blast
  from Cons.IH[OF r1(2)] r1(1) show ?case by (cases "x > 0") auto
qed simp

lemma NewRollingAverage_inv: "0 < n \<Longrightarrow> ra_inv n [] (NewRollingAverage n)"
  by (simp add: ra_inv_def NewRollingAverage_def window_def ring_def i64_def)

subsection \<open>Properties\<close>

text \<open>C38: A rolling average of positive capacity n that was fed any samples reports the average of
  the last n positive ones, provided their sum fits in 64 bits, and 0 when there was none; adding
  never panics.\<close>

theorem rolling_average_window:
  assumes "0 < n" and "w = window n (filter (\<lambda>x. x > 0) xs)" and "in_i64 (sum_list w)"
  shows "\<exists>r. ra_adds xs (NewRollingAverage n) = Some r \<and>
     Average r = (if w = [] then 0 else of_int (sum_list w) / of_nat (length w))"
proof -
  from ra_adds_inv[OF NewRollingAverage_inv[OF assms(1)], of xs] obtain r where
    r: "ra_adds xs (NewRollingAverage n) = Some r" "ra_inv n (filter (\<lambda>x. x > 0) xs) r" by auto
  have "ra_total r = sum_list w" "length (ra_samples r) = n" "ra_length r = length w"
    using r(2) assms by (simp_all add: ra_inv_def)
  moreover have "length w \<le> n" by (simp add: assms(2) length_window)
  moreover have "Max 1 (Min (int n) (int (length w))) = (if w = [] then 1 else int (length w))"
  proof -
    have "Min (int n) (int (length w)) = int (length w)"
      using \<open>length w \<le> n\<close> by (simp add: Min_def)
    then show ?thesis by (cases w) (auto simp: Max_def)
  qed
  ultimately have "Average r = (if w = [] then 0 else of_int (sum_list w) / of_nat (length w))"
    by (simp add: Average_def)
  with r(1) show ?thesis by blast
qed

theorem rolling_average_window_witness:
  "\<exists>r. ra_adds [5, -3, 10, 20] (NewRollingAverage 2) = Some r \<and> Average r = 15"
  using rolling_average_window[of 2 "[10, 20]" "[5, -3, 10, 20]"]
  by (simp add: window_def in_i64_def)

end
