(* ===== verification/Job_Stats.thy ===== *)
theory Job_Stats
  imports Rolling_Stats Job_Request User_Context "HOL-Library.Word" "HOL-Library.Signed_Division"
begin

text \<open>
  The registry of job statistics (\<open>queen/stats/job_stats.go\<close>, \<open>job_stats_registry.go\<close>): counters and
  latencies per job type, the requests that run per user and organization, and the requests that
  wait.  Counters keep their width.  The pointers of the registry are not shared, so the maps hold
  values.  A latency that cannot be added is None, the panic of \<open>RollingAverage.Add\<close>.  The backend
  that writes the statistics to a cache is left out.
\<close>

text \<open>What the registry sees of requests and executions (the interface \<open>IJobRequestSummary\<close>).\<close>

record JobSummary =
  sm_ID :: string
  sm_JobType :: string
  sm_JobVersion :: string
  sm_JobState :: RequestState
  sm_OrganizationID :: string
  sm_UserID :: string
  sm_JobPriority :: int
  sm_ScheduledAt :: int
  sm_CreatedAt :: int

definition sm_key :: "JobSummary \<Rightarrow> string" where
  "sm_key s = getUserJobTypeKey (sm_OrganizationID s) (sm_UserID s) (sm_JobType s) (sm_JobVersion s)"

definition exec_summary :: "JobExecution \<Rightarrow> JobSummary" where
  "exec_summary je =
     \<lparr>sm_ID = je_JobRequestID je, sm_JobType = je_JobType je, sm_JobVersion = je_JobVersion je,
      sm_JobState = je_JobState je, sm_OrganizationID = je_OrganizationID je, sm_UserID = je_UserID je,
      sm_JobPriority = -1, sm_ScheduledAt = je_StartedAt je, sm_CreatedAt = je_StartedAt je\<rparr>"

text \<open>The zero time lies before every other instant of the model.\<close>

definition zero_time :: int where
  "zero_time = - 62135596800 * Second"

definition request_summary :: "JobRequest \<Rightarrow> JobSummary" where
  "request_summary r =
     \<lparr>sm_ID = jr_ID r, sm_JobType = jr_JobType r, sm_JobVersion = jr_JobVersion r,
      sm_JobState = jr_JobState r, sm_OrganizationID = jr_OrganizationID r, sm_UserID = jr_UserID r,
      sm_JobPriority = jr_JobPriority r,
      sm_ScheduledAt = (case jr_ScheduledAt r of Some t \<Rightarrow> t | None \<Rightarrow> zero_time),
      sm_CreatedAt = jr_CreatedAt r\<rparr>"

subsection \<open>Statistics of a job type\<close>

record JobStats =
  js_JobKey :: JobSummary
  js_FirstJobAt :: "int option"
  js_LastJobAt :: "int option"
  js_SucceededJobsPercentages :: "64 word"
  js_SucceededJobs :: "64 word"
  js_SucceededJobsAverage :: rat
  js_SucceededJobsMin :: int
  js_SucceededJobsMax :: int
  js_PausedJobs :: "64 word"
  js_FailedJobs :: "64 word"
  js_FailedJobsAverage :: rat
  js_FailedJobsMin :: int
  js_FailedJobsMax :: int
  js_ExecutingJobs :: "32 word"
  js_AntsAvailable :: bool
  js_AntsCapacity :: int
  js_AntUnavailableError :: string
  js_JobDisabled :: bool
  js_succeededJobsMinMax :: RollingMinMax
  js_failedJobsMinMax :: RollingMinMax
  js_pausedJobsMinMax :: RollingMinMax

definition NewJobStats :: "JobSummary \<Rightarrow> JobStats" where
  "NewJobStats key =
     \<lparr>js_JobKey = key, js_FirstJobAt = None, js_LastJobAt = None, js_SucceededJobsPercentages = 0,
      js_SucceededJobs = 0, js_SucceededJobsAverage = 0, js_SucceededJobsMin = 0, js_SucceededJobsMax = 0,
      js_PausedJobs = 0, js_FailedJobs = 0, js_FailedJobsAverage = 0, js_FailedJobsMin = 0,
      js_FailedJobsMax = 0, js_ExecutingJobs = 0, js_AntsAvailable = False, js_AntsCapacity = 0,
      js_AntUnavailableError = [], js_JobDisabled = False,
      js_succeededJobsMinMax = NewRollingMinMax 20, js_failedJobsMinMax = NewRollingMinMax 20,
      js_pausedJobsMinMax = NewRollingMinMax 20\<rparr>"

definition js_Started :: "int \<Rightarrow> JobStats \<Rightarrow> JobStats" where
  "js_Started now j =
     j\<lparr>js_AntsAvailable := True, js_AntUnavailableError := [], js_ExecutingJobs := js_ExecutingJobs j + 1,
       js_LastJobAt := Some now,
       js_FirstJobAt := (if js_FirstJobAt j = None then Some now else js_FirstJobAt j)\<rparr>"

definition js_Cancelled :: "JobStats \<Rightarrow> JobStats" where
  "js_Cancelled j = j\<lparr>js_ExecutingJobs := js_ExecutingJobs j - 1\<rparr>"

definition js_Succeeded :: "int \<Rightarrow> JobStats \<Rightarrow> JobStats option" where
  "js_Succeeded latency j =
     map_option (\<lambda>m. j\<lparr>js_SucceededJobs := js_SucceededJobs j + 1, js_ExecutingJobs := js_ExecutingJobs j - 1,
                      js_succeededJobsMinMax := m\<rparr>)
       (mm_Add (js_succeededJobsMinMax j) latency)"

definition js_Failed :: "int \<Rightarrow> JobStats \<Rightarrow> JobStats option" where
  "js_Failed latency j =
     map_option (\<lambda>m. j\<lparr>js_FailedJobs := js_FailedJobs j + 1, js_ExecutingJobs := js_ExecutingJobs j - 1,
                      js_failedJobsMinMax := m\<rparr>)
       (mm_Add (js_failedJobsMinMax j) latency)"

definition js_Paused :: "int \<Rightarrow> JobStats \<Rightarrow> JobStats option" where
  "js_Paused latency j =
     map_option (\<lambda>m. j\<lparr>js_PausedJobs := js_PausedJobs j + 1, js_ExecutingJobs := js_ExecutingJobs j - 1,
                      js_pausedJobsMinMax := m\<rparr>)
       (mm_Add (js_pausedJobsMinMax j) latency)"

definition js_RevertedPending :: "JobStats \<Rightarrow> JobStats" where
  "js_RevertedPending j = j\<lparr>js_ExecutingJobs := js_ExecutingJobs j - 1\<rparr>"

definition js_Calculate :: "JobStats \<Rightarrow> JobStats" where
  "js_Calculate j =
     j\<lparr>js_SucceededJobsAverage := Average (mm_average (js_succeededJobsMinMax j)),
       js_SucceededJobsMin := mm_Min (js_succeededJobsMinMax j),
       js_SucceededJobsMax := mm_Max (js_succeededJobsMinMax j),
       js_FailedJobsAverage := Average (mm_average (js_failedJobsMinMax j)),
       js_FailedJobsMin := mm_Min (js_failedJobsMinMax j),
       js_FailedJobsMax := mm_Max (js_failedJobsMinMax j),
       js_SucceededJobsPercentages :=
         (if sint (js_SucceededJobs j + js_FailedJobs j) > 0
          then word_of_int (sint (js_SucceededJobs j * 100) sdiv sint (js_SucceededJobs j + js_FailedJobs j))
          else 0)\<rparr>"

subsection \<open>The registry\<close>

record JobStatsRegistry =
  rg_statsByJobType :: "(string, JobStats) gomap"
  rg_countByUser :: "(string, (string, bool) gomap) gomap"
  rg_countByOrg :: "(string, (string, bool) gomap) gomap"
  rg_pendingJobsByType :: "(string, (string, JobSummary) gomap) gomap"
  rg_lastJobStatus :: "(string, string \<times> RequestState) gomap"

definition newRegistry :: JobStatsRegistry where
  "newRegistry = \<lparr>rg_statsByJobType = [], rg_countByUser = [], rg_countByOrg = [], rg_pendingJobsByType = [],
     rg_lastJobStatus = []\<rparr>"

text \<open>Looking up a key that is missing gives a nil map, which reads as an empty one.\<close>

definition inner :: "('k, ('a, 'b) gomap) gomap \<Rightarrow> 'k \<Rightarrow> ('a, 'b) gomap" where
  "inner m k = (case mget m k of Some x \<Rightarrow> x | None \<Rightarrow> [])"

definition createOrFindStat :: "JobSummary \<Rightarrow> JobStatsRegistry \<Rightarrow> JobStats" where
  "createOrFindStat s r = (case mget (rg_statsByJobType r) (sm_key s) of Some j \<Rightarrow> j | None \<Rightarrow> NewJobStats s)"

definition put_stat :: "JobSummary \<Rightarrow> JobStats \<Rightarrow> JobStatsRegistry \<Rightarrow> JobStatsRegistry" where
  "put_stat s j r = r\<lparr>rg_statsByJobType := mset (sm_key s) j (rg_statsByJobType r)\<rparr>"

definition removePendingJob :: "JobSummary \<Rightarrow> JobStatsRegistry \<Rightarrow> JobStatsRegistry" where
  "removePendingJob s r =
     (case mget (rg_pendingJobsByType r) (sm_key s) of
        None \<Rightarrow> r
      | Some p \<Rightarrow> r\<lparr>rg_pendingJobsByType := mset (sm_key s) (mdel (sm_ID s) p) (rg_pendingJobsByType r)\<rparr>)"

definition decr_count ::
  "string \<Rightarrow> string \<Rightarrow> (string, (string, bool) gomap) gomap \<Rightarrow> (string, (string, bool) gomap) gomap" where
  "decr_count owner i m =
     (if owner \<noteq> [] \<and> inner m owner \<noteq> [] then mset owner (mdel i (inner m owner)) m else m)"

definition decrUserOrgCount :: "JobSummary \<Rightarrow> JobStatsRegistry \<Rightarrow> JobStatsRegistry" where
  "decrUserOrgCount s r =
     r\<lparr>rg_countByUser := decr_count (sm_UserID s) (sm_ID s) (rg_countByUser r),
       rg_countByOrg := decr_count (sm_OrganizationID s) (sm_ID s) (rg_countByOrg r)\<rparr>"

definition reg_Pending :: "JobSummary \<Rightarrow> bool \<Rightarrow> JobStatsRegistry \<Rightarrow> JobStatsRegistry" where
  "reg_Pending s reverted r =
     (let pendingJobs = mset (sm_ID s) s (inner (rg_pendingJobsByType r) (sm_key s));
          r = r\<lparr>rg_pendingJobsByType := mset (sm_key s) pendingJobs (rg_pendingJobsByType r)\<rparr>;
          r = decrUserOrgCount s r
      in if reverted then put_stat s (js_RevertedPending (createOrFindStat s r)) r else r)"

definition incr_count ::
  "string \<Rightarrow> string \<Rightarrow> (string, (string, bool) gomap) gomap \<Rightarrow> (string, (string, bool) gomap) gomap" where
  "incr_count owner i m = (if owner \<noteq> [] then mset owner (mset i True (inner m owner)) m else m)"

definition reg_Started :: "int \<Rightarrow> JobSummary \<Rightarrow> JobStatsRegistry \<Rightarrow> JobStatsRegistry" where
  "reg_Started now s r =
     (let r = removePendingJob s (put_stat s (js_Started now (createOrFindStat s r)) r)
      in r\<lparr>rg_countByUser := incr_count (sm_UserID s) (sm_ID s) (rg_countByUser r),
           rg_countByOrg := incr_count (sm_OrganizationID s) (sm_ID s) (rg_countByOrg r)\<rparr>)"

definition reg_Cancelled :: "JobSummary \<Rightarrow> JobStatsRegistry \<Rightarrow> JobStatsRegistry" where
  "reg_Cancelled s r =
     decrUserOrgCount s (removePendingJob s (put_stat s (js_Cancelled (createOrFindStat s r)) r))"

text \<open>\<open>Succeeded\<close>, \<open>Failed\<close> and \<open>Paused\<close> of the registry differ in the counter they call.\<close>

definition reg_ended ::
  "(JobStats \<Rightarrow> JobStats option) \<Rightarrow> JobSummary \<Rightarrow> JobStatsRegistry \<Rightarrow> JobStatsRegistry option" where
  "reg_ended count s r =
     map_option
       (\<lambda>j. let r = decrUserOrgCount s (removePendingJob s (put_stat s j r))
            in r\<lparr>rg_lastJobStatus := mset (sm_key s) (sm_ID s, sm_JobState s) (rg_lastJobStatus r)\<rparr>)
       (count (createOrFindStat s r))"

definition reg_Succeeded :: "JobSummary \<Rightarrow> int \<Rightarrow> JobStatsRegistry \<Rightarrow> JobStatsRegistry option" where
  "reg_Succeeded s latency = reg_ended (js_Succeeded latency) s"

definition reg_Failed :: "JobSummary \<Rightarrow> int \<Rightarrow> JobStatsRegistry \<Rightarrow> JobStatsRegistry option" where
  "reg_Failed s latency = reg_ended (js_Failed latency) s"

definition reg_Paused :: "JobSummary \<Rightarrow> int \<Rightarrow> JobStatsRegistry \<Rightarrow> JobStatsRegistry option" where
  "reg_Paused s latency = reg_ended (js_Paused latency) s"

definition UserOrgExecuting :: "JobSummary \<Rightarrow> JobStatsRegistry \<Rightarrow> nat \<times> nat" where
  "UserOrgExecuting s r =
     (length (inner (rg_countByUser r) (sm_UserID s)), length (inner (rg_countByOrg r) (sm_OrganizationID s)))"

definition LastJobStatus :: "JobSummary \<Rightarrow> JobStatsRegistry \<Rightarrow> RequestState" where
  "LastJobStatus s r = (case mget (rg_lastJobStatus r) (sm_key s) of None \<Rightarrow> UNKNOWN | Some (_, st) \<Rightarrow> st)"

definition SetAntsAvailable :: "JobSummary \<Rightarrow> bool \<Rightarrow> string \<Rightarrow> JobStatsRegistry \<Rightarrow> JobStatsRegistry" where
  "SetAntsAvailable s available unavailableError r =
     put_stat s ((createOrFindStat s r)\<lparr>js_AntsAvailable := available, js_AntUnavailableError := unavailableError\<rparr>) r"

definition SetDisabled :: "JobSummary \<Rightarrow> bool \<Rightarrow> JobStatsRegistry \<Rightarrow> JobStatsRegistry" where
  "SetDisabled s disabled r = put_stat s ((createOrFindStat s r)\<lparr>js_JobDisabled := disabled\<rparr>) r"

definition GetExecutionCount :: "JobSummary \<Rightarrow> JobStatsRegistry \<Rightarrow> 32 word" where
  "GetExecutionCount s r =
     (case mget (rg_statsByJobType r) (sm_key s) of None \<Rightarrow> 0 | Some j \<Rightarrow> js_ExecutingJobs j)"

text \<open>The ids of the requests that wait and are due within a minute, by descending priority and then by
  age; requests of equal rank keep the order of the map.\<close>

definition BuildWaitEstimate :: "int \<Rightarrow> JobSummary \<Rightarrow> JobStatsRegistry \<Rightarrow> JobStats \<times> string list" where
  "BuildWaitEstimate now s r =
     (case mget (rg_statsByJobType r) (sm_key s) of
        None \<Rightarrow> (NewJobStats s, [])
      | Some j \<Rightarrow>
          let pendingJobs = inner (rg_pendingJobsByType r) (sm_key s);
              due = filter (\<lambda>p. sm_ScheduledAt (snd p) \<le> now + 60 * Second) pendingJobs
          in (j, map (\<lambda>p. sm_ID (snd p))
                   (sort_key (\<lambda>p. - sm_JobPriority (snd p)) (sort_key (\<lambda>p. sm_CreatedAt (snd p)) due))))"

subsection \<open>What the registry should know\<close>

text \<open>The calls in the order in which the lock lets them through.\<close>

datatype stat_op =
    OpPending JobSummary bool
  | OpStarted int JobSummary
  | OpCancelled JobSummary
  | OpSucceeded JobSummary int
  | OpFailed JobSummary int
  | OpPaused JobSummary int
  | OpAntsAvailable JobSummary bool string
  | OpDisabled JobSummary bool

fun apply_op :: "stat_op \<Rightarrow> JobStatsRegistry \<Rightarrow> JobStatsRegistry option" where
  "apply_op (OpPending s reverted) r = Some (reg_Pending s reverted r)"
| "apply_op (OpStarted now s) r = Some (reg_Started now s r)"
| "apply_op (OpCancelled s) r = Some (reg_Cancelled s r)"
| "apply_op (OpSucceeded s latency) r = reg_Succeeded s latency r"
| "apply_op (OpFailed s latency) r = reg_Failed s latency r"
| "apply_op (OpPaused s latency) r = reg_Paused s latency r"
| "apply_op (OpAntsAvailable s available err) r = Some (SetAntsAvailable s available err r)"
| "apply_op (OpDisabled s disabled) r = Some (SetDisabled s disabled r)"

fun run_ops :: "stat_op list \<Rightarrow> JobStatsRegistry \<Rightarrow> JobStatsRegistry option" where
  "run_ops [] r = Some r"
| "run_ops (op # ops) r = (case apply_op op r of None \<Rightarrow> None | Some r' \<Rightarrow> run_ops ops r')"

text \<open>The specification: starts minus ends per job type, the ids that run per user and organization, and
  the requests that wait per job type.\<close>

record stat_view =
  sv_count :: "string \<Rightarrow> int"
  sv_user :: "string \<Rightarrow> string set"
  sv_org :: "string \<Rightarrow> string set"
  sv_wait :: "string \<Rightarrow> string \<Rightarrow> JobSummary option"

definition view_delta :: "JobSummary \<Rightarrow> int \<Rightarrow> stat_view \<Rightarrow> stat_view" where
  "view_delta s d v = v\<lparr>sv_count := (sv_count v)(sm_key s := sv_count v (sm_key s) + d)\<rparr>"

definition view_run :: "JobSummary \<Rightarrow> stat_view \<Rightarrow> stat_view" where
  "view_run s v = v\<lparr>sv_user := (sv_user v)(sm_UserID s := insert (sm_ID s) (sv_user v (sm_UserID s))),
     sv_org := (sv_org v)(sm_OrganizationID s := insert (sm_ID s) (sv_org v (sm_OrganizationID s)))\<rparr>"

definition view_stop :: "JobSummary \<Rightarrow> stat_view \<Rightarrow> stat_view" where
  "view_stop s v = v\<lparr>sv_user := (sv_user v)(sm_UserID s := sv_user v (sm_UserID s) - {sm_ID s}),
     sv_org := (sv_org v)(sm_OrganizationID s := sv_org v (sm_OrganizationID s) - {sm_ID s})\<rparr>"

definition view_wait :: "JobSummary \<Rightarrow> JobSummary option \<Rightarrow> stat_view \<Rightarrow> stat_view" where
  "view_wait s w v = v\<lparr>sv_wait := (sv_wait v)(sm_key s := (sv_wait v (sm_key s))(sm_ID s := w))\<rparr>"

fun view_op :: "stat_op \<Rightarrow> stat_view \<Rightarrow> stat_view" where
  "view_op (OpPending s reverted) v = view_delta s (if reverted then -1 else 0) (view_stop s (view_wait s (Some s) v))"
| "view_op (OpStarted now s) v = view_run s (view_wait s None (view_delta s 1 v))"
| "view_op (OpCancelled s) v = view_stop s (view_wait s None (view_delta s (-1) v))"
| "view_op (OpSucceeded s latency) v = view_stop s (view_wait s None (view_delta s (-1) v))"
| "view_op (OpFailed s latency) v = view_stop s (view_wait s None (view_delta s (-1) v))"
| "view_op (OpPaused s latency) v = view_stop s (view_wait s None (view_delta s (-1) v))"
| "view_op (OpAntsAvailable s available err) v = v"
| "view_op (OpDisabled s disabled) v = v"

definition empty_view :: stat_view where
  "empty_view = \<lparr>sv_count = (\<lambda>_. 0), sv_user = (\<lambda>_. {}), sv_org = (\<lambda>_. {}), sv_wait = (\<lambda>_ _. None)\<rparr>"

definition stats_ok :: "JobStats \<Rightarrow> bool" where
  "stats_ok j \<longleftrightarrow> (\<exists>ys. ra_inv 20 ys (mm_average (js_succeededJobsMinMax j))) \<and>
     (\<exists>ys. ra_inv 20 ys (mm_average (js_failedJobsMinMax j))) \<and> (\<exists>ys. ra_inv 20 ys (mm_average (js_pausedJobsMinMax j)))"

definition counts_ok :: "(string, (string, bool) gomap) gomap \<Rightarrow> (string \<Rightarrow> string set) \<Rightarrow> bool" where
  "counts_ok m f \<longleftrightarrow> (\<forall>u. mwf (inner m u) \<and> (u \<noteq> [] \<longrightarrow> set (mkeys (inner m u)) = f u))"

definition stat_count :: "(string, JobStats) gomap \<Rightarrow> string \<Rightarrow> 32 word" where
  "stat_count m k = (case mget m k of None \<Rightarrow> 0 | Some j \<Rightarrow> js_ExecutingJobs j)"

definition refines :: "JobStatsRegistry \<Rightarrow> stat_view \<Rightarrow> bool" where
  "refines r v \<longleftrightarrow>
     (\<forall>k. stat_count (rg_statsByJobType r) k = of_int (sv_count v k)) \<and>
     (\<forall>k j. mget (rg_statsByJobType r) k = Some j \<longrightarrow> stats_ok j) \<and>
     counts_ok (rg_countByUser r) (sv_user v) \<and> counts_ok (rg_countByOrg r) (sv_org v) \<and>
     (\<forall>k. mwf (inner (rg_pendingJobsByType r) k) \<and> mget (inner (rg_pendingJobsByType r) k) = sv_wait v k)"

lemma inner_mset [simp]: "inner (mset k x m) k' = (if k' = k then x else inner m k')"
  by (simp add: inner_def)

lemma counts_ok_incr: "counts_ok m f \<Longrightarrow> counts_ok (incr_count owner i m) (f(owner := insert i (f owner)))"
  by (simp add: counts_ok_def incr_count_def mkeys_mset)

lemma counts_ok_decr: "counts_ok m f \<Longrightarrow> counts_ok (decr_count owner i m) (f(owner := f owner - {i}))"
  by (auto simp: counts_ok_def decr_count_def mkeys_mdel) (auto simp: mkeys_def)

lemma stats_ok_New [simp]: "stats_ok (NewJobStats s)"
  using NewRollingAverage_inv[of 20] by (auto simp: stats_ok_def NewJobStats_def NewRollingMinMax_def)

lemma mm_Add_ok: "ra_inv 20 ys (mm_average m) \<Longrightarrow> \<exists>m' ys'. mm_Add m x = Some m' \<and> ra_inv 20 ys' (mm_average m')"
  using ra_Add_inv[of 20 ys "mm_average m" x] by (auto simp: mm_Add_def)

lemma stats_ok_find: "refines r v \<Longrightarrow> stats_ok (createOrFindStat s r)"
  by (auto simp: refines_def createOrFindStat_def split: option.splits)

lemma refines_put:
  assumes "refines r v" and "stats_ok j" and "js_ExecutingJobs j = js_ExecutingJobs (createOrFindStat s r) + of_int d"
  shows "refines (put_stat s j r) (view_delta s d v)"
proof -
  have "js_ExecutingJobs (createOrFindStat s r) = of_int (sv_count v (sm_key s))"
    using assms(1) by (auto simp: refines_def createOrFindStat_def stat_count_def NewJobStats_def dest: spec[of _ "sm_key s"] split: option.splits)
  with assms show ?thesis
    by (auto simp: refines_def put_stat_def view_delta_def stat_count_def)
qed

lemma refines_remove: "refines r v \<Longrightarrow> refines (removePendingJob s r) (view_wait s None v)"
proof -
  assume r: "refines r v"
  then have w: "mwf (inner (rg_pendingJobsByType r) k)" "mget (inner (rg_pendingJobsByType r) k) = sv_wait v k" for k
    by (simp_all add: refines_def)
  show ?thesis
  proof (cases "mget (rg_pendingJobsByType r) (sm_key s)")
    case None
    then have "sv_wait v (sm_key s) = (\<lambda>_. None)" using w(2)[of "sm_key s"] by (simp add: inner_def fun_eq_iff)
    then have "view_wait s None v = v" by (simp add: view_wait_def fun_upd_idem)
    with r None show ?thesis by (simp add: removePendingJob_def)
  next
    case (Some p)
    then have "inner (rg_pendingJobsByType r) (sm_key s) = p" by (simp add: inner_def)
    with r Some w[of "sm_key s"] show ?thesis
      by (auto simp: refines_def removePendingJob_def view_wait_def fun_eq_iff)
  qed
qed

lemma refines_decr: "refines r v \<Longrightarrow> refines (decrUserOrgCount s r) (view_stop s v)"
  by (auto simp: refines_def decrUserOrgCount_def view_stop_def counts_ok_decr)

lemma refines_incr:
  "refines r v \<Longrightarrow> refines (r\<lparr>rg_countByUser := incr_count (sm_UserID s) (sm_ID s) (rg_countByUser r),
     rg_countByOrg := incr_count (sm_OrganizationID s) (sm_ID s) (rg_countByOrg r)\<rparr>) (view_run s v)"
  by (auto simp: refines_def view_run_def counts_ok_incr)

lemma refines_wait:
  "refines r v \<Longrightarrow> refines (r\<lparr>rg_pendingJobsByType :=
     mset (sm_key s) (mset (sm_ID s) s (inner (rg_pendingJobsByType r) (sm_key s))) (rg_pendingJobsByType r)\<rparr>) (view_wait s (Some s) v)"
  by (auto simp: refines_def view_wait_def fun_eq_iff)

lemma refines_last: "refines (r\<lparr>rg_lastJobStatus := x\<rparr>) v \<longleftrightarrow> refines r v"
  by (simp add: refines_def)

lemma view_delta_0 [simp]: "view_delta s 0 v = v"
  by (simp add: view_delta_def)

text \<open>Every way to end a job counts it down and adds its latency to a window that has room.\<close>

lemma stats_ended_ok:
  assumes "stats_ok j" and "f \<in> {js_Succeeded x, js_Failed x, js_Paused x}"
  shows "\<exists>j'. f j = Some j' \<and> stats_ok j' \<and> js_ExecutingJobs j' = js_ExecutingJobs j + of_int (-1)"
proof -
  obtain a b c where "ra_inv 20 a (mm_average (js_succeededJobsMinMax j))" "ra_inv 20 b (mm_average (js_failedJobsMinMax j))"
    "ra_inv 20 c (mm_average (js_pausedJobsMinMax j))" using assms(1) by (auto simp: stats_ok_def)
  with mm_Add_ok[OF this(1), of x] mm_Add_ok[OF this(2), of x] mm_Add_ok[OF this(3), of x] assms(2) show ?thesis
    by (auto simp: js_Succeeded_def js_Failed_def js_Paused_def stats_ok_def)
qed

lemma reg_ended_refines:
  assumes "refines r v" and "f \<in> {js_Succeeded x, js_Failed x, js_Paused x}"
  shows "\<exists>r'. reg_ended f s r = Some r' \<and> refines r' (view_stop s (view_wait s None (view_delta s (-1) v)))"
proof -
  from stats_ended_ok[OF stats_ok_find[OF assms(1)] assms(2), of s] obtain j where
    j: "f (createOrFindStat s r) = Some j" "stats_ok j"
      "js_ExecutingJobs j = js_ExecutingJobs (createOrFindStat s r) + of_int (-1)" by blast
  from refines_decr[OF refines_remove[OF refines_put[OF assms(1) j(2,3)]]] j(1) show ?thesis
    by (simp add: reg_ended_def Let_def refines_last)
qed

lemma apply_op_refines:
  assumes "refines r v"
  shows "\<exists>r'. apply_op op r = Some r' \<and> refines r' (view_op op v)"
proof (cases op)
  case (OpPending s reverted)
  note w = refines_decr[OF refines_wait[OF assms], of s s]
  from refines_put[OF w, of "js_RevertedPending (createOrFindStat s (decrUserOrgCount s (r\<lparr>rg_pendingJobsByType :=
     mset (sm_key s) (mset (sm_ID s) s (inner (rg_pendingJobsByType r) (sm_key s))) (rg_pendingJobsByType r)\<rparr>)))" s "-1"]
    stats_ok_find[OF w, of s] w OpPending show ?thesis
    by (auto simp: reg_Pending_def Let_def js_RevertedPending_def stats_ok_def)
next
  case (OpStarted now s)
  have "refines (put_stat s (js_Started now (createOrFindStat s r)) r) (view_delta s 1 v)"
    using stats_ok_find[OF assms, of s] by (intro refines_put[OF assms]) (auto simp: js_Started_def stats_ok_def)
  from refines_incr[OF refines_remove[OF this], of s s] OpStarted show ?thesis by (simp add: reg_Started_def Let_def)
next
  case (OpCancelled s)
  have "refines (put_stat s (js_Cancelled (createOrFindStat s r)) r) (view_delta s (-1) v)"
    using stats_ok_find[OF assms, of s] by (intro refines_put[OF assms]) (auto simp: js_Cancelled_def stats_ok_def)
  from refines_decr[OF refines_remove[OF this]] OpCancelled show ?thesis by (simp add: reg_Cancelled_def)
next
  case (OpAntsAvailable s a err)
  have "refines (SetAntsAvailable s a err r) (view_delta s 0 v)" unfolding SetAntsAvailable_def
    using stats_ok_find[OF assms, of s] by (intro refines_put[OF assms]) (auto simp: stats_ok_def)
  with OpAntsAvailable show ?thesis by simp
next
  case (OpDisabled s d)
  have "refines (SetDisabled s d r) (view_delta s 0 v)" unfolding SetDisabled_def
    using stats_ok_find[OF assms, of s] by (intro refines_put[OF assms]) (auto simp: stats_ok_def)
  with OpDisabled show ?thesis by simp
qed (use reg_ended_refines[OF assms] in \<open>auto simp: reg_Succeeded_def reg_Failed_def reg_Paused_def\<close>)

lemma run_ops_refines: "refines r v \<Longrightarrow> \<exists>r'. run_ops ops r = Some r' \<and> refines r' (fold view_op ops v)"
proof (induction ops arbitrary: r v)
  case (Cons op ops)
  from apply_op_refines[OF Cons.prems] obtain r' where "apply_op op r = Some r'" "refines r' (view_op op v)" by blast
  with Cons.IH show ?case by auto
qed simp

lemma newRegistry_refines: "refines newRegistry empty_view"
  by (simp add: refines_def newRegistry_def empty_view_def counts_ok_def inner_def stat_count_def mkeys_def fun_eq_iff)

lemma counts_ok_card: "counts_ok m f \<Longrightarrow> u \<noteq> [] \<Longrightarrow> length (inner m u) = card (f u)"
  by (metis counts_ok_def distinct_card length_map mkeys_def mwf_def)

definition wait_ids :: "stat_view \<Rightarrow> bool" where
  "wait_ids v \<longleftrightarrow> (\<forall>k i q. sv_wait v k i = Some q \<longrightarrow> sm_ID q = i)"

lemma wait_ids_op: "wait_ids v \<Longrightarrow> wait_ids (view_op op v)"
  by (cases op) (auto simp: wait_ids_def view_delta_def view_stop_def view_run_def view_wait_def)

lemma wait_ids_fold: "wait_ids v \<Longrightarrow> wait_ids (fold view_op ops v)"
  by (induction ops arbitrary: v) (auto simp: wait_ids_op)

lemma wait_ids_empty [simp]: "wait_ids empty_view"
  by (simp add: wait_ids_def empty_view_def)

text \<open>Sorting by one key and then, keeping the order of equals, by another.\<close>

lemma insort_key_lex:
  fixes f :: "'a \<Rightarrow> 'b :: linorder" and g :: "'a \<Rightarrow> 'c :: linorder"
  shows "sorted_wrt (\<lambda>x y. f x < f y \<or> f x = f y \<and> g x \<le> g y) zs \<Longrightarrow> (\<And>z. z \<in> set zs \<Longrightarrow> g y \<le> g z) \<Longrightarrow>
    sorted_wrt (\<lambda>x y. f x < f y \<or> f x = f y \<and> g x \<le> g y) (insort_key f y zs)"
  by (induction zs) (force simp: set_insort_key not_le)+

lemma sort_key_lex:
  fixes f :: "'a \<Rightarrow> 'b :: linorder" and g :: "'a \<Rightarrow> 'c :: linorder"
  shows "sorted_wrt (\<lambda>x y. f x < f y \<or> f x = f y \<and> g x \<le> g y) (sort_key f (sort_key g xs))"
proof -
  have "sorted_wrt (\<lambda>x y. f x < f y \<or> f x = f y \<and> g x \<le> g y) (sort_key f ys)" if "sorted (map g ys)" for ys
    using that by (induction ys) (auto intro: insort_key_lex)
  then show ?thesis by (simp add: sorted_sort_key)
qed

subsection \<open>Properties\<close>


definition sample_summary :: "string \<Rightarrow> JobSummary" where
  "sample_summary i = \<lparr>sm_ID = i, sm_JobType = ''job'', sm_JobVersion = [], sm_JobState = PENDING, sm_OrganizationID = [],
     sm_UserID = ''alice'', sm_JobPriority = 5, sm_ScheduledAt = 0, sm_CreatedAt = 0\<rparr>"



definition sample_queue :: "stat_op list" where
  "sample_queue = [OpPending (sample_summary ''a'') True, OpPending ((sample_summary ''b'')\<lparr>sm_JobPriority := 9\<rparr>) False]"

lemma sample_queue_result:
  "\<exists>r j ids. run_ops sample_queue newRegistry = Some r \<and> BuildWaitEstimate 0 (sample_summary ''c'') r = (j, ids) \<and>
     mget (rg_statsByJobType r) (sm_key (sample_summary ''c'')) \<noteq> None \<and> ids = [''b'', ''a'']"
  by (simp add: sample_queue_def sample_summary_def reg_Pending_def Let_def put_stat_def createOrFindStat_def
      decrUserOrgCount_def decr_count_def inner_def newRegistry_def sm_key_def getUserJobTypeKey_def BuildWaitEstimate_def
      gomap_eval)


text \<open>The effect of cancelling requests that wait.\<close>

lemma view_cancelled_pending:
  "\<forall>p \<in> set ps. sm_key p = k \<Longrightarrow>
   sv_count (fold view_op (concat (map (\<lambda>p. [OpPending p False, OpCancelled p]) ps)) v) k = sv_count v k - int (length ps)"
  by (induction ps arbitrary: v) (auto simp: view_delta_def view_stop_def view_wait_def)

lemma view_started:
  "\<forall>q \<in> set qs. sm_key q = k \<Longrightarrow> sv_count (fold view_op (map (OpStarted now) qs) v) k = sv_count v k + int (length qs)"
  by (induction qs arbitrary: v) (auto simp: view_delta_def view_run_def view_wait_def)

text \<open>Cancelling a request that waits counts the executions of its job type down although it was never
  counted up: after \<open>n\<close> such cancellations the registry reports \<open>n\<close> executions fewer than run, and
  \<open>n\<close> jobs more than the limit of the job type pass the check against it.\<close>

theorem cancelled_pending_undercounts:
  assumes "\<forall>p \<in> set ps. sm_key p = sm_key s" and "\<forall>q \<in> set qs. sm_key q = sm_key s"
    and "int (length ps) < 2 ^ 31" and "int (length qs) < 2 ^ 31"
  shows "\<exists>r. run_ops (concat (map (\<lambda>p. [OpPending p False, OpCancelled p]) ps) @ map (OpStarted now) qs) newRegistry = Some r \<and>
     sint (GetExecutionCount s r) = int (length qs) - int (length ps)"
proof -
  let ?ops = "concat (map (\<lambda>p. [OpPending p False, OpCancelled p]) ps) @ map (OpStarted now) qs"
  from run_ops_refines[OF newRegistry_refines, of ?ops] obtain r where
    r: "run_ops ?ops newRegistry = Some r" "refines r (fold view_op ?ops empty_view)" by blast
  have "sv_count (fold view_op ?ops empty_view) (sm_key s) = int (length qs) - int (length ps)"
    using view_started[OF assms(2)] view_cancelled_pending[OF assms(1)] by (simp add: empty_view_def)
  then have "GetExecutionCount s r = word_of_int (int (length qs) - int (length ps))"
    using r(2) by (simp add: refines_def GetExecutionCount_def stat_count_def)
  moreover have "sint (word_of_int x :: 32 word) = x" if "- (2 ^ 31) \<le> x" "x < 2 ^ 31" for x
    using that by (simp add: sint_sbintrunc' signed_take_bit_int_eq_self)
  from this[of "int (length qs) - int (length ps)"] assms(3,4)
  have "sint (word_of_int (int (length qs) - int (length ps)) :: 32 word) = int (length qs) - int (length ps)" by linarith
  ultimately have "sint (GetExecutionCount s r) = int (length qs) - int (length ps)" by (simp only:)
  with r(1) show ?thesis by blast
qed

theorem cancelled_pending_undercounts_witness:
  "\<exists>r. run_ops [OpPending (sample_summary ''a'') False, OpCancelled (sample_summary ''a''), OpStarted 1 (sample_summary ''b'')]
     newRegistry = Some r \<and> sint (GetExecutionCount (sample_summary ''c'') r) = 0"
proof -
  have k: "sm_key (sample_summary x) = sm_key (sample_summary y)" for x y by (simp add: sm_key_def sample_summary_def)
  show ?thesis
    using cancelled_pending_undercounts[of "[sample_summary ''a'']" "sample_summary ''c''" "[sample_summary ''b'']" 1]
    by (simp add: k[of "''a''" "''c''"] k[of "''b''" "''c''"])
qed

end
