(* ===== verification/Retention_Manager.thy ===== *)
theory Retention_Manager
  imports Request_Repository
begin

text \<open>
  The purge of old requests (\<open>queen/manager/retention_manager.go\<close>): the loop over batches for one job
  type and state, and the loop over the pages of job definitions, with the paging of the query in
  \<open>queen/repository/job_definition_repository_impl.go\<close>.  Loops that may not end are partial
  functions, so that None is a run without end; \<open>cancelled i\<close> tells whether the context is done at
  the \<open>i\<close>-th check.  A day has 24 hours.
\<close>

text \<open>\<open>defs\<close> are the rows of the active definitions and \<open>post\<close> is what loading makes of a row.\<close>

fun post_rows :: "(JobDefinition \<Rightarrow> (repo_error, JobDefinition) result) \<Rightarrow> JobDefinition list \<Rightarrow> (repo_error, JobDefinition list) result" where
  "post_rows post [] = Ok []"
| "post_rows post (d # ds) =
     (case post d of
        Inl err \<Rightarrow> Err err
      | Inr d' \<Rightarrow> (case post_rows post ds of Inl err \<Rightarrow> Err err | Inr ds' \<Rightarrow> Ok (d' # ds')))"

definition def_Query ::
  "JobDefinition table_ops \<Rightarrow> (JobDefinition \<Rightarrow> (repo_error, JobDefinition) result) \<Rightarrow> nat \<Rightarrow> nat \<Rightarrow> JobDefinition list \<Rightarrow>
   (repo_error, JobDefinition list) result" where
  "def_Query dt post page pageSize defs =
     (case op_page dt (\<lambda>_. True) (\<lambda>_. 0) (page * pageSize) pageSize defs of
        Inl m \<Rightarrow> Err (DatabaseError m)
      | Inr jobs \<Rightarrow> post_rows post jobs)"

partial_function (option) purge_loop ::
  "db_engine \<Rightarrow> (nat \<Rightarrow> bool) \<Rightarrow> string \<Rightarrow> RequestState \<Rightarrow> int \<Rightarrow> nat \<Rightarrow> nat \<Rightarrow> DB \<Rightarrow> (DB \<times> nat \<times> repo_error option) option" where
  "purge_loop e cancelled jobType state olderThan i gone db =
     (if cancelled i then Some (db, gone, Some PlainError)
      else
        (let (db', n, err) = PurgeOldRequests e jobType state olderThan 500 db
         in if err \<noteq> None then Some (db', gone, err)
            else if n < 500 then Some (db', gone + n, None)
            else purge_loop e cancelled jobType state olderThan (Suc i) (gone + n) db'))"

definition purgeState ::
  "db_engine \<Rightarrow> (nat \<Rightarrow> bool) \<Rightarrow> string \<Rightarrow> RequestState \<Rightarrow> int \<Rightarrow> DB \<Rightarrow> (DB \<times> nat \<times> repo_error option) option" where
  "purgeState e cancelled jobType state olderThan db = purge_loop e cancelled jobType state olderThan 0 0 db"

fun purge_states ::
  "db_engine \<Rightarrow> (string \<Rightarrow> RequestState \<Rightarrow> nat \<Rightarrow> bool) \<Rightarrow> int \<Rightarrow> JobDefinition \<Rightarrow> RequestState list \<Rightarrow> nat \<Rightarrow> DB \<Rightarrow> (DB \<times> nat) option" where
  "purge_states e cancelled now jd [] gone db = Some (db, gone)"
| "purge_states e cancelled now jd (state # states) gone db =
     (let days = GetRetentionDays jd state
      in if days \<le> 0 then purge_states e cancelled now jd states gone db
         else
           case purgeState e (cancelled (jd_JobType jd) state) (jd_JobType jd) state (now - days * 86400 * Second) db of
             None \<Rightarrow> None
           | Some (db', purged, err) \<Rightarrow>
               if err \<noteq> None then purge_states e cancelled now jd states gone db'
               else purge_states e cancelled now jd states (gone + purged) db')"

fun purge_defs ::
  "db_engine \<Rightarrow> (string \<Rightarrow> RequestState \<Rightarrow> nat \<Rightarrow> bool) \<Rightarrow> int \<Rightarrow> JobDefinition list \<Rightarrow> nat \<Rightarrow> DB \<Rightarrow> (DB \<times> nat) option" where
  "purge_defs e cancelled now [] gone db = Some (db, gone)"
| "purge_defs e cancelled now (jd # jds) gone db =
     (case purge_states e cancelled now jd [FAILED, COMPLETED, CANCELLED] gone db of
        None \<Rightarrow> None
      | Some (db', gone') \<Rightarrow> purge_defs e cancelled now jds gone' db')"

partial_function (option) purge_pages ::
  "db_engine \<Rightarrow> JobDefinition table_ops \<Rightarrow> (JobDefinition \<Rightarrow> (repo_error, JobDefinition) result) \<Rightarrow>
   (string \<Rightarrow> RequestState \<Rightarrow> nat \<Rightarrow> bool) \<Rightarrow> int \<Rightarrow> JobDefinition list \<Rightarrow> nat \<Rightarrow> nat \<Rightarrow> DB \<Rightarrow> (DB \<times> nat \<times> repo_error option) option" where
  "purge_pages e dt post cancelled now defs offset gone db =
     (case def_Query dt post offset 1000 defs of
        Inl err \<Rightarrow> Some (db, gone, Some err)
      | Inr jobDefs \<Rightarrow>
          if length jobDefs = 0 then Some (db, gone, None)
          else
            case purge_defs e cancelled now jobDefs gone db of
              None \<Rightarrow> None
            | Some (db', gone') \<Rightarrow>
                if length jobDefs < 1000 then Some (db', gone', None)
                else purge_pages e dt post cancelled now defs (offset + 1000) gone' db')"

definition PurgeAll ::
  "db_engine \<Rightarrow> JobDefinition table_ops \<Rightarrow> (JobDefinition \<Rightarrow> (repo_error, JobDefinition) result) \<Rightarrow>
   (string \<Rightarrow> RequestState \<Rightarrow> nat \<Rightarrow> bool) \<Rightarrow> int \<Rightarrow> JobDefinition list \<Rightarrow> DB \<Rightarrow> (DB \<times> nat \<times> repo_error option) option" where
  "PurgeAll e dt post cancelled now defs db = purge_pages e dt post cancelled now defs 0 0 db"

subsection \<open>Lemmas\<close>

text \<open>What the purge of a type and state is about.\<close>

definition expired :: "string \<Rightarrow> RequestState \<Rightarrow> int \<Rightarrow> JobRequest \<Rightarrow> bool" where
  "expired jobType state olderThan r \<longleftrightarrow> jr_JobType r = jobType \<and> jr_JobState r = state \<and> jr_UpdatedAt r < olderThan"

context sql_engine
begin

lemma PurgeOldRequests_Ok:
  assumes "PurgeOldRequests e jobType state olderThan n db = (db', k, None)"
  shows "purge_body e jobType state olderThan (if n \<le> 0 then 500 else nat n) db = Ok (db', k)"
proof -
  define m where "m = (if n \<le> 0 then 500 else nat n)"
  let ?tx = "\<lambda>d. case purge_body e jobType state olderThan m d of Inl err \<Rightarrow> Err err | Inr (d', _) \<Rightarrow> Ok d'"
  from assms have tx: "e_transaction e ?tx db = (db', None)"
    and k: "k = (case purge_body e jobType state olderThan m db of Inr (_, k) \<Rightarrow> k | Inl _ \<Rightarrow> 0)"
    by (auto simp: PurgeOldRequests_def Let_def m_def split: prod.splits if_splits)
  from tx_commit[OF tx] k have "purge_body e jobType state olderThan m db = Ok (db', k)" by (auto split: sum.splits prod.splits)
  then show ?thesis by (simp only: m_def)
qed

lemma PurgeOldRequests_Err: "PurgeOldRequests e jobType state olderThan n db = (db', k, Some err) \<Longrightarrow> db' = db"
  by (auto simp: PurgeOldRequests_def Let_def split: prod.splits if_splits dest: tx_rollback)

lemma purge_body_requests:
  assumes "purge_body e jobType state olderThan n db = Ok (db', k)" and "distinct (map jr_ID (db_requests db))"
  shows "\<exists>q. (\<forall>r \<in> set (db_requests db). q r \<longrightarrow> expired jobType state olderThan r) \<and>
     db_requests db' = filter (\<lambda>r. \<not> q r) (db_requests db) \<and> k = length (filter q (db_requests db)) \<and>
     (k < n \<longrightarrow> (\<forall>r \<in> set (db_requests db). expired jobType state olderThan r \<longrightarrow> q r))"
proof -
  let ?p = "expired jobType state olderThan"
  from assms(1) obtain reqs where reqs: "op_page (e_requests e) ?p (\<lambda>_. 0) 0 n (db_requests db) = Ok reqs"
    by (auto simp: purge_body_def expired_def[abs_def] split: sum.splits)
  from requests.page_ok[OF reqs] obtain xs where xs: "same_rows xs (filter ?p (db_requests db))" "reqs = take n xs" by auto
  have sub: "set reqs \<subseteq> {r \<in> set (db_requests db). ?p r}" by (rule page_subset[OF reqs])
  let ?q = "\<lambda>r. jr_ID r \<in> jr_ID ` set reqs"
  have eq: "db_requests db' = filter (\<lambda>r. \<not> ?q r) (db_requests db) \<and> k = length (filter ?q (db_requests db))"
  proof (cases "reqs = []")
    case True
    with assms(1) reqs show ?thesis by (auto simp: purge_body_def expired_def[abs_def])
  next
    case False
    with assms(1) reqs obtain db1 db2 tids xids where 1: "purge_tasks e tids db = Ok db1"
      and 2: "purge_execs e xids db1 = Ok db2" and 3: "purge_requests e (map jr_ID reqs) db2 = Ok (db', k)"
      by (auto simp: purge_body_def Let_def expired_def[abs_def] split: sum.splits)
    then show ?thesis by (simp add: purge_requests_Ok[OF 3] purge_execs_Ok[OF 2] purge_tasks_Ok[OF 1])
  qed
  have same: "r = s" if "r \<in> set (db_requests db)" "s \<in> set (db_requests db)" "jr_ID r = jr_ID s" for r s
    using assms(2) that by (auto simp: distinct_map inj_on_def)
  have q: "?q r \<longleftrightarrow> r \<in> set reqs" if "r \<in> set (db_requests db)" for r using same[OF that] sub by blast
  have "?p r" if "r \<in> set (db_requests db)" "?q r" for r using q[OF that(1)] that(2) sub by blast
  moreover have "r \<in> set reqs" if "r \<in> set (db_requests db)" "?p r" "k < n" for r
  proof -
    have "distinct (map jr_ID xs)" by (rule same_rows_distinct[OF xs(1) distinct_map_filter[OF assms(2)]])
    then have "length reqs = card (set reqs)" using distinct_card[of reqs] by (simp add: xs(2) distinct_map)
    also have "\<dots> \<le> card (set (filter ?q (db_requests db)))" using sub by (intro card_mono) auto
    also have "\<dots> \<le> k" unfolding conjunct2[OF eq] by (rule card_length)
    finally have "reqs = xs" using that(3) xs(2) by simp
    then show ?thesis using that(1,2) same_rows_set[OF xs(1)] by simp
  qed
  ultimately show ?thesis using eq q by (intro exI[of _ ?q]) blast
qed

text \<open>The loop ends because every full batch deletes requests.\<close>

lemma purge_loop_result:
  assumes "distinct (map jr_ID (db_requests db))"
  shows "\<exists>db' k err. purge_loop e cancelled jobType state olderThan i gone db = Some (db', gone + k, err) \<and>
     length (db_requests db) = length (db_requests db') + k \<and>
     (\<exists>q. (\<forall>r \<in> set (db_requests db). q r \<longrightarrow> expired jobType state olderThan r) \<and>
        db_requests db' = filter (\<lambda>r. \<not> q r) (db_requests db) \<and>
        (err = None \<longrightarrow> (\<forall>r \<in> set (db_requests db). expired jobType state olderThan r \<longrightarrow> q r)))"
  using assms
proof (induction "length (db_requests db)" arbitrary: db i gone rule: less_induct)
  case less
  obtain db1 n err where p: "PurgeOldRequests e jobType state olderThan 500 db = (db1, n, err)" by (metis prod_cases3)
  note unfold = purge_loop.simps[of e cancelled jobType state olderThan i gone db]
  show ?case
  proof (cases "cancelled i \<or> err \<noteq> None")
    case True
    then have "purge_loop e cancelled jobType state olderThan i gone db = Some (db, gone, if cancelled i then Some PlainError else err)"
      using p by (auto simp: unfold dest: PurgeOldRequests_Err)
    then show ?thesis using True by (intro exI[of _ db] exI[of _ 0]) (auto intro!: exI[of _ "\<lambda>_. False"])
  next
    case False
    with p have "purge_body e jobType state olderThan 500 db = Ok (db1, n)" using PurgeOldRequests_Ok[of jobType state olderThan 500] by auto
    from purge_body_requests[OF this less.prems] obtain q where
      q: "\<forall>r \<in> set (db_requests db). q r \<longrightarrow> expired jobType state olderThan r" and
      db1: "db_requests db1 = filter (\<lambda>r. \<not> q r) (db_requests db)" "n = length (filter q (db_requests db))" and
      all: "n < 500 \<longrightarrow> (\<forall>r \<in> set (db_requests db). expired jobType state olderThan r \<longrightarrow> q r)" by blast
    have len: "length (db_requests db) = length (db_requests db1) + n"
      using sum_length_filter_compl[of q "db_requests db"] by (simp add: db1)
    show ?thesis
    proof (cases "n < 500")
      case True
      then have "purge_loop e cancelled jobType state olderThan i gone db = Some (db1, gone + n, None)"
        using False p by (simp add: unfold)
      with len q db1(1) all True show ?thesis by (intro exI conjI) auto
    next
      case n: False
      have d: "distinct (map jr_ID (db_requests db1))" using less.prems by (simp add: db1(1) distinct_map_filter)
      have "length (db_requests db1) < length (db_requests db)" using len n by simp
      from less.hyps[OF this d, of "Suc i" "gone + n"] obtain db' k err' q' where
        rec: "purge_loop e cancelled jobType state olderThan (Suc i) (gone + n) db1 = Some (db', gone + n + k, err')"
        "length (db_requests db1) = length (db_requests db') + k"
        "\<forall>r \<in> set (db_requests db1). q' r \<longrightarrow> expired jobType state olderThan r"
        "db_requests db' = filter (\<lambda>r. \<not> q' r) (db_requests db1)"
        "err' = None \<longrightarrow> (\<forall>r \<in> set (db_requests db1). expired jobType state olderThan r \<longrightarrow> q' r)"
        by (elim exE conjE) (rule that)
      have "purge_loop e cancelled jobType state olderThan i gone db = Some (db', gone + (n + k), err')"
        using False n p rec(1) by (simp add: unfold add.assoc)
      moreover have "db_requests db' = filter (\<lambda>r. \<not> (q r \<or> q' r)) (db_requests db)"
        using rec(4) db1(1) by (simp add: conj_commute)
      ultimately show ?thesis using len rec(2,3,5) q db1(1)
        by (intro exI[of _ db'] exI[of _ "n + k"] exI[of _ err'] conjI exI[of _ "\<lambda>r. q r \<or> q' r"]) auto
    qed
  qed
qed

end

subsection \<open>Properties\<close>

text \<open>C22: The purge of a job type and state always ends, whatever the size of the table and whichever
  statements fail; it deletes only requests of that type and state that are old enough, reports
  their number, and unless it reports an error none of them is left.\<close>

theorem purgeState_drains:
  assumes "sql_engine e" and "distinct (map jr_ID (db_requests db))"
  shows "\<exists>db' k err. purgeState e cancelled jobType state olderThan db = Some (db', k, err) \<and>
     length (db_requests db) = length (db_requests db') + k \<and> set (db_requests db') \<subseteq> set (db_requests db) \<and>
     (\<forall>r \<in> set (db_requests db). \<not> expired jobType state olderThan r \<longrightarrow> r \<in> set (db_requests db')) \<and>
     (err = None \<longrightarrow> (\<forall>r \<in> set (db_requests db'). \<not> expired jobType state olderThan r))"
proof -
  from sql_engine.purge_loop_result[OF assms, of cancelled jobType state olderThan 0 0] obtain db' k err q where
    "purge_loop e cancelled jobType state olderThan 0 0 db = Some (db', 0 + k, err)"
    "length (db_requests db) = length (db_requests db') + k"
    "\<forall>r \<in> set (db_requests db). q r \<longrightarrow> expired jobType state olderThan r"
    "db_requests db' = filter (\<lambda>r. \<not> q r) (db_requests db)"
    "err = None \<longrightarrow> (\<forall>r \<in> set (db_requests db). expired jobType state olderThan r \<longrightarrow> q r)"
    by (elim exE conjE) (rule that)
  then show ?thesis by (intro exI[of _ db'] exI[of _ k] exI[of _ err]) (auto simp: purgeState_def)
qed

theorem purgeState_drains_witness:
  "\<exists>db' k err. purgeState mem_engine (\<lambda>_. False) ''job'' COMPLETED 5 sample_done = Some (db', k, err) \<and>
     2 = length (db_requests db') + k"
proof -
  have "distinct (map jr_ID (db_requests sample_done))" by (simp add: sample_done_def sample_request_row_def)
  moreover have "length (db_requests sample_done) = 2" by (simp add: sample_done_def)
  ultimately show ?thesis
    using purgeState_drains[OF mem_engine_laws, of sample_done "\<lambda>_. False" "''job''" COMPLETED 5] by metis
qed

lemma length_post_rows: "post_rows post ds = Ok ds' \<Longrightarrow> length ds' = length ds"
  by (induction ds arbitrary: ds') (auto split: sum.splits)

lemma mem_def_Query: "def_Query mem_table post page n defs = post_rows post (take n (drop (page * n) defs))"
  by (simp add: def_Query_def mem_table_def sort_key_const)

text \<open>The offset of a page of job definitions is passed where the query expects the number of the page,
  so that the second page starts at row one million: up to that many definitions, only those on
  the first page are ever considered for retention.\<close>

theorem retention_first_page_only:
  assumes "length defs \<le> 1000000"
  shows "PurgeAll e mem_table post cancelled now defs db = PurgeAll e mem_table post cancelled now (take 1000 defs) db"
proof (cases "post_rows post (take 1000 defs)")
  case (Inl err)
  then show ?thesis
    by (simp add: PurgeAll_def purge_pages.simps[of _ _ _ _ _ _ 0] mem_def_Query)
next
  case (Inr jobDefs)
  have rest: "purge_pages e mem_table post cancelled now ds 1000 t d = Some (d, t, None)" if "length ds \<le> 1000000" for ds t d
    using that by (simp add: purge_pages.simps[of _ _ _ _ _ _ 1000] mem_def_Query)
  have "purge_pages e mem_table post cancelled now defs 0 0 db =
      purge_pages e mem_table post cancelled now (take 1000 defs) 0 0 db"
    unfolding purge_pages.simps[of _ _ _ _ _ _ 0] using Inr assms
    by (simp add: mem_def_Query rest split: option.splits prod.splits)
  then show ?thesis by (simp add: PurgeAll_def)
qed

theorem retention_first_page_only_witness:
  "PurgeAll mem_engine mem_table Ok (\<lambda>_ _ _. False) 9 (replicate 5000 (NewJobDefinition ''job'')) sample_done =
   PurgeAll mem_engine mem_table Ok (\<lambda>_ _ _. False) 9 (replicate 1000 (NewJobDefinition ''job'')) sample_done"
  using retention_first_page_only[of "replicate 5000 (NewJobDefinition ''job'')" mem_engine Ok "\<lambda>_ _ _. False" 9 sample_done] by simp

end
