(* ===== verification/Job_Manager.thy ===== *)
theory Job_Manager
  imports Request_Repository Execution_Repository Job_Stats "HOL-Library.Multiset"
begin

text \<open>
  The manager of jobs (\<open>queen/manager/job_manager.go\<close>): it combines the repositories of requests and
  executions with the registry of statistics and the queue.  The state is the database, the registry,
  the messages published and the goroutines started and not yet run.  What lies outside of these
  components is the environment: the engine, the clock, new ids, whether publishing a message
  succeeds, the repository of job definitions and the check of the subscription.  Audit records,
  metrics and notifications are left out.
\<close>

datatype jm_event =
    RequestChange string string RequestState
  | ExecutionEvent string string RequestState
  | DefinitionDisabled string
  | LaunchEvent string string
  | WebhookEvent string string RequestState

text \<open>Goroutines: the cancellation of the children of a request, the check a second after a running job was
  asked to stop, and the notification of a result with the state of the previous request.\<close>

datatype jm_task = Cascade string | Override QueryContext string | Notify string RequestState

record JobManager =
  jm_db :: DB
  jm_stats :: JobStatsRegistry
  jm_events :: "jm_event list"
  jm_tasks :: "jm_task list"

record jm_env =
  v_engine :: db_engine
  v_dec :: "string \<Rightarrow> string \<Rightarrow> any option"
  v_now :: int
  v_newid :: string
  v_newkey :: string
  v_publish :: "jm_event \<Rightarrow> bool"
  v_definition :: "QueryContext \<Rightarrow> string \<Rightarrow> (repo_error, JobDefinition) result"
  v_definition_by_type :: "QueryContext \<Rightarrow> string \<Rightarrow> (repo_error, JobDefinition) result"
  v_set_disabled :: "string \<Rightarrow> bool"
  v_quota :: "QueryContext \<Rightarrow> JobRequest \<Rightarrow> repo_error option"
  v_cron :: "string \<Rightarrow> (int \<Rightarrow> int option) option"
  v_format :: "int \<Rightarrow> string"

text \<open>A message that cannot be published is lost; the caller learns it from the second component.\<close>

definition publish :: "jm_env \<Rightarrow> jm_event \<Rightarrow> JobManager \<Rightarrow> JobManager \<times> bool" where
  "publish v ev w = (if v_publish v ev then (w\<lparr>jm_events := ev # jm_events w\<rparr>, True) else (w, False))"

definition fireJobRequestChange :: "jm_env \<Rightarrow> JobRequest \<Rightarrow> JobManager \<Rightarrow> JobManager" where
  "fireJobRequestChange v req w = fst (publish v (RequestChange (jr_ID req) (jr_UserID req) (jr_JobState req)) w)"

definition GetJobDefinitionByType ::
  "jm_env \<Rightarrow> QueryContext \<Rightarrow> string \<Rightarrow> string \<Rightarrow> (repo_error, JobDefinition) result" where
  "GetJobDefinitionByType v qc jobType version = v_definition_by_type v qc (jobType @ '':'' @ version)"

subsection \<open>Cancelling and pausing\<close>

definition cancelJob :: "jm_env \<Rightarrow> QueryContext \<Rightarrow> JobRequest \<Rightarrow> JobManager \<Rightarrow> JobManager \<times> repo_error option" where
  "cancelJob v qc req w =
     (case publish v (ExecutionEvent (jr_ID req) (jr_JobExecutionID req) CANCELLED) w of
        (w', ok) \<Rightarrow>
          if \<not> ok then (w', Some PlainError)
          else (w'\<lparr>jm_tasks := Override qc (jr_ID req) # jm_tasks w'\<rparr>, None))"

definition pauseJob :: "jm_env \<Rightarrow> JobRequest \<Rightarrow> JobManager \<Rightarrow> JobManager \<times> repo_error option" where
  "pauseJob v req w =
     (case publish v (ExecutionEvent (jr_ID req) (jr_JobExecutionID req) PAUSED) w of
        (w', ok) \<Rightarrow> (w', if ok then None else Some PlainError))"

definition overrideCancelRequest :: "jm_env \<Rightarrow> QueryContext \<Rightarrow> string \<Rightarrow> JobManager \<Rightarrow> JobManager" where
  "overrideCancelRequest v qc rid w =
     (case req_Get (v_engine v) (v_dec v) qc rid (jm_db w) of
        Inl _ \<Rightarrow> w
      | Inr verify \<Rightarrow>
          if IsTerminal (jr_JobState verify) then w
          else w\<lparr>jm_db := fst (req_Cancel (v_engine v) (v_dec v) (v_now v) qc rid (jm_db w))\<rparr>)"

definition waits :: "RequestState \<Rightarrow> bool" where
  "waits st \<longleftrightarrow> st = PENDING \<or> st = PAUSED \<or> st = MANUAL_APPROVAL_REQUIRED"

definition CancelJobRequest :: "jm_env \<Rightarrow> QueryContext \<Rightarrow> string \<Rightarrow> JobManager \<Rightarrow> JobManager \<times> repo_error option" where
  "CancelJobRequest v qc rid w =
     (case req_Get (v_engine v) (v_dec v) qc rid (jm_db w) of
        Inl err \<Rightarrow> (w, Some err)
      | Inr req \<Rightarrow>
          (let w = w\<lparr>jm_stats := reg_Cancelled (request_summary req) (jm_stats w)\<rparr>;
               (w, err) =
                 (if waits (jr_JobState req) then
                    (case req_Cancel (v_engine v) (v_dec v) (v_now v) qc rid (jm_db w) of
                       (db, Some err) \<Rightarrow> (w\<lparr>jm_db := db\<rparr>, Some err)
                     | (db, None) \<Rightarrow> (fireJobRequestChange v (req\<lparr>jr_JobState := CANCELLED\<rparr>) (w\<lparr>jm_db := db\<rparr>), None))
                  else cancelJob v qc req w)
           in if err \<noteq> None then (w, err) else (w\<lparr>jm_tasks := Cascade rid # jm_tasks w\<rparr>, None)))"

definition PauseJobRequest :: "jm_env \<Rightarrow> QueryContext \<Rightarrow> string \<Rightarrow> JobManager \<Rightarrow> JobManager \<times> repo_error option" where
  "PauseJobRequest v qc rid w =
     (case req_Get (v_engine v) (v_dec v) qc rid (jm_db w) of
        Inl err \<Rightarrow> (w, Some err)
      | Inr req \<Rightarrow>
          if jr_JobState req \<noteq> EXECUTING then (w, Some PlainError)
          else pauseJob v req (w\<lparr>jm_stats := reg_Cancelled (request_summary req) (jm_stats w)\<rparr>))"

text \<open>One child: what the loop does with a request it has not seen.\<close>

definition cancel_child :: "jm_env \<Rightarrow> JobRequest \<Rightarrow> JobManager \<Rightarrow> JobManager" where
  "cancel_child v c w =
     (let qc = NewQueryContextFromIDs (jr_UserID c) (jr_OrganizationID c)
      in if waits (jr_JobState c) then
           (case req_Cancel (v_engine v) (v_dec v) (v_now v) qc (jr_ID c) (jm_db w) of
              (db, err) \<Rightarrow>
                if err = None then fireJobRequestChange v (c\<lparr>jr_JobState := CANCELLED\<rparr>) (w\<lparr>jm_db := db\<rparr>)
                else w\<lparr>jm_db := db\<rparr>)
         else fst (cancelJob v qc c w))"

text \<open>The children of one request: those not visited yet are cancelled or asked to stop, and their ids are
  returned for the queue.\<close>

fun cancel_children ::
  "jm_env \<Rightarrow> JobRequest list \<Rightarrow> string set \<Rightarrow> JobManager \<Rightarrow> JobManager \<times> string set \<times> string list" where
  "cancel_children v [] visited w = (w, visited, [])"
| "cancel_children v (c # cs) visited w =
     (if jr_ID c \<in> visited then cancel_children v cs visited w
      else
        (case cancel_children v cs (insert (jr_ID c) visited) (cancel_child v c w) of
           (w', visited', ids) \<Rightarrow> (w', visited', jr_ID c # ids)))"

text \<open>The breadth-first search: a request at depth 20 is not expanded.\<close>

function cascade ::
  "jm_env \<Rightarrow> (string \<times> nat) list \<Rightarrow> string set \<Rightarrow> JobManager \<Rightarrow> JobManager" where
  "cascade v [] visited w = w"
| "cascade v ((parentID, depth) # queue) visited w =
     (if depth \<ge> 20 then cascade v queue visited w
      else case FindActiveChildRequests (v_engine v) parentID (jm_db w) of
             Inl _ \<Rightarrow> cascade v queue visited w
           | Inr children \<Rightarrow>
               let r = cancel_children v children visited w
               in cascade v (queue @ map (\<lambda>i. (i, depth + 1)) (snd (snd r))) (fst (snd r)) (fst r))"
  by pat_completeness auto

text \<open>It ends whatever the database answers: a request is replaced by finitely many deeper ones.\<close>

definition depths :: "(string \<times> nat) list \<Rightarrow> nat multiset" where
  "depths queue = image_mset (\<lambda>p. 20 - snd p) (Multiset.mset queue)"

lemma depths_step:
  assumes "\<forall>p \<in> set new. depth < snd p" and "depth < 20 \<or> new = []"
  shows "(depths (queue @ new), depths ((parentID, depth) # queue)) \<in> mult less_than"
proof -
  let ?n = "image_mset (\<lambda>p. 20 - snd p) (Multiset.mset new)"
  have "(depths queue + ?n, depths queue + {#20 - depth#}) \<in> mult less_than"
    using assms by (intro one_step_implies_mult) auto
  then show ?thesis by (simp add: depths_def)
qed

termination cascade
  by (relation "inv_image (mult less_than) (\<lambda>(v, queue, visited, w). depths queue)")
    (auto simp: wf_mult intro!: depths_step depths_step[where new = "[]", simplified])

definition cascadeCancelToChildren :: "jm_env \<Rightarrow> string \<Rightarrow> JobManager \<Rightarrow> JobManager" where
  "cascadeCancelToChildren v rootParentID w = cascade v [(rootParentID, 0)] {} w"

subsection \<open>Cancellation reaches the descendants\<close>

definition child :: "JobRequest list \<Rightarrow> string \<Rightarrow> JobRequest \<Rightarrow> bool" where
  "child rows p c \<longleftrightarrow> c \<in> set rows \<and> jr_ParentID c = p \<and> jr_CascadeCancel c \<and> \<not> IsTerminal (jr_JobState c)"

inductive descendant :: "JobRequest list \<Rightarrow> string \<Rightarrow> nat \<Rightarrow> string \<Rightarrow> bool" for rows root where
  self: "descendant rows root 0 root"
| step: "descendant rows root n p \<Longrightarrow> child rows p c \<Longrightarrow> descendant rows root (Suc n) (jr_ID c)"

definition cancelled_row :: "int \<Rightarrow> JobRequest \<Rightarrow> JobRequest" where
  "cancelled_row now r = r\<lparr>jr_JobState := CANCELLED, jr_ErrorCode := ''ERR_JOB_CANCELLED'',
     jr_ErrorMessage := ''cancelled by job request'', jr_UpdatedAt := now\<rparr>"

text \<open>A row once the requests in \<open>visited\<close> were handled.\<close>

definition after :: "int \<Rightarrow> string set \<Rightarrow> JobRequest \<Rightarrow> JobRequest" where
  "after now visited r = (if jr_ID r \<in> visited \<and> waits (jr_JobState r) then cancelled_row now r else r)"

definition keyed :: "JobRequest list \<Rightarrow> bool" where
  "keyed rows \<longleftrightarrow> distinct (map jr_ID rows) \<and> [] \<notin> jr_ID ` set rows"

lemma keyed_inj: "keyed rows \<Longrightarrow> r \<in> set rows \<Longrightarrow> s \<in> set rows \<Longrightarrow> jr_ID r = jr_ID s \<Longrightarrow> r = s"
  by (auto simp: keyed_def distinct_map inj_on_def)

lemma cancelled_ID [simp]: "jr_ID (cancelled_row now r) = jr_ID r"
  by (simp add: cancelled_row_def)

lemma after_ID [simp]: "jr_ID (after now visited r) = jr_ID r"
  by (simp add: after_def cancelled_row_def)

lemma waits_not_terminal: "waits st \<Longrightarrow> \<not> IsTerminal st"
  by (auto simp: waits_def IsTerminal_def)

lemma own_scope: "in_scope (NewQueryContextFromIDs (jr_UserID r) (jr_OrganizationID r)) ro r"
  by (auto simp: in_scope_def AddOrgElseUserWhere_def AddUserWhere_def passes_def request_columns_def
      NewQueryContextFromIDs_def NewQueryContext_def NewUser_def Let_def split: option.splits)

lemma filter_single: "distinct (map f xs) \<Longrightarrow> x \<in> set xs \<Longrightarrow> P x \<Longrightarrow> filter (\<lambda>y. f y = f x \<and> P y) xs = [x]"
proof (induction xs)
  case (Cons a xs)
  then show ?case
  proof (cases "a = x")
    case True
    with Cons.prems have "filter (\<lambda>y. f y = f x \<and> P y) xs = []" by (auto simp: filter_empty_conv image_iff)
    with True Cons.prems show ?thesis by simp
  next
    case False
    with Cons show ?thesis by (auto simp: image_iff)
  qed
qed simp

text \<open>A database that is up: it answers every statement and commits every transaction whose body succeeds.\<close>

locale reliable_engine = sql_engine e for e +
  assumes find_total: "\<exists>rs. op_find (e_requests e) p key rows = Ok rs"
    and first_total: "\<exists>r. op_first (e_requests e) p rows = Ok r"
    and create_total: "\<exists>rows'. op_create (e_requests e) r rows = Ok rows'"
    and update_total: "\<exists>res. op_update (e_requests e) p f rows = Ok res"
    and update_execs_total: "\<exists>res. op_update (e_execs e) q g xs = Ok res"
    and commit_total: "body db = Ok db' \<Longrightarrow> e_transaction e body db = (db', None)"

lemma mem_engine_reliable: "reliable_engine mem_engine"
  unfolding reliable_engine_def reliable_engine_axioms_def
  by (rule conjI[OF mem_engine_laws]) (simp add: mem_engine_def mem_table_def mem_transaction_def)

interpretation up: reliable_engine mem_engine
  by (rule mem_engine_reliable)

context reliable_engine
begin

lemma update_execs_up: "op_update (e_execs e) q g xs = Err m \<longleftrightarrow> False"
  using update_execs_total[of q g xs] by auto

lemma req_Get_own:
  assumes "keyed (db_requests db)" and "r \<in> set (db_requests db)"
  shows "req_Get e dec (NewQueryContextFromIDs (jr_UserID r) (jr_OrganizationID r)) (jr_ID r) db = Ok (loaded dec r)"
proof -
  let ?p = "\<lambda>x. in_scope (NewQueryContextFromIDs (jr_UserID r) (jr_OrganizationID r)) True x \<and> jr_ID x = jr_ID r"
  have ne: "jr_ID r \<noteq> []" using assms unfolding keyed_def by (metis imageI)
  obtain res where res: "op_first (e_requests e) ?p (db_requests db) = Ok res" using first_total by blast
  have "res \<noteq> None" using requests.first_none[of ?p "db_requests db" r] res assms(2) own_scope by auto
  then obtain x where x: "res = Some x" by blast
  have "x \<in> set (db_requests db) \<and> ?p x" using requests.first_ok[of ?p "db_requests db" x] res x by simp
  then have "x = r" using keyed_inj[OF assms(1), of x r] assms(2) by simp
  then show ?thesis using ne res x by (simp add: req_Get_def)
qed

lemma cancel_own:
  assumes "keyed (db_requests db)" and "r \<in> set (db_requests db)" and "\<not> IsTerminal (jr_JobState r)"
  shows "\<exists>db'. req_Cancel e dec now (NewQueryContextFromIDs (jr_UserID r) (jr_OrganizationID r)) (jr_ID r) db = (db', None) \<and>
    db_requests db' = map (\<lambda>x. if jr_ID x = jr_ID r then cancelled_row now x else x) (db_requests db)"
proof -
  let ?qc = "NewQueryContextFromIDs (jr_UserID r) (jr_OrganizationID r)"
  let ?p = "\<lambda>x. in_scope ?qc False x \<and> jr_ID x = jr_ID r \<and> jr_JobState x \<notin> set TerminalStates"
  have p: "?p x \<longleftrightarrow> x = r" if "x \<in> set (db_requests db)" for x
    using keyed_inj[OF assms(1) that assms(2)] own_scope[of r False] assms(3)
    by (auto simp: IsTerminal_def TerminalStates_def)
  have one: "filter ?p (db_requests db) = [r]"
  proof -
    have "filter ?p (db_requests db) = filter (\<lambda>x. jr_ID x = jr_ID r \<and> x = r) (db_requests db)"
      by (rule filter_cong[OF refl]) (use p in auto)
    also have "\<dots> = [r]" using assms(1,2) by (intro filter_single) (auto simp: keyed_def)
    finally show ?thesis .
  qed
  define rows where "rows = map (\<lambda>x. if jr_ID x = jr_ID r then cancelled_row now x else x) (db_requests db)"
  have upd: "update_rows ?p (cancelled_row now) (db_requests db) = rows"
    unfolding update_rows_def rows_def
    by (rule map_cong[OF refl]) (use p keyed_inj[OF assms(1) _ assms(2)] in auto)
  have req: "op_update (e_requests e) ?p (cancelled_row now) (db_requests db) = Ok (rows, 1)"
    using update_total[of ?p "cancelled_row now" "db_requests db"]
      requests.update_ok[of ?p "cancelled_row now" "db_requests db"] upd one by fastforce
  have body: "cancel_body e now ?qc (jr_ID r) (loaded dec r) db \<noteq> Err err" for err
    by (auto simp: cancel_body_def update_requests_def req[unfolded cancelled_row_def] update_execs_def update_execs_up
        split: sum.splits prod.splits)
  then obtain db' where b: "cancel_body e now ?qc (jr_ID r) (loaded dec r) db = Ok db'"
    by (meson sum.exhaust)
  have "db_requests db' = rows" using b
    by (auto simp: cancel_body_def update_requests_def req[unfolded cancelled_row_def] update_execs_def
        split: sum.splits prod.splits if_splits)
  moreover
  have "jr_JobState (loaded dec r) = jr_JobState r" by (simp add: loaded_def Let_def)
  ultimately show ?thesis using assms commit_total[of "cancel_body e now ?qc (jr_ID r) (loaded dec r)", OF b]
    by (simp add: req_Cancel_def req_Get_own rows_def)
qed

lemma children_up:
  assumes "parentID \<noteq> []"
  shows "\<exists>cs. FindActiveChildRequests e parentID db = Ok cs \<and>
    set cs = {r \<in> set (db_requests db). jr_ParentID r = parentID \<and> jr_CascadeCancel r \<and> \<not> IsTerminal (jr_JobState r)}"
proof -
  let ?p = "\<lambda>r. jr_ParentID r = parentID \<and> jr_CascadeCancel r \<and> jr_JobState r \<notin> set TerminalStates"
  obtain cs where cs: "op_find (e_requests e) ?p (\<lambda>_. 0) (db_requests db) = Ok cs" using find_total by blast
  then have "set cs = set (filter ?p (db_requests db))"
    using requests.find_ok[of ?p "\<lambda>_. 0"] same_rows_set by blast
  with cs show ?thesis using assms
    by (auto simp: FindActiveChildRequests_def IsTerminal_def TerminalStates_def)
qed

end

lemma publish_db [simp]: "jm_db (fst (publish v ev w)) = jm_db w"
  and publish_keeps: "x \<in> set (jm_events w) \<Longrightarrow> x \<in> set (jm_events (fst (publish v ev w)))"
  and publish_ok: "v_publish v ev \<Longrightarrow> ev \<in> set (jm_events (fst (publish v ev w)))"
  by (simp_all add: publish_def)

lemma fire_db [simp]: "jm_db (fireJobRequestChange v req w) = jm_db w"
  and fire_keeps: "x \<in> set (jm_events w) \<Longrightarrow> x \<in> set (jm_events (fireJobRequestChange v req w))"
  by (simp_all add: fireJobRequestChange_def publish_keeps)

lemma cancelJob_db [simp]: "jm_db (fst (cancelJob v qc req w)) = jm_db w"
  and cancelJob_keeps: "x \<in> set (jm_events w) \<Longrightarrow> x \<in> set (jm_events (fst (cancelJob v qc req w)))"
  and cancelJob_ok: "v_publish v (ExecutionEvent (jr_ID req) (jr_JobExecutionID req) CANCELLED) \<Longrightarrow>
    ExecutionEvent (jr_ID req) (jr_JobExecutionID req) CANCELLED \<in> set (jm_events (fst (cancelJob v qc req w)))"
  by (auto simp: cancelJob_def publish_def)

text \<open>A running request that was visited was asked to stop, unless the message was lost.\<close>

definition stop :: "JobRequest \<Rightarrow> jm_event" where
  "stop r = ExecutionEvent (jr_ID r) (jr_JobExecutionID r) CANCELLED"

definition stopped :: "jm_env \<Rightarrow> JobRequest list \<Rightarrow> string set \<Rightarrow> JobManager \<Rightarrow> bool" where
  "stopped v rows visited w \<longleftrightarrow> (\<forall>r \<in> set rows. jr_ID r \<in> visited \<longrightarrow> \<not> waits (jr_JobState r) \<longrightarrow>
     v_publish v (stop r) \<longrightarrow> stop r \<in> set (jm_events w))"

definition handled :: "jm_env \<Rightarrow> JobRequest list \<Rightarrow> string set \<Rightarrow> JobManager \<Rightarrow> bool" where
  "handled v rows visited w \<longleftrightarrow>
     db_requests (jm_db w) = map (after (v_now v) visited) rows \<and> stopped v rows visited w"

lemma after_insert:
  assumes "keyed rows" and "c \<in> set rows" and "jr_ID c \<notin> visited" and "waits (jr_JobState c)"
  shows "map ((\<lambda>x. if jr_ID x = jr_ID c then cancelled_row now x else x) \<circ> after now visited) rows =
    map (after now (insert (jr_ID c) visited)) rows"
proof (rule map_cong[OF refl])
  fix r assume "r \<in> set rows"
  then have "jr_ID r = jr_ID c \<Longrightarrow> r = c" using keyed_inj assms by blast
  then show "((\<lambda>x. if jr_ID x = jr_ID c then cancelled_row now x else x) \<circ> after now visited) r =
    after now (insert (jr_ID c) visited) r"
    using assms by (auto simp: after_def)
qed

lemma after_insert_running:
  assumes "keyed rows" and "c \<in> set rows" and "\<not> waits (jr_JobState c)"
  shows "map (after now (insert (jr_ID c) visited)) rows = map (after now visited) rows"
  by (rule map_cong[OF refl]) (use assms keyed_inj in \<open>fastforce simp: after_def\<close>)

lemma keyed_after: "keyed rows \<Longrightarrow> keyed (map (after now visited) rows)"
  by (simp add: keyed_def comp_def image_image)

lemma handled_child:
  assumes up: "reliable_engine (v_engine v)" and rows: "keyed rows" "c \<in> set rows"
    and c: "jr_ID c \<notin> visited" and w: "handled v rows visited w"
  shows "handled v rows (insert (jr_ID c) visited) (cancel_child v c w)"
proof -
  have inj: "r = c" if "r \<in> set rows" "jr_ID r = jr_ID c" for r using keyed_inj[OF rows(1) that(1) rows(2)] that by simp
  have db: "db_requests (jm_db w) = map (after (v_now v) visited) rows" and st: "stopped v rows visited w"
    using w by (simp_all add: handled_def)
  show ?thesis
  proof (cases "waits (jr_JobState c)")
    case True
    have k: "keyed (db_requests (jm_db w))" using keyed_after rows db by simp
    have "after (v_now v) visited c = c" using c by (simp add: after_def)
    then have "c \<in> set (db_requests (jm_db w))" using rows(2) unfolding db set_map by (metis imageI)
    from reliable_engine.cancel_own[OF up k this waits_not_terminal[OF True], of "v_dec v" "v_now v"]
    obtain db' where db': "req_Cancel (v_engine v) (v_dec v) (v_now v)
        (NewQueryContextFromIDs (jr_UserID c) (jr_OrganizationID c)) (jr_ID c) (jm_db w) = (db', None)"
      "db_requests db' = map (\<lambda>x. if jr_ID x = jr_ID c then cancelled_row (v_now v) x else x) (db_requests (jm_db w))"
      by (elim exE conjE) (rule that)
    have "db_requests db' = map (after (v_now v) (insert (jr_ID c) visited)) rows"
      unfolding db'(2) db map_map by (rule after_insert[OF rows c True])
    moreover have "stopped v rows (insert (jr_ID c) visited) (fireJobRequestChange v (c\<lparr>jr_JobState := CANCELLED\<rparr>) (w\<lparr>jm_db := db'\<rparr>))"
      using st True inj fire_keeps[of _ "w\<lparr>jm_db := db'\<rparr>"] unfolding stopped_def by auto
    ultimately show ?thesis using True db'(1) by (simp add: cancel_child_def handled_def)
  next
    case False
    let ?w = "fst (cancelJob v (NewQueryContextFromIDs (jr_UserID c) (jr_OrganizationID c)) c w)"
    have "stopped v rows (insert (jr_ID c) visited) ?w"
      using st inj cancelJob_ok cancelJob_keeps unfolding stopped_def stop_def by blast
    then show ?thesis using False db after_insert_running[OF rows False, of "v_now v" visited]
      by (simp add: cancel_child_def handled_def)
  qed
qed

lemma handled_children:
  assumes up: "reliable_engine (v_engine v)" and rows: "keyed rows"
  shows "set cs \<subseteq> set rows \<Longrightarrow> handled v rows visited w \<Longrightarrow>
    handled v rows (visited \<union> jr_ID ` set cs) (fst (cancel_children v cs visited w)) \<and>
    fst (snd (cancel_children v cs visited w)) = visited \<union> jr_ID ` set cs \<and>
    set (snd (snd (cancel_children v cs visited w))) = jr_ID ` set cs - visited"
proof (induction cs arbitrary: visited w)
  case (Cons c cs)
  show ?case
  proof (cases "jr_ID c \<in> visited")
    case True
    then show ?thesis using Cons.IH[of visited w] Cons.prems by (simp add: insert_absorb)
  next
    case False
    have "handled v rows (insert (jr_ID c) visited) (cancel_child v c w)"
      using handled_child[OF up rows _ False] Cons.prems by simp
    from Cons.IH[OF _ this] Cons.prems show ?thesis using False by (auto split: prod.splits)
  qed
qed simp

text \<open>The search: \<open>D\<close> holds the requests taken from the queue with their depths.  A request in \<open>D\<close> above
  the bound had all of its children queued, no deeper than one level below.\<close>

definition searched :: "JobRequest list \<Rightarrow> string \<Rightarrow> string set \<Rightarrow> (string \<times> nat) list \<Rightarrow> (string \<times> nat) set \<Rightarrow> bool" where
  "searched rows rid0 visited queue D \<longleftrightarrow>
     (\<forall>(p, d) \<in> D. d < 20 \<longrightarrow> (\<forall>c. child rows p c \<longrightarrow> jr_ID c \<in> visited \<and> (\<exists>d' \<le> d + 1. (jr_ID c, d') \<in> D \<union> set queue))) \<and>
     (\<forall>(i, d) \<in> D \<union> set queue. i \<noteq> [] \<and> descendant rows rid0 d i) \<and>
     (\<forall>i \<in> visited. \<exists>c d. child rows (jr_ParentID c) c \<and> jr_ID c = i \<and> (jr_ParentID c, d) \<in> D \<and> (i, d + 1) \<in> D \<union> set queue)"

definition layered :: "(string \<times> nat) list \<Rightarrow> (string \<times> nat) set \<Rightarrow> bool" where
  "layered queue D \<longleftrightarrow> sorted (map snd queue) \<and> (\<forall>x \<in> D. \<forall>y \<in> set queue. snd x \<le> snd y) \<and>
     (\<forall>x \<in> set queue. \<forall>y \<in> set queue. snd y \<le> snd x + 1)"

lemma layered_step:
  assumes "layered ((p, d) # queue) D" and "\<forall>x \<in> set new. snd x = d + 1"
  shows "layered (queue @ new) (insert (p, d) D)"
proof -
  have q: "d \<le> snd x \<and> snd x \<le> d + 1" if "x \<in> set queue" for x
    using assms(1) that by (auto simp: layered_def)
  have qn: "d \<le> snd x \<and> snd x \<le> d + 1" if "x \<in> set (queue @ new)" for x
    using q[of x] assms(2) that by (cases x) auto
  have D: "snd y \<le> d" if "y \<in> insert (p, d) D" for y using assms(1) that by (auto simp: layered_def)
  have "sorted (map snd new)" using assms(2) by (auto simp: sorted_iff_nth_mono)
  then have "sorted (map snd (queue @ new))" using assms q by (auto simp: layered_def sorted_append)
  moreover have "snd x \<le> snd y" if "x \<in> insert (p, d) D" "y \<in> set (queue @ new)" for x y
    using D[OF that(1)] qn[OF that(2)] by simp
  moreover have "snd y \<le> snd x + 1" if "x \<in> set (queue @ new)" "y \<in> set (queue @ new)" for x y
    using qn[OF that(1)] qn[OF that(2)] by simp
  ultimately show ?thesis unfolding layered_def by blast
qed

lemma children_rows:
  assumes "handled v rows visited w"
    and "set cs = {r \<in> set (db_requests (jm_db w)). jr_ParentID r = p \<and> jr_CascadeCancel r \<and> \<not> IsTerminal (jr_JobState r)}"
  shows "child rows p c \<Longrightarrow> jr_ID c \<notin> visited \<Longrightarrow> c \<in> set cs" and "c \<in> set cs \<Longrightarrow> child rows p c"
  using assms waits_not_terminal
  by (auto simp: handled_def child_def after_def cancelled_row_def IsTerminal_def image_iff split: if_splits)

lemma searchedD:
  assumes "searched rows rid0 visited queue D"
  shows "(p, d) \<in> D \<Longrightarrow> d < 20 \<Longrightarrow> child rows p c \<Longrightarrow>
      jr_ID c \<in> visited \<and> (\<exists>d' \<le> d + 1. (jr_ID c, d') \<in> D \<union> set queue)"
    and "(i, d) \<in> D \<union> set queue \<Longrightarrow> i \<noteq> [] \<and> descendant rows rid0 d i"
    and "i \<in> visited \<Longrightarrow> \<exists>c d. child rows (jr_ParentID c) c \<and> jr_ID c = i \<and> (jr_ParentID c, d) \<in> D \<and> (i, d + 1) \<in> D \<union> set queue"
  using assms unfolding searched_def by blast+

lemma searchedI:
  assumes "\<And>p d c. (p, d) \<in> D \<Longrightarrow> d < 20 \<Longrightarrow> child rows p c \<Longrightarrow>
      jr_ID c \<in> visited \<and> (\<exists>d' \<le> d + 1. (jr_ID c, d') \<in> D \<union> set queue)"
    and "\<And>i d. (i, d) \<in> D \<union> set queue \<Longrightarrow> i \<noteq> [] \<and> descendant rows rid0 d i"
    and "\<And>i. i \<in> visited \<Longrightarrow> \<exists>c d. child rows (jr_ParentID c) c \<and> jr_ID c = i \<and> (jr_ParentID c, d) \<in> D \<and> (i, d + 1) \<in> D \<union> set queue"
  shows "searched rows rid0 visited queue D"
  using assms unfolding searched_def by blast

lemma searched_step:
  assumes s: "searched rows rid0 visited ((p, d) # queue) D" and l: "layered ((p, d) # queue) D"
    and rows: "keyed rows" and d: "d < 20"
    and new: "\<And>c. child rows p c \<Longrightarrow> jr_ID c \<notin> visited \<Longrightarrow> c \<in> set cs" and cs: "\<And>c. c \<in> set cs \<Longrightarrow> child rows p c"
    and ids: "set ids = jr_ID ` set cs - visited"
  shows "searched rows rid0 (visited \<union> jr_ID ` set cs) (queue @ map (\<lambda>i. (i, d + 1)) ids) (insert (p, d) D)"
proof (rule searchedI)
  let ?S = "insert (p, d) D \<union> set (queue @ map (\<lambda>i. (i, d + 1)) ids)"
  have old: "x \<in> ?S" if "x \<in> D \<union> set ((p, d) # queue)" for x using that by auto
  have fresh: "(jr_ID c, d + 1) \<in> ?S" if "c \<in> set cs" "jr_ID c \<notin> visited" for c using that ids by auto
  fix q b c assume q: "(q, b) \<in> insert (p, d) D" "b < 20" "child rows q c"
  show "jr_ID c \<in> visited \<union> jr_ID ` set cs \<and> (\<exists>d' \<le> b + 1. (jr_ID c, d') \<in> ?S)"
  proof (cases "(q, b) \<in> D")
    case True
    then show ?thesis using searchedD(1)[OF s True q(2,3)] old by blast
  next
    case False
    then have qb: "q = p" "b = d" using q(1) by auto
    show ?thesis
    proof (cases "jr_ID c \<in> visited")
      case True
      from searchedD(3)[OF s this] obtain c' d' where c': "child rows (jr_ParentID c') c'" "jr_ID c' = jr_ID c"
        "(jr_ParentID c', d') \<in> D" "(jr_ID c, d' + 1) \<in> D \<union> set ((p, d) # queue)" by blast
      have "d' \<le> d" using l c'(3) by (fastforce simp: layered_def)
      then show ?thesis using True qb old[OF c'(4)] by (intro conjI exI[of _ "d' + 1"]) auto
    next
      case False
      then have "c \<in> set cs" using new q(3) qb by simp
      then show ?thesis using fresh[OF _ False] qb by blast
    qed
  qed
next
  fix i b assume "(i, b) \<in> insert (p, d) D \<union> set (queue @ map (\<lambda>i. (i, d + 1)) ids)"
  then consider "(i, b) \<in> D \<union> set ((p, d) # queue)" | "i \<in> jr_ID ` set cs" "b = Suc d" using ids by auto
  then show "i \<noteq> [] \<and> descendant rows rid0 b i"
  proof cases
    case 2
    then obtain c where c: "c \<in> set cs" "i = jr_ID c" by blast
    have "descendant rows rid0 (Suc d) (jr_ID c)" using searchedD(2)[OF s, of p d] cs[OF c(1)] by (auto intro: descendant.step)
    moreover have "i \<noteq> []" using rows cs[OF c(1)] c(2) unfolding keyed_def child_def by (metis imageI)
    ultimately show ?thesis using 2 c by simp
  qed (rule searchedD(2)[OF s])
next
  fix i assume "i \<in> visited \<union> jr_ID ` set cs"
  then consider "i \<in> visited" | c where "c \<in> set cs" "i = jr_ID c" "i \<notin> visited" by blast
  then show "\<exists>c b. child rows (jr_ParentID c) c \<and> jr_ID c = i \<and> (jr_ParentID c, b) \<in> insert (p, d) D \<and>
      (i, b + 1) \<in> insert (p, d) D \<union> set (queue @ map (\<lambda>i. (i, d + 1)) ids)"
  proof cases
    case 1
    from searchedD(3)[OF s 1] show ?thesis by fastforce
  next
    case 2
    have "jr_ParentID c = p" using cs[OF 2(1)] by (simp add: child_def)
    then show ?thesis using cs[OF 2(1)] 2 ids by (intro exI[of _ c] exI[of _ d]) auto
  qed
qed

lemma searched_skip:
  assumes "searched rows rid0 visited ((p, d) # queue) D" and "20 \<le> d"
  shows "searched rows rid0 visited queue (insert (p, d) D)"
  using assms by (intro searchedI) (use searchedD[OF assms(1)] in force)+

lemma cascade_handled:
  assumes rows: "keyed rows"
  shows "reliable_engine (v_engine v) \<Longrightarrow> handled v rows visited w \<Longrightarrow> searched rows rid0 visited queue D \<Longrightarrow>
    layered queue D \<Longrightarrow>
    \<exists>visited' D'. handled v rows visited' (cascade v queue visited w) \<and> searched rows rid0 visited' [] D' \<and>
      D \<union> set queue \<subseteq> D'"
proof (induction v queue visited w arbitrary: D rule: cascade.induct)
  case (1 v visited w)
  then show ?case by auto
next
  case (2 v p d queue visited w)
  show ?case
  proof (cases "20 \<le> d")
    case True
    show ?thesis using "2.IH"(1)[OF True "2.prems"(1,2) searched_skip[OF "2.prems"(3) True] layered_step[OF "2.prems"(4), of "[]", simplified]]
      True by auto
  next
    case False
    have "p \<noteq> []" using searchedD(2)[OF "2.prems"(3), of p d] by simp
    from reliable_engine.children_up[OF "2.prems"(1) this, of "jm_db w"] obtain cs where
      cs: "FindActiveChildRequests (v_engine v) p (jm_db w) = Ok cs"
      "set cs = {r \<in> set (db_requests (jm_db w)). jr_ParentID r = p \<and> jr_CascadeCancel r \<and> \<not> IsTerminal (jr_JobState r)}"
      by (elim exE conjE) (rule that)
    note rs = children_rows[OF "2.prems"(2) cs(2)]
    define r where "r = cancel_children v cs visited w"
    have "set cs \<subseteq> set rows" using rs(2) by (auto simp: child_def)
    note h = handled_children[OF "2.prems"(1) rows this "2.prems"(2), folded r_def]
    have h1: "handled v rows (fst (snd r)) (fst r)" using h by simp
    have h2: "searched rows rid0 (fst (snd r)) (queue @ map (\<lambda>i. (i, d + 1)) (snd (snd r))) (insert (p, d) D)"
      using searched_step[OF "2.prems"(3,4) rows _ rs, of "snd (snd r)"] False h by simp
    have h3: "layered (queue @ map (\<lambda>i. (i, d + 1)) (snd (snd r))) (insert (p, d) D)"
      by (rule layered_step[OF "2.prems"(4)]) simp
    from "2.IH"(3)[OF False cs(1) r_def "2.prems"(1) h1 h2 h3] show ?thesis
      using False cs(1) by (auto simp: r_def[symmetric] Let_def)
  qed
qed

lemma descendant_searched:
  assumes s: "searched rows rid0 visited [] D" and start: "(rid0, 0) \<in> D"
  shows "descendant rows rid0 n i \<Longrightarrow> n \<le> 20 \<Longrightarrow> \<exists>d \<le> n. (i, d) \<in> D"
proof (induction rule: descendant.induct)
  case (step n p c)
  then obtain d where d: "d \<le> n" "(p, d) \<in> D" by auto
  have "d < 20" using d(1) step.prems by simp
  from searchedD(1)[OF s d(2) this step.hyps(2)] obtain d' where "d' \<le> d + 1" "(jr_ID c, d') \<in> D" by auto
  then show ?case using d(1) by (intro exI[of _ d']) simp
qed (use start in auto)

lemma cascade_start:
  "searched rows rid0 {} [(rid0, 0)] {}" if "rid0 \<noteq> []"
  using that by (intro searchedI) (auto intro: descendant.self)

lemma cascade_result:
  assumes "reliable_engine (v_engine v)" and "keyed (db_requests (jm_db w))" and "rid0 \<noteq> []"
  obtains visited where "handled v (db_requests (jm_db w)) visited (cascadeCancelToChildren v rid0 w)"
    and "\<And>i. i \<in> visited \<Longrightarrow> \<exists>n. 0 < n \<and> descendant (db_requests (jm_db w)) rid0 n i"
    and "\<And>n i. descendant (db_requests (jm_db w)) rid0 n i \<Longrightarrow> 0 < n \<Longrightarrow> n \<le> 20 \<Longrightarrow> i \<in> visited"
proof -
  let ?rows = "db_requests (jm_db w)"
  have "handled v ?rows {} w" by (simp add: handled_def stopped_def after_def map_idI)
  from cascade_handled[OF assms(2,1) this cascade_start[OF assms(3)]]
  obtain visited D where v: "handled v ?rows visited (cascadeCancelToChildren v rid0 w)"
    "searched ?rows rid0 visited [] D" "(rid0, 0) \<in> D"
    by (auto simp: layered_def cascadeCancelToChildren_def)
  show ?thesis
  proof (rule that[OF v(1)])
    fix i assume "i \<in> visited"
    from searchedD(3)[OF v(2) this] obtain d where "(i, d + 1) \<in> D" by auto
    then show "\<exists>n. 0 < n \<and> descendant ?rows rid0 n i" using searchedD(2)[OF v(2), of i "d + 1"] by auto
  next
    fix n i assume "descendant ?rows rid0 n i" "0 < n" "n \<le> 20"
    then show "i \<in> visited"
    proof (cases rule: descendant.cases)
      case (step m p c)
      from descendant_searched[OF v(2,3) step(3)] step \<open>n \<le> 20\<close> obtain d where "d \<le> m" "(p, d) \<in> D" by auto
      then show ?thesis using searchedD(1)[OF v(2), of p d c] step \<open>n \<le> 20\<close> by auto
    qed simp
  qed
qed


definition sample_env :: jm_env where
  "sample_env = \<lparr>v_engine = mem_engine, v_dec = (\<lambda>_ _. None), v_now = 5, v_newid = ''n1'', v_newkey = ''k1'',
     v_publish = (\<lambda>_. True), v_definition = (\<lambda>_ _. Ok (NewJobDefinition ''job'')),
     v_definition_by_type = (\<lambda>_ _. Ok (NewJobDefinition ''job'')), v_set_disabled = (\<lambda>_. True),
     v_quota = (\<lambda>_ _. None), v_cron = (\<lambda>_. None), v_format = (\<lambda>_. [])\<rparr>"

definition sample_child :: "string \<Rightarrow> string \<Rightarrow> JobRequest" where
  "sample_child rid parent = sample_request_row\<lparr>jr_ID := rid, jr_ParentID := parent, jr_CascadeCancel := True,
     jr_JobState := PENDING, jr_JobExecutionID := []\<rparr>"

definition sample_manager :: JobManager where
  "sample_manager = \<lparr>jm_db = sample_db\<lparr>db_requests := [sample_child ''c'' ''p'', sample_child ''g'' ''c'']\<rparr>,
     jm_stats = newRegistry, jm_events = [], jm_tasks = []\<rparr>"


end
