(* ===== verification/Job_Submission.thy ===== *)
theory Job_Submission
  imports Job_Manager
begin

text \<open>
  How requests come into being and end in the manager of jobs (\<open>queen/manager/job_manager.go\<close>): saving
  with the guard against forks, cron schedules, submission from templates, finalization, and the task
  that forks a job (\<open>queen/tasklet/job_fork_tasklet.go\<close>).  None is the panic of a malformed cron
  expression.  The clock stands still during a call, and a call makes at most one new id.
\<close>

subsection \<open>Saving a request\<close>

definition def_key :: "JobDefinition \<Rightarrow> JobSummary" where
  "def_key jd =
     \<lparr>sm_ID = jd_ID jd, sm_JobType = jd_JobType jd, sm_JobVersion = jd_SemVersion jd, sm_JobState = NoState,
      sm_OrganizationID = jd_OrganizationID jd, sm_UserID = jd_UserID jd, sm_JobPriority = 0,
      sm_ScheduledAt = zero_time, sm_CreatedAt = zero_time\<rparr>"

definition DisableJobDefinition :: "jm_env \<Rightarrow> QueryContext \<Rightarrow> string \<Rightarrow> JobManager \<Rightarrow> JobManager" where
  "DisableJobDefinition v qc did w =
     (if \<not> v_set_disabled v did then w
      else case v_definition v qc did of
             Inl _ \<Rightarrow> w
           | Inr jd \<Rightarrow> fst (publish v (DefinitionDisabled did)
                        (w\<lparr>jm_stats := SetDisabled (def_key jd) True (jm_stats w)\<rparr>)))"

text \<open>The number of parameters that name a type the request was forked from; None when it is its own.\<close>

fun fork_loop :: "string \<Rightarrow> NameTypeValue list \<Rightarrow> nat \<Rightarrow> nat option" where
  "fork_loop jobType [] n = Some n"
| "fork_loop jobType (p # ps) n =
     (if HasPrefix (nv_Name p) ''ParentJobType''
      then (if nv_Value p = jobType then None else fork_loop jobType ps (n + 1))
      else fork_loop jobType ps n)"

text \<open>What \<open>Save\<close> makes of the request in memory, also when a statement fails.\<close>

definition saved_request :: "jm_env \<Rightarrow> QueryContext \<Rightarrow> JobRequest \<Rightarrow> DB \<Rightarrow> JobRequest" where
  "saved_request v qc req db =
     (case request_ValidateBeforeSave (v_dec v) req of
        Inl _ \<Rightarrow> req
      | Inr req1 \<Rightarrow>
          (let req2 = req1\<lparr>jr_OrganizationID := qc_GetOrganizationID qc, jr_UserID := qc_GetUserID qc\<rparr>;
               key = (if jr_UserKey req2 = [] then v_newkey v else jr_UserKey req2)
           in if jr_ID req2 = [] then
                req2\<lparr>jr_ID := v_newid v, jr_CreatedAt := v_now v, jr_UpdatedAt := v_now v, jr_JobState := PENDING,
                     jr_UserKey := key\<rparr>
              else case req_Get (v_engine v) (v_dec v) qc (jr_ID req2) db of
                     Inl _ \<Rightarrow> req2
                   | Inr old \<Rightarrow>
                       if \<not> request_Editable old (qc_GetUserID qc) (qc_GetOrganizationID qc) then req2
                       else req2\<lparr>jr_UpdatedAt := v_now v, jr_UserKey := key\<rparr>))"

definition prepared :: "jm_env \<Rightarrow> JobDefinition \<Rightarrow> JobRequest \<Rightarrow> JobRequest option" where
  "prepared v jd req =
     (let req = req\<lparr>jr_JobState := PENDING, jr_JobDefinitionID := jd_ID jd, jr_JobExecutionID := [],
                   jr_ErrorCode := [], jr_ErrorMessage := [], jr_ScheduleAttempts := 0, jr_Retried := 0,
                   jr_CreatedAt := v_now v, jr_UpdatedAt := v_now v\<rparr>
      in case UpdateUserKeyFromScheduleIfCronJob (v_cron v) (v_format v) (v_now v) jd req of
           None \<Rightarrow> None
         | Some req \<Rightarrow>
             (case UpdateScheduledAtFromCronTrigger (v_cron v) (v_format v) (v_now v) jd req of
                None \<Rightarrow> None
              | Some (req, updated) \<Rightarrow>
                  Some (if \<not> updated \<and> (case jr_ScheduledAt req of
                                           None \<Rightarrow> True
                                         | Some t \<Rightarrow> unix_secs t < unix_secs (v_now v) - 1)
                        then req\<lparr>jr_ScheduledAt := Some (v_now v)\<rparr> else req)))"

definition SaveJobRequest ::
  "jm_env \<Rightarrow> QueryContext \<Rightarrow> JobRequest \<Rightarrow> JobManager \<Rightarrow> (JobManager \<times> JobRequest \<times> repo_error option) option" where
  "SaveJobRequest v qc request w =
     (let request = request\<lparr>jr_UserID := qc_GetUserID qc, jr_OrganizationID := qc_GetOrganizationID qc\<rparr>
      in case GetJobDefinitionByType v qc (jr_JobType request) (jr_JobVersion request) of
           Inl err \<Rightarrow> Some (w, request, Some err)
         | Inr jd \<Rightarrow>
             (case v_quota v qc request of
                Some err \<Rightarrow>
                  Some (if jd_CronTrigger jd \<noteq> [] then DisableJobDefinition v qc (jd_ID jd) w else w, request, Some err)
              | None \<Rightarrow>
                  (case prepared v jd request of
                     None \<Rightarrow> None
                   | Some request \<Rightarrow>
                       (case fork_loop (jr_JobType request) (jr_Params request) 0 of
                          None \<Rightarrow> Some (w, request, Some ValidationError)
                        | Some forkedCount \<Rightarrow>
                            if forkedCount > 10 then Some (w, request, Some ValidationError)
                            else
                              (let saved = saved_request v qc request (jm_db w)
                               in case req_Save (v_engine v) (v_dec v) (v_newid v) (v_newkey v) (v_now v) qc request (jm_db w) of
                                    (db, Some err) \<Rightarrow> Some (w\<lparr>jm_db := db\<rparr>, saved, Some err)
                                  | (db, None) \<Rightarrow>
                                      (let w = fireJobRequestChange v saved (w\<lparr>jm_db := db\<rparr>)
                                       in Some (w\<lparr>jm_stats := reg_Pending (request_summary saved) False (jm_stats w)\<rparr>,
                                                saved, None)))))))"

subsection \<open>Cron schedules\<close>

text \<open>The request that ended is given with whether it is a \<open>JobRequestInfo\<close>, which carries the same fields but
  whose parameters are read back.  Parameters that cannot be parsed become nil, and errors of adding
  are dropped.\<close>

fun copy_params :: "(string \<Rightarrow> string \<Rightarrow> any option) \<Rightarrow> NameTypeValue list \<Rightarrow> JobRequest \<Rightarrow> JobRequest" where
  "copy_params dec [] req = req"
| "copy_params dec (p # ps) req =
     copy_params dec ps
       (case AddParam (nv_Name p) (case GetParsedValue dec p of Inl _ \<Rightarrow> AnyNil | Inr x \<Rightarrow> x) req of
          Inl _ \<Rightarrow> req
        | Inr req' \<Rightarrow> req')"

definition inherited :: "jm_env \<Rightarrow> QueryContext \<Rightarrow> (JobRequest \<times> bool) option \<Rightarrow> JobRequest \<Rightarrow> DB \<Rightarrow> JobRequest" where
  "inherited v qc oldReq request db =
     (case oldReq of
        None \<Rightarrow> request
      | Some (old, info) \<Rightarrow>
          (let params =
                 (if \<not> info then jr_Params old
                  else case req_Get (v_engine v) (v_dec v) qc (jr_ID old) db of
                         Inl _ \<Rightarrow> []
                       | Inr full \<Rightarrow> jr_Params full)
           in (copy_params (v_dec v) params request)
                \<lparr>jr_ParentID := jr_ID old, jr_UserID := jr_UserID old, jr_OrganizationID := jr_OrganizationID old\<rparr>))"

definition scheduleCronRequest ::
  "jm_env \<Rightarrow> JobDefinition \<Rightarrow> (JobRequest \<times> bool) option \<Rightarrow> JobManager \<Rightarrow> (JobManager \<times> repo_error option) option" where
  "scheduleCronRequest v jd oldReq w =
     (case NewJobRequestFromDefinition (v_cron v) (v_format v) (v_now v) jd of
        Inl CronMalformed \<Rightarrow> None
      | Inl _ \<Rightarrow> Some (w, Some PlainError)
      | Inr request \<Rightarrow>
          if sint (GetExecutionCount (request_summary request) (jm_stats w)) > 0 then Some (w, None)
          else
            (let qc = NewQueryContextFromIDs (jr_UserID request) (jr_OrganizationID request);
                 request = inherited v qc oldReq request (jm_db w)
             in if jr_UserKey request \<noteq> [] \<and>
                   is_ok (req_GetByUserKey (v_engine v) (v_dec v) (WithAdmin qc) (jr_UserKey request) (jm_db w))
                then Some (w, None)
                else map_option (\<lambda>(w, _, err). (w, err)) (SaveJobRequest v qc request w)))"

text \<open>Scheduling the next request of a cron job when one ends.\<close>

definition next_cron ::
  "jm_env \<Rightarrow> QueryContext \<Rightarrow> string \<Rightarrow> string \<Rightarrow> (JobRequest \<times> bool) \<Rightarrow> JobManager \<Rightarrow>
   (JobManager \<times> repo_error option) option" where
  "next_cron v qc jobType version req w =
     (case GetJobDefinitionByType v qc jobType version of
        Inl err \<Rightarrow> Some (w, Some err)
      | Inr jd \<Rightarrow>
          (case GetCronScheduleTimeAndUserKey (v_cron v) (v_format v) (v_now v) jd of
             None \<Rightarrow> None
           | Some (None, _) \<Rightarrow> Some (w, None)
           | Some (Some _, _) \<Rightarrow> scheduleCronRequest v jd (Some req) w))"

definition UpdateJobRequestState ::
  "jm_env \<Rightarrow> QueryContext \<Rightarrow> (JobRequest \<times> bool) \<Rightarrow> RequestState \<Rightarrow> RequestState \<Rightarrow> string \<Rightarrow> string \<Rightarrow> int \<Rightarrow> int \<Rightarrow> bool \<Rightarrow>
   JobManager \<Rightarrow> (JobManager \<times> repo_error option) option" where
  "UpdateJobRequestState v qc req oldState newState errorMessage errorCode scheduleDelay retried reverted w =
     (case UpdateJobState (v_engine v) (v_newkey v) (v_now v) (jr_ID (fst req)) oldState newState errorMessage errorCode
             scheduleDelay retried (jr_PausedCount (fst req)) (jm_db w) of
        (db, err) \<Rightarrow>
          (let w = w\<lparr>jm_db := db\<rparr>
           in if newState = PENDING
              then Some (w\<lparr>jm_stats := reg_Pending (request_summary (fst req)) reverted (jm_stats w)\<rparr>, err)
              else if IsTerminal newState \<and> jr_CronTriggered (fst req)
              then next_cron v qc (jr_JobType (fst req)) (jr_JobVersion (fst req)) req w
              else Some (w, err)))"

definition jm_Finalize ::
  "jm_env \<Rightarrow> QueryContext \<Rightarrow> (JobRequest \<times> bool) \<Rightarrow> JobExecution \<Rightarrow> RequestState \<Rightarrow> int \<Rightarrow> int \<Rightarrow> JobManager \<Rightarrow>
   (JobManager \<times> repo_error option) option" where
  "jm_Finalize v qc req je oldState scheduleDelay retried w =
     (let lastRequestState = LastJobStatus (request_summary (fst req)) (jm_stats w);
          elapsed = ElapsedMillis (v_now v) je;
          forkedJob = list_ex (\<lambda>p. nv_Name p = ''ForkedJob'' \<and> nv_Value p = ''true'') (jr_Params (fst req))
      in case FinalizeJobRequestAndExecutionState (v_engine v) (v_newkey v) (v_now v) (je_ID je) oldState (je_JobState je)
                (je_ErrorMessage je) (je_ErrorCode je) (job_ExecutionCostSecs (v_now v) je) scheduleDelay retried
                (jr_PausedCount (fst req)) (jm_db w) of
           (db, err) \<Rightarrow>
             (case (if Failed (jr_JobState (fst req)) then reg_Failed (exec_summary je) elapsed (jm_stats w)
                    else if Paused (jr_JobState (fst req)) then reg_Paused (exec_summary je) elapsed (jm_stats w)
                    else reg_Succeeded (exec_summary je) elapsed (jm_stats w)) of
                None \<Rightarrow> None
              | Some st \<Rightarrow>
                  (let w = w\<lparr>jm_db := db, jm_stats := st,
                            jm_tasks := (if forkedJob then jm_tasks w else Notify (jr_ID (fst req)) lastRequestState # jm_tasks w)\<rparr>
                   in if err = None \<and> IsTerminal (je_JobState je) \<and> jr_CronTriggered (fst req)
                      then next_cron v qc (je_JobType je) (je_JobVersion je) req w
                      else Some (w, err))))"

subsection \<open>Other changes of a request\<close>

definition IncrementScheduleAttemptsForJobRequest ::
  "jm_env \<Rightarrow> JobRequest \<Rightarrow> int \<Rightarrow> int \<Rightarrow> string \<Rightarrow> JobManager \<Rightarrow> JobManager \<times> repo_error option" where
  "IncrementScheduleAttemptsForJobRequest v req scheduleSecs decrPriority errorMessage w =
     (let w = w\<lparr>jm_stats := SetAntsAvailable (request_summary req) False errorMessage (jm_stats w)\<rparr>
      in case IncrementScheduleAttempts (v_engine v) (v_now v) (jr_ID req) scheduleSecs decrPriority errorMessage (jm_db w) of
           (db, Some err) \<Rightarrow> (w\<lparr>jm_db := db\<rparr>, Some err)
         | (db, None) \<Rightarrow>
             (w\<lparr>jm_db := db, jm_stats := reg_Pending (request_summary req) False (jm_stats w)\<rparr>, None))"

definition TriggerJobRequest :: "jm_env \<Rightarrow> QueryContext \<Rightarrow> string \<Rightarrow> JobManager \<Rightarrow> JobManager \<times> repo_error option" where
  "TriggerJobRequest v qc rid w =
     (case Trigger (v_engine v) (v_newkey v) (v_now v) qc rid (jm_db w) of
        (db, Some err) \<Rightarrow> (w\<lparr>jm_db := db\<rparr>, Some err)
      | (db, None) \<Rightarrow>
          (case req_Get (v_engine v) (v_dec v) qc rid db of
             Inl _ \<Rightarrow> (w\<lparr>jm_db := db\<rparr>, None)
           | Inr req \<Rightarrow> (fireJobRequestChange v req (w\<lparr>jm_db := db\<rparr>), None)))"

definition resolveVersionToDefinitionID ::
  "jm_env \<Rightarrow> (string \<Rightarrow> bool) \<Rightarrow> QueryContext \<Rightarrow> string \<Rightarrow> string \<Rightarrow> (repo_error, string) result" where
  "resolveVersionToDefinitionID v is_ulid qc jobType version =
     (let by_type = (case GetJobDefinitionByType v qc jobType version of Inl err \<Rightarrow> Err err | Inr jd \<Rightarrow> Ok (jd_ID jd))
      in if is_ulid version then (case v_definition v qc version of Inl _ \<Rightarrow> by_type | Inr jd \<Rightarrow> Ok (jd_ID jd))
         else by_type)"

text \<open>The definition a restarted request is moved to; empty keeps the one it has.\<close>

definition restart_definition ::
  "jm_env \<Rightarrow> (string \<Rightarrow> bool) \<Rightarrow> QueryContext \<Rightarrow> string \<Rightarrow> bool \<Rightarrow> string \<Rightarrow> DB \<Rightarrow> (repo_error, string) result" where
  "restart_definition v is_ulid qc rid hard version db =
     (if version = ''latest'' \<or> (hard \<and> version = []) then
        (case req_Get (v_engine v) (v_dec v) qc rid db of
           Inl err \<Rightarrow> Err err
         | Inr req \<Rightarrow>
             (case GetJobDefinitionByType v qc (jr_JobType req) [] of
                Inl err \<Rightarrow> Err err
              | Inr latest \<Rightarrow> Ok (if jd_ID latest \<noteq> jr_JobDefinitionID req then jd_ID latest else [])))
      else if version \<noteq> [] then
        (case req_Get (v_engine v) (v_dec v) qc rid db of
           Inl err \<Rightarrow> Err err
         | Inr req \<Rightarrow> resolveVersionToDefinitionID v is_ulid qc (jr_JobType req) version)
      else Ok [])"

definition RestartJobRequest ::
  "jm_env \<Rightarrow> (string \<Rightarrow> bool) \<Rightarrow> QueryContext \<Rightarrow> string \<Rightarrow> bool \<Rightarrow> string \<Rightarrow> JobManager \<Rightarrow> JobManager \<times> repo_error option" where
  "RestartJobRequest v is_ulid qc rid hard version w =
     (case restart_definition v is_ulid qc rid hard version (jm_db w) of
        Inl err \<Rightarrow> (w, Some err)
      | Inr newJobDefinitionID \<Rightarrow>
          (case req_Restart (v_engine v) (v_now v) qc rid hard newJobDefinitionID (jm_db w) of
             (db, Some err) \<Rightarrow> (w\<lparr>jm_db := db\<rparr>, Some err)
           | (db, None) \<Rightarrow>
               (case req_Get (v_engine v) (v_dec v) qc rid db of
                  Inl _ \<Rightarrow> (w\<lparr>jm_db := db\<rparr>, None)
                | Inr req \<Rightarrow> (fireJobRequestChange v req (w\<lparr>jm_db := db\<rparr>), None))))"

definition CreateJobExecution ::
  "jm_env \<Rightarrow> (string \<Rightarrow> DB \<Rightarrow> int) \<Rightarrow> (nat \<Rightarrow> string) \<Rightarrow> (nat \<Rightarrow> nat \<Rightarrow> string) \<Rightarrow> JobExecution option \<Rightarrow> JobManager \<Rightarrow>
   JobManager \<times> JobExecution option \<times> repo_error option" where
  "CreateJobExecution v calcCost newids fresh jobExec w =
     (case exec_Save (v_engine v) calcCost newids fresh (v_now v) jobExec (jm_db w) of
        (db, saved, err) \<Rightarrow>
          (let w = w\<lparr>jm_db := db\<rparr>
           in (case saved of
                 Some je \<Rightarrow> if err = None then w\<lparr>jm_stats := reg_Started (v_now v) (exec_summary je) (jm_stats w)\<rparr> else w
               | None \<Rightarrow> w, saved, err)))"

definition ResetJobExecutionStateToReady :: "jm_env \<Rightarrow> JobExecution \<Rightarrow> JobManager \<Rightarrow> JobManager \<times> repo_error option" where
  "ResetJobExecutionStateToReady v je w =
     (let w = w\<lparr>jm_stats := reg_Started (v_now v) (exec_summary je) (jm_stats w)\<rparr>
      in case ResetStateToReady (v_engine v) (v_now v) (je_ID je) (jm_db w) of (db, err) \<Rightarrow> (w\<lparr>jm_db := db\<rparr>, err))"

subsection \<open>Submission from a template\<close>

text \<open>The parameters come in the order in which Go walks the map.\<close>

fun submit_params :: "(string \<times> string) list \<Rightarrow> JobRequest \<Rightarrow> (value_error, JobRequest) result" where
  "submit_params [] req = Ok req"
| "submit_params ((k, x) # ps) req =
     (if k = ''_user_key'' then submit_params ps (req\<lparr>jr_UserKey := x\<rparr>)
      else if k = ''_parent_id'' then submit_params ps (req\<lparr>jr_ParentID := x\<rparr>)
      else case AddParam k (AnyString x) req of
             Inl err \<Rightarrow> Err err
           | Inr req' \<Rightarrow> submit_params ps req')"

definition isDuplicate :: "repo_error \<Rightarrow> bool" where
  "isDuplicate err =
     (case err of
        DatabaseError m \<Rightarrow> Contains m ''Duplicate entry'' \<or> Contains m ''UNIQUE constraint failed''
      | _ \<Rightarrow> False)"

text \<open>The context of the parent, or that of nobody.\<close>

definition submit_context :: "jm_env \<Rightarrow> JobRequest \<Rightarrow> DB \<Rightarrow> QueryContext" where
  "submit_context v req db =
     (if jr_ParentID req = [] then NewQueryContextFromIDs [] []
      else case req_Get (v_engine v) (v_dec v) (NewQueryContext None []) (jr_ParentID req) db of
             Inl _ \<Rightarrow> NewQueryContextFromIDs [] []
           | Inr parent \<Rightarrow> NewQueryContextFromIDs (jr_UserID parent) (jr_OrganizationID parent))"

definition submit_retry ::
  "jm_env \<Rightarrow> QueryContext \<Rightarrow> JobRequest \<Rightarrow> repo_error \<Rightarrow> JobManager \<Rightarrow> (JobManager \<times> (repo_error, string) result) option" where
  "submit_retry v qc req err w =
     (if \<not> (isDuplicate err \<and> jr_UserKey req \<noteq> []) then Some (w, Err err)
      else case req_GetByUserKey (v_engine v) (v_dec v) (WithAdmin qc) (jr_UserKey req) (jm_db w) of
             Inl _ \<Rightarrow> Some (w, Err err)
           | Inr existing \<Rightarrow>
               if \<not> IsTerminal (jr_JobState existing) then Some (w, Ok (jr_ID existing))
               else
                 (case UpdateJobState (v_engine v) (v_newkey v) (v_now v) (jr_ID existing) NoState (jr_JobState existing)
                         [] [] 0 0 0 (jm_db w) of
                    (db, Some rotateErr) \<Rightarrow> Some (w\<lparr>jm_db := db\<rparr>, Err rotateErr)
                  | (db, None) \<Rightarrow>
                      map_option (\<lambda>(w, saved2, err2). (w, case err2 of Some e \<Rightarrow> Err e | None \<Rightarrow> Ok (jr_ID saved2)))
                        (SaveJobRequest v qc req (w\<lparr>jm_db := db\<rparr>))))"

definition SubmitJob ::
  "jm_env \<Rightarrow> string \<Rightarrow> string \<Rightarrow> (string \<times> string) list \<Rightarrow> JobManager \<Rightarrow> (JobManager \<times> (repo_error, string) result) option" where
  "SubmitJob v jobType description params w =
     (case submit_params params ((NewRequest (v_now v))\<lparr>jr_JobType := jobType, jr_Description := description\<rparr>) of
        Inl _ \<Rightarrow> Some (w, Err PlainError)
      | Inr request \<Rightarrow>
          (let qc = submit_context v request (jm_db w)
           in case SaveJobRequest v qc request w of
                None \<Rightarrow> None
              | Some (w, saved, None) \<Rightarrow> Some (w, Ok (jr_ID saved))
              | Some (w, request, Some err) \<Rightarrow> submit_retry v qc request err w))"

subsection \<open>Forking a job\<close>

text \<open>The part of a task request that the fork uses; \<open>resolve\<close> evaluates a template against the variables of
  the parent that are not secret.\<close>

record fork_task =
  ft_UserID :: string
  ft_OrganizationID :: string
  ft_JobType :: string
  ft_JobRequestID :: string
  ft_ForkJobType :: string
  ft_ForkJobVersion :: string
  ft_InputParams :: "(string \<times> string) list"

fun input_params :: "(string \<Rightarrow> string option) \<Rightarrow> (string \<times> string) list \<Rightarrow> JobRequest \<Rightarrow> JobRequest option" where
  "input_params resolve [] req = Some req"
| "input_params resolve ((childParam, templateExpr) # ps) req =
     (case resolve templateExpr of
        None \<Rightarrow> None
      | Some resolved \<Rightarrow>
          (case AddParam childParam (AnyString resolved) req of
             Inl _ \<Rightarrow> None
           | Inr req' \<Rightarrow> input_params resolve ps req'))"

definition add_quietly :: "string \<Rightarrow> any \<Rightarrow> JobRequest \<Rightarrow> JobRequest" where
  "add_quietly name x req = (case AddParam name x req of Inl _ \<Rightarrow> req | Inr req' \<Rightarrow> req')"

definition fork_request :: "fork_task \<Rightarrow> JobRequest \<Rightarrow> JobRequest" where
  "fork_request t req =
     (add_quietly (''ParentJobType_'' @ ft_JobRequestID t) (AnyString (ft_JobType t))
        ((add_quietly ''ForkedJob'' (AnyBool True) req)\<lparr>jr_ParentID := ft_JobRequestID t\<rparr>))\<lparr>jr_CascadeCancel := True\<rparr>"

definition fork_Execute ::
  "jm_env \<Rightarrow> (string \<Rightarrow> string option) \<Rightarrow> fork_task \<Rightarrow> JobManager \<Rightarrow> (JobManager \<times> (repo_error, JobRequest) result) option" where
  "fork_Execute v resolve t w =
     (let qc = NewQueryContextFromIDs (ft_UserID t) (ft_OrganizationID t)
      in if ft_ForkJobType t = [] then Some (w, Err PlainError)
         else case GetJobDefinitionByType v qc (ft_ForkJobType t) (ft_ForkJobVersion t) of
                Inl err \<Rightarrow> Some (w, Err err)
              | Inr jd \<Rightarrow>
                  (case NewJobRequestFromDefinition (v_cron v) (v_format v) (v_now v) jd of
                     Inl CronMalformed \<Rightarrow> None
                   | Inl _ \<Rightarrow> Some (w, Err PlainError)
                   | Inr req \<Rightarrow>
                       (case input_params resolve (ft_InputParams t) (req\<lparr>jr_JobVersion := ft_ForkJobVersion t\<rparr>) of
                          None \<Rightarrow> Some (w, Err PlainError)
                        | Some req \<Rightarrow>
                            map_option (\<lambda>(w, saved, err). (w, case err of Some e \<Rightarrow> Err e | None \<Rightarrow> Ok saved))
                              (SaveJobRequest v qc (fork_request t req) w))))"

subsection \<open>Lemmas\<close>

text \<open>Validation changes only the parameters and the text for searches.\<close>

definition same_but_params :: "JobRequest \<Rightarrow> JobRequest \<Rightarrow> bool" where
  "same_but_params r r' \<longleftrightarrow> (\<exists>ps l m q. r' = r\<lparr>jr_Params := ps, jr_lookupParams := l, jr_NameValueParams := m, jr_QuickSearch := q\<rparr>)"

lemma same_but_params_refl: "same_but_params r r"
  unfolding same_but_params_def
  by (intro exI[of _ "jr_Params r"] exI[of _ "jr_lookupParams r"] exI[of _ "jr_NameValueParams r"] exI[of _ "jr_QuickSearch r"]) simp

lemma same_but_params_trans: "same_but_params r s \<Longrightarrow> same_but_params s t \<Longrightarrow> same_but_params r t"
  unfolding same_but_params_def by (elim exE) (simp only:, (rule exI)+, simp)

lemma same_but_paramsI: "same_but_params r (r\<lparr>jr_Params := ps, jr_lookupParams := l, jr_NameValueParams := m, jr_QuickSearch := q\<rparr>)"
  unfolding same_but_params_def by blast

lemma same_but_params_fields:
  assumes "same_but_params r r'"
  shows "jr_ID r' = jr_ID r" "jr_JobType r' = jr_JobType r" "jr_JobState r' = jr_JobState r" "jr_UserKey r' = jr_UserKey r"
    "jr_JobVersion r' = jr_JobVersion r" "jr_UserID r' = jr_UserID r" "jr_OrganizationID r' = jr_OrganizationID r"
    "jr_ScheduledAt r' = jr_ScheduledAt r"
  using assms by (auto simp: same_but_params_def)

lemma AddParam_same: "AddParam n x r = Ok r' \<Longrightarrow> same_but_params r r'"
proof -
  assume "AddParam n x r = Ok r'"
  then obtain ps l m where "r' = r\<lparr>jr_Params := ps, jr_lookupParams := l, jr_NameValueParams := m\<rparr>"
    by (auto simp: AddParam_def split: sum.splits)
  then show ?thesis using same_but_paramsI[where r = r and ps = ps and l = l and m = m and q = "jr_QuickSearch r"] by simp
qed

lemma add_all_same: "add_all AddParam xs r = Ok r' \<Longrightarrow> same_but_params r r'"
proof (induction xs arbitrary: r)
  case (Cons x xs)
  then obtain r1 where "AddParam (fst x) (snd x) r = Ok r1" "add_all AddParam xs r1 = Ok r'" by (auto split: sum.splits)
  then show ?case using Cons.IH AddParam_same same_but_params_trans by blast
qed (simp add: same_but_params_refl)

lemma Validate_same: "same_but_params r (fst (request_Validate dec r))"
proof -
  obtain l m where "fst (request_Validate dec r) = r\<lparr>jr_lookupParams := l, jr_NameValueParams := m\<rparr>"
  proof (cases "rows_load dec (jr_Params r) []")
    case (Inl a)
    show ?thesis by (rule that[where l = "jr_lookupParams r" and m = "jr_NameValueParams r"]) (simp add: request_Validate_def request_AfterLoad_def Inl)
  next
    case (Inr l)
    show ?thesis by (rule that[where l = l and m = "rows_map dec (jr_Params r)"]) (simp add: request_Validate_def request_AfterLoad_def Inr)
  qed
  then show ?thesis using same_but_paramsI[where r = r and ps = "jr_Params r" and l = l and m = m and q = "jr_QuickSearch r"] by simp
qed

lemma updateQuickSearch_same: "same_but_params r (fst (updateQuickSearch dec r))"
proof (cases "add_all AddParam (jr_NameValueParams r) r")
  case (Inl e)
  then show ?thesis by (simp add: updateQuickSearch_def same_but_params_refl)
next
  case (Inr r1)
  have "same_but_params r1 (r1\<lparr>jr_QuickSearch := take 1000 (quick_search_text r)\<rparr>)"
    using same_but_paramsI[where r = r1 and ps = "jr_Params r1" and l = "jr_lookupParams r1" and m = "jr_NameValueParams r1"] by simp
  with add_all_same[OF Inr] Validate_same show ?thesis
    unfolding updateQuickSearch_def Inr by (auto intro: same_but_params_trans)
qed

lemma ValidateBeforeSave_same: "request_ValidateBeforeSave dec r = Ok r' \<Longrightarrow> same_but_params r r'"
proof -
  assume a: "request_ValidateBeforeSave dec r = Ok r'"
  then obtain r1 where r1: "add_all AddParam (jr_NameValueParams r) r = Ok r1"
    "fst (request_Validate dec (fst (updateQuickSearch dec r1))) = r'"
    by (auto simp: request_ValidateBeforeSave_def split: sum.splits prod.splits option.splits)
  show ?thesis using add_all_same[OF r1(1)] updateQuickSearch_same[of r1 dec] Validate_same[of "fst (updateQuickSearch dec r1)" dec] r1(2)
    by (auto intro: same_but_params_trans)
qed

lemma fork_loop_Some:
  "fork_loop t ps n = Some m \<longleftrightarrow> (\<forall>p \<in> set ps. HasPrefix (nv_Name p) ''ParentJobType'' \<longrightarrow> nv_Value p \<noteq> t) \<and>
     m = n + length (filter (\<lambda>p. HasPrefix (nv_Name p) ''ParentJobType'') ps)"
  by (induction ps arbitrary: n) auto

lemma prepared_fields:
  assumes "prepared v jd r = Some r'"
  shows "jr_ID r' = jr_ID r" "jr_Params r' = jr_Params r" "jr_JobType r' = jr_JobType r" "jr_JobState r' = PENDING"
    "jr_UserID r' = jr_UserID r" "jr_OrganizationID r' = jr_OrganizationID r" "jr_JobVersion r' = jr_JobVersion r"
    "jr_NameValueParams r' = jr_NameValueParams r" "jr_lookupParams r' = jr_lookupParams r"
    "jr_JobDefinitionID r' = jd_ID jd" "jr_ScheduledAt r' \<noteq> None"
  using assms
  by (auto simp: prepared_def UpdateUserKeyFromScheduleIfCronJob_def UpdateScheduledAtFromCronTrigger_def Let_def
      split: option.splits prod.splits if_splits)

lemma SaveJobRequest_OkE:
  assumes "SaveJobRequest v qc request w = Some (w', saved, None)"
  obtains jd req n db where
    "GetJobDefinitionByType v qc (jr_JobType request) (jr_JobVersion request) = Ok jd"
    "prepared v jd (request\<lparr>jr_UserID := qc_GetUserID qc, jr_OrganizationID := qc_GetOrganizationID qc\<rparr>) = Some req"
    "fork_loop (jr_JobType req) (jr_Params req) 0 = Some n" "n \<le> 10"
    "req_Save (v_engine v) (v_dec v) (v_newid v) (v_newkey v) (v_now v) qc req (jm_db w) = (db, None)"
    "saved = saved_request v qc req (jm_db w)" "jm_db w' = db"
    "jm_stats w' = reg_Pending (request_summary saved) False (jm_stats w)"
proof -
  let ?r = "request\<lparr>jr_UserID := qc_GetUserID qc, jr_OrganizationID := qc_GetOrganizationID qc\<rparr>"
  obtain jd where jd: "GetJobDefinitionByType v qc (jr_JobType request) (jr_JobVersion request) = Ok jd"
    using assms by (auto simp: SaveJobRequest_def Let_def split: sum.splits)
  have q: "v_quota v qc ?r = None" using assms by (auto simp: SaveJobRequest_def Let_def jd split: option.splits)
  obtain req where req: "prepared v jd ?r = Some req"
    using assms by (auto simp: SaveJobRequest_def Let_def jd q split: option.splits)
  obtain n where n: "fork_loop (jr_JobType req) (jr_Params req) 0 = Some n"
    using assms by (auto simp: SaveJobRequest_def Let_def jd q req split: option.splits)
  have n10: "n \<le> 10" using assms by (auto simp: SaveJobRequest_def Let_def jd q req n split: if_splits)
  obtain db err where s: "req_Save (v_engine v) (v_dec v) (v_newid v) (v_newkey v) (v_now v) qc req (jm_db w) = (db, err)"
    by (cases "req_Save (v_engine v) (v_dec v) (v_newid v) (v_newkey v) (v_now v) qc req (jm_db w)")
  have e: "err = None" using assms n10 by (auto simp: SaveJobRequest_def Let_def jd q req n s split: option.splits)
  show ?thesis
  proof (rule that[OF jd req n n10 s[unfolded e]])
    show "saved = saved_request v qc req (jm_db w)" "jm_db w' = db"
      "jm_stats w' = reg_Pending (request_summary saved) False (jm_stats w)"
      using assms n10
      by (auto simp: SaveJobRequest_def Let_def jd q req n s e fireJobRequestChange_def publish_def split: if_splits)
  qed
qed

lemma saved_request_new:
  assumes "request_ValidateBeforeSave (v_dec v) req = Ok req1" and "jr_ID req = []"
  shows "saved_request v qc req db = req1\<lparr>jr_OrganizationID := qc_GetOrganizationID qc, jr_UserID := qc_GetUserID qc,
    jr_ID := v_newid v, jr_CreatedAt := v_now v, jr_UpdatedAt := v_now v, jr_JobState := PENDING,
    jr_UserKey := (if jr_UserKey req = [] then v_newkey v else jr_UserKey req)\<rparr>"
  using assms same_but_params_fields[OF ValidateBeforeSave_same[OF assms(1)]]
  by (simp add: saved_request_def Let_def)

context sql_engine
begin

lemma req_Save_new:
  assumes "e = v_engine v" and "jr_ID req = []"
    and "req_Save e (v_dec v) (v_newid v) (v_newkey v) (v_now v) qc req db = (db', None)"
  shows "\<exists>req1. request_ValidateBeforeSave (v_dec v) req = Ok req1 \<and>
    db' = db\<lparr>db_requests := db_requests db @ [saved_request v qc req db]\<rparr>"
proof -
  obtain req1 where r1: "request_ValidateBeforeSave (v_dec v) req = Ok req1"
    using assms(3) by (auto simp: req_Save_def split: sum.splits)
  let ?r = "req1\<lparr>jr_OrganizationID := qc_GetOrganizationID qc, jr_UserID := qc_GetUserID qc\<rparr>"
  let ?b = "\<lambda>d. case save_body e (v_dec v) (v_newid v) (v_newkey v) (v_now v) qc ?r d of Inl err \<Rightarrow> Err err | Inr (d', _) \<Rightarrow> Ok d'"
  have "e_transaction e ?b db = (db', None)" using assms(3) by (simp add: req_Save_def r1 Let_def)
  from tx_commit[OF this] obtain s where s: "save_body e (v_dec v) (v_newid v) (v_newkey v) (v_now v) qc ?r db = Ok (db', s)"
    by (auto split: sum.splits prod.splits)
  have ids: "jr_ID req1 = []" "jr_UserKey req1 = jr_UserKey req"
    using same_but_params_fields[OF ValidateBeforeSave_same[OF r1]] assms(2) by simp_all
  have "db' = db\<lparr>db_requests := db_requests db @ [saved_request v qc req db]\<rparr>"
    using s by (auto simp: save_body_def ids saved_request_new[OF r1 assms(2)] Let_def split: sum.splits dest!: requests.create_ok)
  with r1 show ?thesis by blast
qed

end

lemma save_rows:
  assumes "sql_engine (v_engine v)" and "jr_ID request = []"
    and "SaveJobRequest v qc request w = Some (w', saved, None)"
  shows "jm_db w' = (jm_db w)\<lparr>db_requests := db_requests (jm_db w) @ [saved]\<rparr>" "jr_JobState saved = PENDING"
    "jr_UserID saved = qc_GetUserID qc" "jr_OrganizationID saved = qc_GetOrganizationID qc" "jr_JobType saved = jr_JobType request"
    "jr_ID saved = v_newid v"
proof -
  obtain jd req n db where
    p: "prepared v jd (request\<lparr>jr_UserID := qc_GetUserID qc, jr_OrganizationID := qc_GetOrganizationID qc\<rparr>) = Some req"
    and s: "req_Save (v_engine v) (v_dec v) (v_newid v) (v_newkey v) (v_now v) qc req (jm_db w) = (db, None)"
    and sv: "saved = saved_request v qc req (jm_db w)" and db: "jm_db w' = db"
    by (rule SaveJobRequest_OkE[OF assms(3)])
  note f = prepared_fields[OF p, simplified]
  from f assms(2) have new: "jr_ID req = []" by simp
  from sql_engine.req_Save_new[OF assms(1) refl new s] obtain req1 where
    r1: "request_ValidateBeforeSave (v_dec v) req = Ok req1" and
    "db = (jm_db w)\<lparr>db_requests := db_requests (jm_db w) @ [saved]\<rparr>" using sv by blast
  then show "jm_db w' = (jm_db w)\<lparr>db_requests := db_requests (jm_db w) @ [saved]\<rparr>" using db by simp
  show "jr_JobState saved = PENDING" "jr_UserID saved = qc_GetUserID qc" "jr_OrganizationID saved = qc_GetOrganizationID qc"
    "jr_JobType saved = jr_JobType request" "jr_ID saved = v_newid v"
    using f same_but_params_fields[OF ValidateBeforeSave_same[OF r1]] unfolding sv saved_request_new[OF r1 new] by simp_all
qed

subsection \<open>Properties\<close>

text \<open>C18: A new request that SaveJobRequest accepts is one new row, pending and owned by the caller, of a
  type that differs from every type its parameters say it was forked from, of which there are at most
  ten; no other row changes and the request is in the registry of those that wait.\<close>

theorem save_request_guarded:
  assumes "sql_engine (v_engine v)" and "jr_ID request = []"
    and "SaveJobRequest v qc request w = Some (w', saved, None)"
  shows "jm_db w' = (jm_db w)\<lparr>db_requests := db_requests (jm_db w) @ [saved]\<rparr> \<and>
    jr_JobState saved = PENDING \<and> jr_UserID saved = qc_GetUserID qc \<and> jr_OrganizationID saved = qc_GetOrganizationID qc \<and>
    jr_JobType saved = jr_JobType request \<and>
    (\<forall>p \<in> set (jr_Params request). HasPrefix (nv_Name p) ''ParentJobType'' \<longrightarrow> nv_Value p \<noteq> jr_JobType saved) \<and>
    length (filter (\<lambda>p. HasPrefix (nv_Name p) ''ParentJobType'') (jr_Params request)) \<le> 10 \<and>
    mget (inner (rg_pendingJobsByType (jm_stats w')) (sm_key (request_summary saved))) (jr_ID saved) = Some (request_summary saved)"
proof -
  obtain jd req n db where
    p: "prepared v jd (request\<lparr>jr_UserID := qc_GetUserID qc, jr_OrganizationID := qc_GetOrganizationID qc\<rparr>) = Some req"
    and n: "fork_loop (jr_JobType req) (jr_Params req) 0 = Some n" "n \<le> 10"
    and st: "jm_stats w' = reg_Pending (request_summary saved) False (jm_stats w)"
    by (rule SaveJobRequest_OkE[OF assms(3)])
  have "mget (inner (rg_pendingJobsByType (jm_stats w')) (sm_key (request_summary saved))) (jr_ID saved) = Some (request_summary saved)"
    unfolding st by (simp add: reg_Pending_def decrUserOrgCount_def Let_def request_summary_def)
  then show ?thesis using n prepared_fields[OF p] save_rows[OF assms] unfolding fork_loop_Some by simp
qed

text \<open>Requests for jobs without cron schedule.\<close>

lemma no_cron: "jd_CronTrigger jd = [] \<Longrightarrow> GetCronScheduleTimeAndUserKey cron format now jd = Some (None, [])"
  by (simp add: GetCronScheduleTimeAndUserKey_def cron_schedule_time_and_key_def)

lemma prepared_no_cron:
  assumes "jd_CronTrigger jd = []"
  obtains t where "prepared v jd r = Some (r\<lparr>jr_JobState := PENDING, jr_JobDefinitionID := jd_ID jd, jr_JobExecutionID := [],
    jr_ErrorCode := [], jr_ErrorMessage := [], jr_ScheduleAttempts := 0, jr_Retried := 0,
    jr_CreatedAt := v_now v, jr_UpdatedAt := v_now v, jr_ScheduledAt := Some t\<rparr>)"
proof (cases "jr_ScheduledAt r")
  case None
  show ?thesis by (rule that[of "v_now v"])
    (simp add: prepared_def UpdateUserKeyFromScheduleIfCronJob_def UpdateScheduledAtFromCronTrigger_def no_cron[OF assms] None)
next
  case (Some t)
  show ?thesis by (rule that[of "if unix_secs t < unix_secs (v_now v) - 1 then v_now v else t"])
    (simp add: prepared_def UpdateUserKeyFromScheduleIfCronJob_def UpdateScheduledAtFromCronTrigger_def no_cron[OF assms] Some)
qed

text \<open>The guard against forks that lead back to the same job.  Every job of a type has an enabled definition
  without cron schedule, and no quota is exhausted.\<close>

definition plain_jobs :: "jm_env \<Rightarrow> bool" where
  "plain_jobs v \<longleftrightarrow> (\<forall>qc r. v_quota v qc r = None) \<and>
     (\<forall>qc t. \<exists>jd. GetJobDefinitionByType v qc t [] = Ok jd \<and> jd_JobType jd = t \<and> \<not> jd_Disabled jd \<and>
        jd_CronTrigger jd = [] \<and> jd_ID jd \<noteq> [])"

definition child_task :: "JobRequest \<Rightarrow> string \<Rightarrow> fork_task" where
  "child_task parent t = \<lparr>ft_UserID = jr_UserID parent, ft_OrganizationID = jr_OrganizationID parent,
     ft_JobType = jr_JobType parent, ft_JobRequestID = jr_ID parent, ft_ForkJobType = t, ft_ForkJobVersion = [],
     ft_InputParams = []\<rparr>"

text \<open>A chain of forks: each request forks a job of the next type, with the id given.\<close>

fun forks :: "jm_env \<Rightarrow> (string \<Rightarrow> string option) \<Rightarrow> (string \<times> string) list \<Rightarrow> JobRequest \<Rightarrow> JobManager \<Rightarrow> JobManager option" where
  "forks v resolve [] parent w = Some w"
| "forks v resolve ((i, t) # ts) parent w =
     (case fork_Execute (v\<lparr>v_newid := i\<rparr>) resolve (child_task parent t) w of
        Some (w', Inr c) \<Rightarrow> forks v resolve ts c w'
      | _ \<Rightarrow> None)"

definition fork_rows :: "fork_task \<Rightarrow> NameTypeValue list" where
  "fork_rows t =
     [\<lparr>nv_Name = ''ForkedJob'', nv_Kind = ''bool'', nv_Value = ''true'', nv_Secret = False\<rparr>,
      \<lparr>nv_Name = ''ParentJobType_'' @ ft_JobRequestID t, nv_Kind = ''string'', nv_Value = ft_JobType t, nv_Secret = False\<rparr>]"

definition fork_values :: "fork_task \<Rightarrow> (string \<times> any) list" where
  "fork_values t = [(''ForkedJob'', AnyBool True), (''ParentJobType_'' @ ft_JobRequestID t, AnyString (ft_JobType t))]"

lemma fork_request_params:
  assumes "jr_Params req = []" and "jr_lookupParams req = []" and "jr_NameValueParams req = []"
    and "length (ft_JobType t) \<le> maxConfigValueLength"
  shows "fork_request t req = req\<lparr>jr_ParentID := ft_JobRequestID t, jr_CascadeCancel := True, jr_Params := fork_rows t,
    jr_lookupParams := map (\<lambda>nv. (nv_Name nv, nv)) (fork_rows t), jr_NameValueParams := fork_values t\<rparr>"
  using assms
  by (simp add: fork_request_def add_quietly_def AddParam_def NewNameTypeValue_def maxConfigValueLength_def gomap_eval
      fork_rows_def fork_values_def)

lemma fork_rows_valid:
  assumes "jr_Params r = fork_rows t" and "jr_lookupParams r = map (\<lambda>nv. (nv_Name nv, nv)) (fork_rows t)"
    and "jr_NameValueParams r = fork_values t" and "length (ft_JobType t) \<le> maxConfigValueLength"
    and "jr_ScheduledAt r \<noteq> None" and "jr_JobState r \<noteq> NoState" and "jr_JobDefinitionID r \<noteq> []" and "jr_JobType r \<noteq> []"
  shows "\<exists>r'. request_ValidateBeforeSave dec r = Ok r'"
  using assms
  by (simp add: request_ValidateBeforeSave_def AddParam_def NewNameTypeValue_def maxConfigValueLength_def
      updateQuickSearch_def request_Validate_def request_AfterLoad_def GetParsedValue_def gomap_eval
      fork_rows_def fork_values_def)

lemma fork_rows_loop: "fork_loop c (fork_rows t) 0 = (if ft_JobType t = c then None else Some 1)"
  by (simp add: fork_rows_def)

context reliable_engine
begin

lemma req_Save_up:
  assumes "request_ValidateBeforeSave dec req = Ok req1" and "jr_ID req = []"
  shows "\<exists>db'. req_Save e dec newid newkey now qc req db = (db', None)"
proof -
  let ?r = "req1\<lparr>jr_OrganizationID := qc_GetOrganizationID qc, jr_UserID := qc_GetUserID qc\<rparr>"
  let ?b = "\<lambda>d. case save_body e dec newid newkey now qc ?r d of Inl err \<Rightarrow> Err err | Inr (d', _) \<Rightarrow> Ok d'"
  have "jr_ID ?r = []" using same_but_params_fields[OF ValidateBeforeSave_same[OF assms(1)]] assms(2) by simp
  moreover have "op_create (e_requests e) r rows = Err m \<longleftrightarrow> False" for r rows m using create_total[of r rows] by auto
  ultimately obtain db' where "?b db = Ok db'"
    by (fastforce simp: save_body_def Let_def split: sum.splits)
  then have "e_transaction e ?b db = (db', None)" using commit_total[of ?b] by blast
  then show ?thesis by (simp add: req_Save_def assms(1) Let_def)
qed

end

lemma SaveJobRequest_up:
  assumes up: "reliable_engine (v_engine v)"
    and jd: "GetJobDefinitionByType v qc (jr_JobType request) (jr_JobVersion request) = Ok jd"
    and q: "\<And>r. v_quota v qc r = None"
    and req: "prepared v jd (request\<lparr>jr_UserID := qc_GetUserID qc, jr_OrganizationID := qc_GetOrganizationID qc\<rparr>) = Some req"
    and n: "fork_loop (jr_JobType req) (jr_Params req) 0 = Some n" "n \<le> 10"
    and r1: "request_ValidateBeforeSave (v_dec v) req = Ok req1" and new: "jr_ID req = []"
  shows "\<exists>w'. SaveJobRequest v qc request w = Some (w', saved_request v qc req (jm_db w), None)"
proof -
  obtain db' where "req_Save (v_engine v) (v_dec v) (v_newid v) (v_newkey v) (v_now v) qc req (jm_db w) = (db', None)"
    using reliable_engine.req_Save_up[OF up r1 new] by blast
  with n show ?thesis by (simp add: SaveJobRequest_def jd q req Let_def)
qed

lemma fork_Execute_save:
  assumes v: "plain_jobs v" and t: "t \<noteq> []" and p: "length (jr_JobType parent) \<le> maxConfigValueLength"
  obtains jd req where "GetJobDefinitionByType v (NewQueryContextFromIDs (jr_UserID parent) (jr_OrganizationID parent)) t [] = Ok jd"
    and "jd_CronTrigger jd = []" and "jd_ID jd \<noteq> []"
    and "jr_JobType req = t" "jr_JobVersion req = []" "jr_ID req = []" "jr_Params req = fork_rows (child_task parent t)"
    "jr_NameValueParams req = fork_values (child_task parent t)"
    "jr_lookupParams req = map (\<lambda>nv. (nv_Name nv, nv)) (fork_rows (child_task parent t))"
    and "fork_Execute v resolve (child_task parent t) w = map_option (\<lambda>(w, saved, err). (w, case err of Some e \<Rightarrow> Err e | None \<Rightarrow> Ok saved))
      (SaveJobRequest v (NewQueryContextFromIDs (jr_UserID parent) (jr_OrganizationID parent)) req w)"
proof -
  let ?t = "child_task parent t" and ?qc = "NewQueryContextFromIDs (jr_UserID parent) (jr_OrganizationID parent)"
  obtain jd where jd: "GetJobDefinitionByType v ?qc t [] = Ok jd" "jd_JobType jd = t" "\<not> jd_Disabled jd" "jd_CronTrigger jd = []" "jd_ID jd \<noteq> []"
    using v unfolding plain_jobs_def by blast
  define req0 where "req0 = (NewRequest (v_now v))\<lparr>jr_JobType := t, jr_JobVersion := jd_SemVersion jd,
    jr_JobDefinitionID := jd_ID jd, jr_Platform := jd_Platform jd, jr_UserID := jd_UserID jd, jr_OrganizationID := jd_OrganizationID jd\<rparr>"
  have new: "NewJobRequestFromDefinition (v_cron v) (v_format v) (v_now v) jd = Ok req0"
    using jd by (simp add: NewJobRequestFromDefinition_def UpdateUserKeyFromScheduleIfCronJob_def no_cron req0_def)
  define req where "req = fork_request ?t (req0\<lparr>jr_JobVersion := []\<rparr>)"
  have "ft_JobType ?t = jr_JobType parent" by (simp add: child_task_def)
  then have reqv: "req = req0\<lparr>jr_JobVersion := [], jr_ParentID := ft_JobRequestID ?t, jr_CascadeCancel := True, jr_Params := fork_rows ?t,
    jr_lookupParams := map (\<lambda>nv. (nv_Name nv, nv)) (fork_rows ?t), jr_NameValueParams := fork_values ?t\<rparr>"
    unfolding req_def by (subst fork_request_params) (use p in \<open>simp_all add: req0_def NewRequest_def\<close>)
  show ?thesis
  proof (rule that[OF jd(1,4,5)])
    show "fork_Execute v resolve ?t w = map_option (\<lambda>(w, saved, err). (w, case err of Some e \<Rightarrow> Err e | None \<Rightarrow> Ok saved))
      (SaveJobRequest v ?qc req w)"
      using t jd(1) by (simp add: fork_Execute_def child_task_def new req_def[unfolded child_task_def, symmetric])
  qed (simp_all add: reqv req0_def NewRequest_def)
qed

lemma fork_step:
  assumes up: "reliable_engine (v_engine v)" and v: "plain_jobs v" and t: "t \<noteq> []"
    and p: "length (jr_JobType parent) \<le> maxConfigValueLength"
  shows "(jr_JobType parent = t \<longrightarrow> fork_Execute v resolve (child_task parent t) w = Some (w, Err ValidationError)) \<and>
    (jr_JobType parent \<noteq> t \<longrightarrow> (\<exists>w' c. fork_Execute v resolve (child_task parent t) w = Some (w', Ok c) \<and> jr_JobType c = t \<and>
       db_requests (jm_db w') = db_requests (jm_db w) @ [c]))"
proof -
  let ?t = "child_task parent t" and ?qc = "NewQueryContextFromIDs (jr_UserID parent) (jr_OrganizationID parent)"
  obtain jd req where jd: "GetJobDefinitionByType v ?qc t [] = Ok jd" "jd_CronTrigger jd = []" "jd_ID jd \<noteq> []"
    and rf: "jr_JobType req = t" "jr_JobVersion req = []" "jr_ID req = []" "jr_Params req = fork_rows ?t"
      "jr_NameValueParams req = fork_values ?t" "jr_lookupParams req = map (\<lambda>nv. (nv_Name nv, nv)) (fork_rows ?t)"
    and ex: "fork_Execute v resolve ?t w = map_option (\<lambda>(w, saved, err). (w, case err of Some e \<Rightarrow> Err e | None \<Rightarrow> Ok saved))
      (SaveJobRequest v ?qc req w)" by (rule fork_Execute_save[OF v t p])
  obtain s where s: "prepared v jd (req\<lparr>jr_UserID := qc_GetUserID ?qc, jr_OrganizationID := qc_GetOrganizationID ?qc\<rparr>) = Some s"
    by (rule prepared_no_cron[OF jd(2)])
  note sf = prepared_fields[OF s, simplified]
  have q: "v_quota v ?qc r = None" for r using v by (simp add: plain_jobs_def)
  have jd': "GetJobDefinitionByType v ?qc (jr_JobType req) (jr_JobVersion req) = Ok jd" using jd(1) rf by simp
  have loop: "fork_loop (jr_JobType s) (jr_Params s) 0 = (if jr_JobType parent = t then None else Some 1)"
    using fork_rows_loop[of t ?t] by (simp add: sf rf child_task_def)
  show ?thesis
  proof (cases "jr_JobType parent = t")
    case True
    then show ?thesis using ex jd' q s loop by (simp add: SaveJobRequest_def Let_def)
  next
    case False
    have "ft_JobType ?t = jr_JobType parent" by (simp add: child_task_def)
    then obtain s1 where s1: "request_ValidateBeforeSave (v_dec v) s = Ok s1"
      using fork_rows_valid[of s ?t "v_dec v"] p t jd(3) sf rf by auto
    obtain w' where w': "SaveJobRequest v ?qc req w = Some (w', saved_request v ?qc s (jm_db w), None)"
      using SaveJobRequest_up[OF up jd' q s _ _ s1, of 1] False loop sf rf by auto
    then show ?thesis using False ex save_rows[OF _ rf(3) w'] up rf by (auto simp: reliable_engine_def)
  qed
qed

definition plain_env :: jm_env where
  "plain_env = sample_env\<lparr>v_definition_by_type := \<lambda>_ key. Ok ((NewJobDefinition (butlast key))\<lparr>jd_ID := ''d''\<rparr>)\<rparr>"

lemma plain_env_ok: "reliable_engine (v_engine plain_env)" "plain_jobs plain_env"
  by (simp_all add: plain_env_def plain_jobs_def sample_env_def GetJobDefinitionByType_def NewJobDefinition_def
      butlast_append mem_engine_reliable)

lemma plain_jobs_newid [simp]: "plain_jobs (v\<lparr>v_newid := i\<rparr>) = plain_jobs v"
  by (simp add: plain_jobs_def GetJobDefinitionByType_def)

text \<open>C17: The guard against fork bombs is exact about one step only: a chain of forks is accepted, whatever
  its length, if and only if no job in it forks a job of its own type.  A job A that forks B, which
  forks A again, is not stopped, because a forked request records the type of its parent and not those
  of earlier ancestors.\<close>

theorem fork_guard_exact:
  assumes "reliable_engine (v_engine v)" and "plain_jobs v"
    and "\<forall>(i, t) \<in> set ts. t \<noteq> [] \<and> length t \<le> maxConfigValueLength"
    and "length (jr_JobType parent) \<le> maxConfigValueLength"
  shows "case forks v resolve ts parent w of
      None \<Rightarrow> \<not> distinct_adj (jr_JobType parent # map snd ts)
    | Some w' \<Rightarrow> distinct_adj (jr_JobType parent # map snd ts) \<and>
        map jr_JobType (db_requests (jm_db w')) = map jr_JobType (db_requests (jm_db w)) @ map snd ts"
  using assms(3,4)
proof (induction ts arbitrary: parent w)
  case (Cons x ts)
  obtain i t where x: "x = (i, t)" by (cases x)
  from Cons.prems x have t: "t \<noteq> []" "length t \<le> maxConfigValueLength" by auto
  have up: "reliable_engine (v_engine (v\<lparr>v_newid := i\<rparr>))" "plain_jobs (v\<lparr>v_newid := i\<rparr>)" using assms by simp_all
  note step = fork_step[OF up t(1) Cons.prems(2), of resolve w]
  show ?case
  proof (cases "jr_JobType parent = t")
    case True
    then show ?thesis using step x by simp
  next
    case False
    then obtain w' c where c: "fork_Execute (v\<lparr>v_newid := i\<rparr>) resolve (child_task parent t) w = Some (w', Ok c)"
      "jr_JobType c = t" "db_requests (jm_db w') = db_requests (jm_db w) @ [c]" using step by blast
    have "length (jr_JobType c) \<le> maxConfigValueLength" using c t by simp
    from Cons.IH[OF _ this, of w'] Cons.prems(1) show ?thesis using x c False by (auto split: option.splits)
  qed
qed simp

theorem fork_guard_exact_witness:
  "\<exists>w'. forks plain_env (\<lambda>_. None)
     [(''2'', ''b''), (''3'', ''a''), (''4'', ''b''), (''5'', ''a'')] ((NewRequest 0)\<lparr>jr_ID := ''1'', jr_JobType := ''a''\<rparr>)
     sample_manager = Some w' \<and> length (db_requests (jm_db w')) = 6"
proof -
  let ?ts = "[(''2'', ''b''), (''3'', ''a''), (''4'', ''b''), (''5'', ''a'')]"
  let ?p = "(NewRequest 0)\<lparr>jr_ID := ''1'', jr_JobType := ''a''\<rparr>"
  have "\<forall>(i, t) \<in> set ?ts. t \<noteq> [] \<and> length t \<le> maxConfigValueLength" "length (jr_JobType ?p) \<le> maxConfigValueLength"
    by (simp_all add: maxConfigValueLength_def)
  with plain_env_ok have r: "case forks plain_env (\<lambda>_. None) ?ts ?p sample_manager of
      None \<Rightarrow> \<not> distinct_adj (jr_JobType ?p # map snd ?ts)
    | Some w' \<Rightarrow> distinct_adj (jr_JobType ?p # map snd ?ts) \<and>
        map jr_JobType (db_requests (jm_db w')) = map jr_JobType (db_requests (jm_db sample_manager)) @ map snd ?ts"
    by (intro fork_guard_exact)
  obtain w' where w': "forks plain_env (\<lambda>_. None) ?ts ?p sample_manager = Some w'"
    using r by (cases "forks plain_env (\<lambda>_. None) ?ts ?p sample_manager") (auto simp del: forks.simps)
  then have "map jr_JobType (db_requests (jm_db w')) = map jr_JobType (db_requests (jm_db sample_manager)) @ map snd ?ts"
    using r by (simp del: forks.simps)
  from arg_cong[OF this, of length] w' show ?thesis by (simp add: sample_manager_def del: forks.simps)
qed

theorem save_request_guarded_witness:
  "\<exists>w' saved. SaveJobRequest plain_env (NewQueryContextFromIDs ''u'' []) ((NewRequest 0)\<lparr>jr_JobType := ''a''\<rparr>) sample_manager = Some (w', saved, None) \<and>
     jr_UserID saved = ''u'' \<and> saved \<in> set (db_requests (jm_db w'))"
proof -
  let ?qc = "NewQueryContextFromIDs ''u'' []" and ?r = "(NewRequest 0)\<lparr>jr_JobType := ''a''\<rparr>"
  obtain jd where jd: "GetJobDefinitionByType plain_env ?qc ''a'' [] = Ok jd" "jd_CronTrigger jd = []" "jd_ID jd \<noteq> []"
    using plain_env_ok(2) unfolding plain_jobs_def by blast
  obtain s where s: "prepared plain_env jd (?r\<lparr>jr_UserID := qc_GetUserID ?qc, jr_OrganizationID := qc_GetOrganizationID ?qc\<rparr>) = Some s"
    by (rule prepared_no_cron[OF jd(2)])
  note sf = prepared_fields[OF s, simplified]
  obtain s1 where s1: "request_ValidateBeforeSave (v_dec plain_env) s = Ok s1"
    using sf jd(3) by (simp add: request_ValidateBeforeSave_def updateQuickSearch_def request_Validate_def request_AfterLoad_def
        rows_map_def NewRequest_def)
  have "GetJobDefinitionByType plain_env ?qc (jr_JobType ?r) (jr_JobVersion ?r) = Ok jd" "\<And>r. v_quota plain_env ?qc r = None"
    "fork_loop (jr_JobType s) (jr_Params s) 0 = Some 0" "jr_ID s = []"
    using plain_env_ok(2) jd(1) sf by (simp_all add: plain_jobs_def NewRequest_def)
  then obtain w' where w': "SaveJobRequest plain_env ?qc ?r sample_manager = Some (w', saved_request plain_env ?qc s (jm_db sample_manager), None)"
    using SaveJobRequest_up[OF plain_env_ok(1) _ _ s _ _ s1] by blast
  have "sql_engine (v_engine plain_env)" "jr_ID ?r = []" by (simp_all add: plain_env_def sample_env_def mem_engine_laws NewRequest_def)
  from save_request_guarded[OF this w'] w' show ?thesis by (simp add: sample_scope)
qed

subsection \<open>Submissions that find their key taken\<close>

context sql_engine
begin

lemma req_Save_rollback: "req_Save e dec newid newkey now qc req db = (db', Some err) \<Longrightarrow> db' = db"
  by (auto simp: req_Save_def Let_def split: sum.splits dest: tx_rollback)

lemma req_Save_missing:
  assumes "jr_ID req \<noteq> []" and "\<forall>r \<in> set (db_requests db). jr_ID r \<noteq> jr_ID req"
  shows "\<exists>err. req_Save e dec newid newkey now qc req db = (db, Some err)"
proof (cases "request_ValidateBeforeSave dec req")
  case (Inr req1)
  let ?r = "req1\<lparr>jr_OrganizationID := qc_GetOrganizationID qc, jr_UserID := qc_GetUserID qc\<rparr>"
  let ?b = "\<lambda>d. case save_body e dec newid newkey now qc ?r d of Inl err \<Rightarrow> Err err | Inr (d', _) \<Rightarrow> Ok d'"
  have id: "jr_ID ?r = jr_ID req" using same_but_params_fields[OF ValidateBeforeSave_same[OF Inr]] by simp
  have "req_Get e dec qc (jr_ID req) db \<noteq> Ok x" for x using assms(2) by (auto elim: req_Get_Ok)
  then obtain err where "req_Get e dec qc (jr_ID req) db = Err err" by (meson sum.exhaust)
  then have "?b db = Err err" using assms(1) id by (simp add: save_body_def)
  from tx_error[of ?b, OF this] show ?thesis by (simp add: req_Save_def Inr Let_def)
qed (simp add: req_Save_def)

end

lemma SaveJobRequest_failed:
  assumes e: "sql_engine (v_engine v)" and v: "plain_jobs v" and ver: "jr_JobVersion request = []"
    and s: "SaveJobRequest v qc request w = Some (w', r', Some err)"
  shows "jm_db w' = jm_db w"
    and "isDuplicate err \<Longrightarrow> jr_ID request = [] \<Longrightarrow> jr_ID r' = v_newid v \<and> jr_JobVersion r' = []"
proof -
  let ?r = "request\<lparr>jr_UserID := qc_GetUserID qc, jr_OrganizationID := qc_GetOrganizationID qc\<rparr>"
  obtain jd where jd: "GetJobDefinitionByType v qc (jr_JobType request) [] = Ok jd" "jd_CronTrigger jd = []"
    using v unfolding plain_jobs_def by blast
  have q: "v_quota v qc r = None" for r using v by (simp add: plain_jobs_def)
  obtain req where req: "prepared v jd ?r = Some req" by (rule prepared_no_cron[OF jd(2)])
  note f = prepared_fields[OF req, simplified]
  obtain db err' where sv: "req_Save (v_engine v) (v_dec v) (v_newid v) (v_newkey v) (v_now v) qc req (jm_db w) = (db, err')"
    by (cases "req_Save (v_engine v) (v_dec v) (v_newid v) (v_newkey v) (v_now v) qc req (jm_db w)")
  have cases: "jm_db w' = jm_db w \<and> err = ValidationError \<or> err' = Some err \<and> jm_db w' = db \<and> r' = saved_request v qc req (jm_db w)"
    using s by (auto simp: SaveJobRequest_def ver jd q req sv Let_def split: option.splits if_splits)
  then show "jm_db w' = jm_db w" using sv sql_engine.req_Save_rollback[OF e] by blast
  assume dup: "isDuplicate err" and new: "jr_ID request = []"
  have e': "err' = Some err" "r' = saved_request v qc req (jm_db w)" using cases dup by (auto simp: isDuplicate_def)
  obtain req1 where r1: "request_ValidateBeforeSave (v_dec v) req = Ok req1"
    using sv e'(1) dup by (cases "request_ValidateBeforeSave (v_dec v) req") (auto simp: req_Save_def isDuplicate_def)
  show "jr_ID r' = v_newid v \<and> jr_JobVersion r' = []"
    using f new ver same_but_params_fields[OF ValidateBeforeSave_same[OF r1]]
    unfolding e'(2) by (simp add: saved_request_new[OF r1])
qed

lemma SaveJobRequest_missing:
  assumes e: "sql_engine (v_engine v)" and v: "plain_jobs v" and ver: "jr_JobVersion request = []"
    and new: "jr_ID request \<noteq> []" "\<forall>r \<in> set (db_requests (jm_db w)). jr_ID r \<noteq> jr_ID request"
  shows "\<exists>w' r' err. SaveJobRequest v qc request w = Some (w', r', Some err)"
proof -
  let ?r = "request\<lparr>jr_UserID := qc_GetUserID qc, jr_OrganizationID := qc_GetOrganizationID qc\<rparr>"
  obtain jd where jd: "GetJobDefinitionByType v qc (jr_JobType request) [] = Ok jd" "jd_CronTrigger jd = []"
    using v unfolding plain_jobs_def by blast
  have q: "v_quota v qc r = None" for r using v by (simp add: plain_jobs_def)
  obtain req where req: "prepared v jd ?r = Some req" by (rule prepared_no_cron[OF jd(2)])
  have "jr_ID req \<noteq> []" "\<forall>r \<in> set (db_requests (jm_db w)). jr_ID r \<noteq> jr_ID req" using prepared_fields(1)[OF req] new by simp_all
  from sql_engine.req_Save_missing[OF e this] obtain err where
    "req_Save (v_engine v) (v_dec v) (v_newid v) (v_newkey v) (v_now v) qc req (jm_db w) = (jm_db w, Some err)" by blast
  then show ?thesis by (auto simp: SaveJobRequest_def ver jd q req Let_def split: option.splits)
qed

lemma submit_params_version:
  "submit_params ps req = Ok req' \<Longrightarrow> jr_JobVersion req' = jr_JobVersion req \<and> jr_ID req' = jr_ID req"
proof (induction ps req rule: submit_params.induct)
  case (2 k x ps req)
  show ?case
  proof (cases "k = ''_user_key'' \<or> k = ''_parent_id''")
    case False
    with "2.prems" obtain r1 where r1: "AddParam k (AnyString x) req = Ok r1" "submit_params ps r1 = Ok req'"
      by (auto split: sum.splits)
    show ?thesis using "2.IH"(3)[OF _ _ r1] False same_but_params_fields[OF AddParam_same[OF r1(1)]] by simp
  qed (use 2 in auto)
qed simp

context sql_engine
begin

lemma req_GetByUserKey_Ok:
  assumes "req_GetByUserKey e dec qc key db = Ok req"
  obtains r where "r \<in> set (db_requests db)" "jr_UserKey r = key" "req = loaded dec r"
proof -
  from assms obtain r where "op_first (e_requests e) (\<lambda>r. in_scope qc True r \<and> jr_UserKey r = key) (db_requests db) = Ok (Some r)"
    and "req = loaded dec r"
    by (auto simp: req_GetByUserKey_def split: if_splits sum.splits option.splits)
  with requests.first_ok that show ?thesis by blast
qed

lemma UpdateJobState_ids:
  "map jr_ID (db_requests (fst (UpdateJobState e newkey now rid oldState newState msg code d n k db))) = map jr_ID (db_requests db)"
proof -
  have ids: "map jr_ID (update_rows p (job_state_updates newkey now newState msg code d n k) rows) = map jr_ID rows" for p rows
    by (rule map_update_rows) (simp add: job_state_updates_def Let_def)
  show ?thesis
    by (auto simp: UpdateJobState_def update_one_def ids split: sum.splits prod.splits dest!: update_requests_Ok)
qed

end

lemma submit_retry_cases:
  assumes e: "sql_engine (v_engine v)" and v: "plain_jobs v"
    and req: "isDuplicate err \<Longrightarrow> jr_ID req \<noteq> [] \<and> jr_JobVersion req = []"
    and gone: "isDuplicate err \<Longrightarrow> \<forall>r \<in> set (db_requests (jm_db w)). jr_ID r \<noteq> jr_ID req"
    and s: "submit_retry v qc req err w = Some (w', res)"
  shows "jm_db w' = jm_db w \<and> (\<exists>r \<in> set (db_requests (jm_db w)). res = Ok (jr_ID r) \<and> \<not> IsTerminal (jr_JobState r)) \<or>
    map jr_ID (db_requests (jm_db w')) = map jr_ID (db_requests (jm_db w)) \<and> (\<exists>err. res = Err err)"
proof (cases "isDuplicate err \<and> jr_UserKey req \<noteq> [] \<and>
    is_ok (req_GetByUserKey (v_engine v) (v_dec v) (WithAdmin qc) (jr_UserKey req) (jm_db w))")
  case False
  then show ?thesis using s by (auto simp: submit_retry_def is_ok_def split: if_splits sum.splits)
next
  case True
  then obtain x where x: "req_GetByUserKey (v_engine v) (v_dec v) (WithAdmin qc) (jr_UserKey req) (jm_db w) = Ok x"
    by (auto simp: is_ok_def split: sum.splits)
  from sql_engine.req_GetByUserKey_Ok[OF e x] obtain r where r: "r \<in> set (db_requests (jm_db w))" "x = loaded (v_dec v) r" by blast
  then have rx: "jr_ID x = jr_ID r" "jr_JobState x = jr_JobState r" by (simp_all add: loaded_def Let_def)
  show ?thesis
  proof (cases "IsTerminal (jr_JobState x)")
    case False
    then show ?thesis using s True x r(1) rx by (auto simp: submit_retry_def)
  next
    case t: True
    obtain db err2 where u: "UpdateJobState (v_engine v) (v_newkey v) (v_now v) (jr_ID x) NoState (jr_JobState x)
        [] [] 0 0 0 (jm_db w) = (db, err2)" by (meson surj_pair)
    have ids: "map jr_ID (db_requests db) = map jr_ID (db_requests (jm_db w))"
      using sql_engine.UpdateJobState_ids[OF e, of "v_newkey v" "v_now v" "jr_ID x" NoState "jr_JobState x" "[]" "[]" 0 0 0 "jm_db w"] u
      by simp
    have "jr_ID req \<notin> jr_ID ` set (db_requests db)" using gone True arg_cong[OF ids, of set] by auto
    then have "\<forall>r \<in> set (db_requests db). jr_ID r \<noteq> jr_ID req" by (metis imageI)
    then obtain w2 r2 err3 where s2: "SaveJobRequest v qc req (w\<lparr>jm_db := db\<rparr>) = Some (w2, r2, Some err3)"
      using SaveJobRequest_missing[OF e v, of req "w\<lparr>jm_db := db\<rparr>" qc] req True by auto
    have "jm_db w2 = db" using SaveJobRequest_failed(1)[OF e v _ s2] req True by simp
    then show ?thesis using s True x t u ids s2 by (auto simp: submit_retry_def split: option.splits)
  qed
qed

lemma SaveJobRequest_total:
  assumes "plain_jobs v" and "jr_JobVersion request = []"
  shows "\<exists>w' r' err. SaveJobRequest v qc request w = Some (w', r', err)"
proof -
  let ?r = "request\<lparr>jr_UserID := qc_GetUserID qc, jr_OrganizationID := qc_GetOrganizationID qc\<rparr>"
  obtain jd where jd: "GetJobDefinitionByType v qc (jr_JobType request) [] = Ok jd" "jd_CronTrigger jd = []"
    using assms unfolding plain_jobs_def by blast
  have q: "v_quota v qc r = None" for r using assms by (simp add: plain_jobs_def)
  obtain req where req: "prepared v jd ?r = Some req" by (rule prepared_no_cron[OF jd(2)])
  show ?thesis
    by (cases "req_Save (v_engine v) (v_dec v) (v_newid v) (v_newkey v) (v_now v) qc req (jm_db w)")
      (auto simp: SaveJobRequest_def assms jd q req Let_def split: option.splits)
qed

lemma submit_retry_total:
  assumes "plain_jobs v" and "isDuplicate err \<Longrightarrow> jr_JobVersion req = []"
  shows "\<exists>w' res. submit_retry v qc req err w = Some (w', res)"
  using SaveJobRequest_total[OF assms(1)] assms(2)
  by (fastforce simp: submit_retry_def split: sum.splits prod.splits option.splits)



subsection \<open>Cron jobs\<close>

lemma copy_params_same: "same_but_params req (copy_params dec ps req)"
proof (induction dec ps req rule: copy_params.induct)
  case (2 dec p ps req)
  define x where "x = (case GetParsedValue dec p of Inl _ \<Rightarrow> AnyNil | Inr x \<Rightarrow> x)"
  have "same_but_params req (case AddParam (nv_Name p) x req of Inl _ \<Rightarrow> req | Inr req' \<Rightarrow> req')"
    by (cases "AddParam (nv_Name p) x req") (auto simp: same_but_params_refl dest: AddParam_same)
  with 2 show ?case by (auto simp: x_def intro: same_but_params_trans)
qed (simp add: same_but_params_refl)

lemma cron_key_not_empty: "GetCronScheduleTimeAndUserKey cron format now jd = Some (Some t, key) \<Longrightarrow> key \<noteq> []"
  by (auto simp: GetCronScheduleTimeAndUserKey_def cron_schedule_time_and_key_def Let_def split: if_splits option.splits)

lemma cron_request:
  assumes "GetCronScheduleTimeAndUserKey cron format now jd = Some (Some t, key)"
  shows "\<exists>r. NewJobRequestFromDefinition cron format now jd = Ok r \<and> jr_UserKey r = key \<and> jr_ID r = [] \<and>
    jr_JobType r = jd_JobType jd \<and> jr_JobVersion r = jd_SemVersion jd \<and> jr_UserID r = jd_UserID jd \<and>
    jr_OrganizationID r = jd_OrganizationID jd \<and> jr_Params r = [] \<and> jr_NameValueParams r = [] \<and> jr_lookupParams r = []"
proof -
  have "\<not> jd_Disabled jd" using assms by (auto simp: GetCronScheduleTimeAndUserKey_def)
  with assms show ?thesis
    by (simp add: NewJobRequestFromDefinition_def UpdateUserKeyFromScheduleIfCronJob_def NewRequest_def)
qed

lemma prepared_cron_key:
  assumes "GetCronScheduleTimeAndUserKey (v_cron v) (v_format v) (v_now v) jd = Some (Some t, key)" and "prepared v jd r = Some r'"
  shows "jr_UserKey r' = key"
  using assms by (auto simp: prepared_def UpdateUserKeyFromScheduleIfCronJob_def UpdateScheduledAtFromCronTrigger_def Let_def)

lemma SaveJobRequest_cron:
  assumes "sql_engine (v_engine v)" and "jr_ID request = []"
    and s: "SaveJobRequest v qc request w = Some (w', saved, None)"
    and jd: "GetJobDefinitionByType v qc (jr_JobType request) (jr_JobVersion request) = Ok jd"
    and key: "GetCronScheduleTimeAndUserKey (v_cron v) (v_format v) (v_now v) jd = Some (Some t, key)"
  shows "saved \<in> set (db_requests (jm_db w'))" and "jr_UserKey saved = key"
proof -
  show "saved \<in> set (db_requests (jm_db w'))" using save_rows(1)[OF assms(1,2) s] by simp
  obtain jd' req n db where jd': "GetJobDefinitionByType v qc (jr_JobType request) (jr_JobVersion request) = Ok jd'"
    and p: "prepared v jd' (request\<lparr>jr_UserID := qc_GetUserID qc, jr_OrganizationID := qc_GetOrganizationID qc\<rparr>) = Some req"
    and sv: "req_Save (v_engine v) (v_dec v) (v_newid v) (v_newkey v) (v_now v) qc req (jm_db w) = (db, None)"
    and saved: "saved = saved_request v qc req (jm_db w)" by (rule SaveJobRequest_OkE[OF s])
  have "jd' = jd" using jd jd' by simp
  with prepared_cron_key[OF key] p have k: "jr_UserKey req = key" by blast
  have new: "jr_ID req = []" using prepared_fields(1)[OF p] assms(2) by simp
  obtain req1 where "request_ValidateBeforeSave (v_dec v) req = Ok req1"
    using sql_engine.req_Save_new[OF assms(1) refl new sv] by blast
  then show "jr_UserKey saved = key" using saved_request_new[OF _ new] k cron_key_not_empty[OF key] saved by simp
qed

lemma scheduleCronRequest_next:
  assumes e: "sql_engine (v_engine v)"
    and jd: "\<And>qc. GetJobDefinitionByType v qc (jd_JobType jd) (jd_SemVersion jd) = Ok jd"
    and key: "GetCronScheduleTimeAndUserKey (v_cron v) (v_format v) (v_now v) jd = Some (Some t, key)"
    and s: "scheduleCronRequest v jd old w = Some (w', None)"
  shows "(\<exists>r \<in> set (db_requests (jm_db w')). jr_UserKey r = key) \<or> 0 < sint (GetExecutionCount (def_key jd) (jm_stats w'))"
proof -
  from cron_request[OF key] obtain r where r: "NewJobRequestFromDefinition (v_cron v) (v_format v) (v_now v) jd = Ok r"
    "jr_UserKey r = key" "jr_ID r = []" "jr_JobType r = jd_JobType jd" "jr_JobVersion r = jd_SemVersion jd"
    "jr_UserID r = jd_UserID jd" "jr_OrganizationID r = jd_OrganizationID jd" by blast
  have count: "GetExecutionCount (request_summary r) st = GetExecutionCount (def_key jd) st" for st
    using r by (simp add: GetExecutionCount_def sm_key_def request_summary_def def_key_def)
  let ?qc = "NewQueryContextFromIDs (jr_UserID r) (jr_OrganizationID r)"
  define r2 where "r2 = inherited v ?qc old r (jm_db w)"
  have r2: "jr_UserKey r2 = key" "jr_ID r2 = []" "jr_JobType r2 = jd_JobType jd" "jr_JobVersion r2 = jd_SemVersion jd"
    using r same_but_params_fields[OF copy_params_same] by (auto simp: r2_def inherited_def Let_def split: option.splits)
  have s2: "(if 0 < sint (GetExecutionCount (def_key jd) (jm_stats w)) then Some (w, None)
     else if key \<noteq> [] \<and> is_ok (req_GetByUserKey (v_engine v) (v_dec v) (WithAdmin ?qc) key (jm_db w)) then Some (w, None)
     else map_option (\<lambda>(w, _, err). (w, err)) (SaveJobRequest v ?qc r2 w)) = Some (w', None)"
    using s by (simp add: scheduleCronRequest_def r(1) count Let_def r2_def[symmetric] r2 cong: if_cong)
  consider "0 < sint (GetExecutionCount (def_key jd) (jm_stats w'))"
    | x where "w' = w" "req_GetByUserKey (v_engine v) (v_dec v) (WithAdmin ?qc) key (jm_db w) = Ok x"
    | saved where "SaveJobRequest v ?qc r2 w = Some (w', saved, None)"
    using s2 by (auto simp: is_ok_def split: if_splits sum.splits)
  then show ?thesis
  proof cases
    case 2
    then show ?thesis using sql_engine.req_GetByUserKey_Ok[OF e] by metis
  next
    case 3
    have "GetJobDefinitionByType v ?qc (jr_JobType r2) (jr_JobVersion r2) = Ok jd" using jd r2 by simp
    from SaveJobRequest_cron[OF e r2(2) 3 this key] show ?thesis by blast
  qed simp
qed


definition cron_job :: JobDefinition where
  "cron_job = (NewJobDefinition ''a'')\<lparr>jd_ID := ''d'', jd_CronTrigger := ''0 * * * *''\<rparr>"

definition cron_env :: jm_env where
  "cron_env = sample_env\<lparr>v_definition_by_type := \<lambda>_ _. Ok cron_job, v_cron := \<lambda>_. Some (\<lambda>t. Some (t + 1)), v_format := \<lambda>_. ''t''\<rparr>"

lemma cron_env_key: "GetCronScheduleTimeAndUserKey (v_cron cron_env) (v_format cron_env) (v_now cron_env) cron_job = Some (Some 6, ''default-a-t'')"
  by (simp add: cron_env_def sample_env_def cron_job_def GetCronScheduleTimeAndUserKey_def cron_schedule_time_and_key_def NewJobDefinition_def)

lemma cron_env_schedule:
  assumes "jr_Params old = []"
  shows "\<exists>w'. scheduleCronRequest cron_env cron_job (Some (old, False)) w = Some (w', None)"
proof -
  from cron_request[OF cron_env_key] obtain r where
    r: "NewJobRequestFromDefinition (v_cron cron_env) (v_format cron_env) (v_now cron_env) cron_job = Ok r"
    and rv: "jr_Params r = []" "jr_NameValueParams r = []" "jr_lookupParams r = []" "jr_ID r = []" "jr_JobType r = ''a''" "jr_JobVersion r = []"
    by (auto simp: cron_job_def NewJobDefinition_def)
  let ?qc = "NewQueryContextFromIDs (jr_UserID r) (jr_OrganizationID r)"
  define r2 where "r2 = inherited cron_env ?qc (Some (old, False)) r (jm_db w)"
  have r2: "jr_Params r2 = []" "jr_NameValueParams r2 = []" "jr_lookupParams r2 = []" "jr_ID r2 = []" "jr_JobType r2 = ''a''" "jr_JobVersion r2 = []"
    using rv assms by (simp_all add: r2_def inherited_def)
  obtain s where s: "prepared cron_env cron_job (r2\<lparr>jr_UserID := qc_GetUserID ?qc, jr_OrganizationID := qc_GetOrganizationID ?qc\<rparr>) = Some s"
    by (simp add: prepared_def UpdateUserKeyFromScheduleIfCronJob_def UpdateScheduledAtFromCronTrigger_def cron_env_key Let_def)
  note sf = prepared_fields[OF s, simplified]
  have "jd_ID cron_job \<noteq> []" by (simp add: cron_job_def)
  then obtain s1 where s1: "request_ValidateBeforeSave (v_dec cron_env) s = Ok s1"
    using sf r2 by (auto simp: request_ValidateBeforeSave_def updateQuickSearch_def request_Validate_def request_AfterLoad_def rows_map_def)
  have "reliable_engine (v_engine cron_env)" "GetJobDefinitionByType cron_env ?qc (jr_JobType r2) (jr_JobVersion r2) = Ok cron_job"
    "\<And>r. v_quota cron_env ?qc r = None" "fork_loop (jr_JobType s) (jr_Params s) 0 = Some 0" "jr_ID s = []"
    using sf r2 by (simp_all add: cron_env_def sample_env_def mem_engine_reliable GetJobDefinitionByType_def)
  then obtain w' where "SaveJobRequest cron_env ?qc r2 w = Some (w', saved_request cron_env ?qc s (jm_db w), None)"
    using SaveJobRequest_up[OF _ _ _ s _ _ s1] by blast
  then show ?thesis by (simp add: scheduleCronRequest_def r Let_def r2_def[symmetric])
qed

lemma sample_finalize_any:
  "\<exists>db'. FinalizeJobRequestAndExecutionState mem_engine newkey now ''x1'' MANUAL_APPROVAL_REQUIRED FAILED msg code secs 0 n k
     sample_db = (db', None)"
  by (simp add: FinalizeJobRequestAndExecutionState_def CanFinalize_def mem_engine_def mem_transaction_def
      update_both_def update_requests_def update_execs_def mem_table_def sample_db_def sample_request_row_def
      sample_exec_row_def TerminalStates_def IsTerminal_def)


text \<open>When a cron-triggered request is moved to a terminal state, the outcome of the update of the database is
  overwritten by that of scheduling the next request: a failed update is reported as success.\<close>

lemma update_state_error_lost:
  assumes "UpdateJobState (v_engine v) (v_newkey v) (v_now v) (jr_ID (fst req)) oldState newState msg code delay retried
      (jr_PausedCount (fst req)) (jm_db w) = (db, Some err)"
    and "IsTerminal newState" and "jr_CronTriggered (fst req)"
    and "GetJobDefinitionByType v qc (jr_JobType (fst req)) (jr_JobVersion (fst req)) = Ok jd" and "jd_Disabled jd"
  shows "UpdateJobRequestState v qc req oldState newState msg code delay retried reverted w = Some (w\<lparr>jm_db := db\<rparr>, None)"
proof -
  have "newState \<noteq> PENDING" using assms(2) by (auto simp: IsTerminal_def)
  then show ?thesis using assms
    by (simp add: UpdateJobRequestState_def next_cron_def GetCronScheduleTimeAndUserKey_def)
qed

end
