(* ===== verification/Job_Fsm.thy ===== *)
theory Job_Fsm
  imports Job_Submission Resource_Manager "HOL-Library.Monad_Syntax"
begin

text \<open>
  The state machine of a job (\<open>queen/fsm/job_execution_state.go\<close>), which the scheduler, the launcher and the
  supervisor drive.

  The machine owns copies of the request, the definition and the execution and shares the job manager and
  the ledger of the resource manager, so both are part of its state.  An operation returns None where the
  code dereferences a nil pointer, and otherwise the new state with the error, if any.  Errors are values;
  \<open>x_text\<close> is the text the code stores in the database.  Log lines, metrics and audit records are left out.
\<close>

subsection \<open>State\<close>

datatype fsm_error =
    Repo repo_error
  | Resource resource_error
  | Invalid job_error
  | MissingParams "string list"
  | NoReservations
  | NoExecutionID
  | WrongReservations
  | Requeue string
  | WrongExecution string
  | WrongState RequestState
  | ExecutionExists
  | NotSaved fsm_error
  | NotReset string fsm_error
  | NotReady fsm_error
  | NotMarshalled
  | NotSent
  | NotLaunched fsm_error
  | TooManyJobs int
  | UserBusy int
  | OrgBusy int
  | Quota string
  | Filtered
  | ValidationFailed fsm_error
  | AllocationFailed fsm_error int
  | AttemptsExceeded int
  | Unavailable fsm_error
  | Reason string

record JobExecutionStateMachine =
  fs_Request :: JobRequest
  fs_Info :: bool
  fs_JobDefinition :: "JobDefinition option"
  fs_JobExecution :: "JobExecution option"
  fs_LastJobExecution :: "JobExecution option"
  fs_User :: "User option"
  fs_Reservations :: "(string, AntReservation) gomap option"
  fs_revertState :: RequestState
  fs_jm :: JobManager
  fs_rm :: State

text \<open>What the machine takes from outside: the environment of the job manager, the lookup of users and of
  the configurations of users and organizations, the variables, the filter and the webhook that the
  templates of the definition give, the subscription quota, the random and exponential delays, the timeout of a
  registration, the ids of new rows and the limits of the configuration.\<close>

record fsm_env =
  x_jm :: jm_env
  x_user :: "QueryContext \<Rightarrow> string \<Rightarrow> (repo_error, User) result"
  x_valid_email :: "string \<Rightarrow> bool"
  x_org_configs :: "string \<Rightarrow> (repo_error, NameTypeValue list) result"
  x_user_configs :: "string \<Rightarrow> (repo_error, NameTypeValue list) result"
  x_dynamic :: "JobDefinition \<Rightarrow> (string \<times> any) list option"
  x_quota :: "QueryContext \<Rightarrow> User option \<Rightarrow> string option"
  x_skip :: "JobExecutionStateMachine \<Rightarrow> bool"
  x_delete_filtered :: "JobDefinition \<Rightarrow> bool"
  x_hook :: "JobExecutionStateMachine \<Rightarrow> bool"
  x_marshal :: "jm_event \<Rightarrow> bool"
  x_backoff :: "JobDefinition \<Rightarrow> (int \<Rightarrow> int) option"
  x_rnd :: "nat option"
  x_calcCost :: "string \<Rightarrow> DB \<Rightarrow> int"
  x_newids :: "nat \<Rightarrow> string"
  x_fresh :: "nat \<Rightarrow> nat \<Rightarrow> string"
  x_timeout :: int
  x_maxAttempts :: int
  x_maxWait :: int
  x_text :: "fsm_error \<Rightarrow> string"

definition NewJobExecutionStateMachine ::
  "JobRequest \<Rightarrow> bool \<Rightarrow> (string, AntReservation) gomap option \<Rightarrow> JobManager \<Rightarrow> State \<Rightarrow> JobExecutionStateMachine" where
  "NewJobExecutionStateMachine request info reservations w rm =
     \<lparr>fs_Request = request, fs_Info = info, fs_JobDefinition = None, fs_JobExecution = None,
      fs_LastJobExecution = None, fs_User = None, fs_Reservations = reservations,
      fs_revertState = NoState, fs_jm = w, fs_rm = rm\<rparr>"

definition fsm_QueryContext :: "JobExecutionStateMachine \<Rightarrow> QueryContext" where
  "fsm_QueryContext s =
     (let other = NewQueryContextFromIDs (jr_UserID (fs_Request s)) (jr_OrganizationID (fs_Request s))
      in case fs_User s of
           Some u \<Rightarrow> if user_IsAdmin u then WithAdmin (NewQueryContext None []) else other
         | None \<Rightarrow> other)"

definition set_state :: "RequestState \<Rightarrow> JobExecutionStateMachine \<Rightarrow> JobExecutionStateMachine" where
  "set_state st s = s\<lparr>fs_Request := SetJobState st (fs_Request s)\<rparr>"

definition forceReleaseJobResources :: "JobExecutionStateMachine \<Rightarrow> JobExecutionStateMachine" where
  "forceReleaseJobResources s =
     (if fs_Reservations s \<noteq> None then s\<lparr>fs_rm := ReleaseJobResources (fs_rm s) (jr_ID (fs_Request s))\<rparr> else s)"

subsection \<open>Calls of the job manager\<close>

text \<open>The delay before the next attempt; the definition remembers a delay drawn at random.\<close>

definition retry_delay :: "fsm_env \<Rightarrow> JobDefinition \<Rightarrow> int \<Rightarrow> JobExecutionStateMachine \<Rightarrow> int \<times> JobExecutionStateMachine" where
  "retry_delay x jd attempt s =
     (case job_GetDelayBetweenRetries (x_backoff x jd) (x_rnd x) jd attempt of
        (delay, jd') \<Rightarrow> (delay, s\<lparr>fs_JobDefinition := Some jd'\<rparr>))"

definition fsm_finalize ::
  "fsm_env \<Rightarrow> JobExecution \<Rightarrow> RequestState \<Rightarrow> int \<Rightarrow> JobExecutionStateMachine \<Rightarrow>
   (JobExecutionStateMachine \<times> fsm_error option) option" where
  "fsm_finalize x je oldState delay s =
     map_option (\<lambda>(w, err). (s\<lparr>fs_JobExecution := Some je, fs_jm := w\<rparr>, map_option Repo err))
       (jm_Finalize (x_jm x) (fsm_QueryContext s) (fs_Request s, fs_Info s) je oldState delay
          (jr_Retried (fs_Request s)) (fs_jm s))"

definition fsm_update ::
  "fsm_env \<Rightarrow> RequestState \<Rightarrow> RequestState \<Rightarrow> string \<Rightarrow> string \<Rightarrow> int \<Rightarrow> int \<Rightarrow> bool \<Rightarrow> JobExecutionStateMachine \<Rightarrow>
   (JobExecutionStateMachine \<times> fsm_error option) option" where
  "fsm_update x oldState newState msg code delay retried reverted s =
     map_option (\<lambda>(w, err). (s\<lparr>fs_jm := w\<rparr>, map_option Repo err))
       (UpdateJobRequestState (x_jm x) (fsm_QueryContext s) (fs_Request s, fs_Info s) oldState newState msg code delay
          retried reverted (fs_jm s))"

text \<open>The event that tells every server the state of the execution; the event of the webhook goes first.\<close>

definition sendJobExecutionLifecycleEvent ::
  "fsm_env \<Rightarrow> JobExecutionStateMachine \<Rightarrow> (JobExecutionStateMachine \<times> bool) option" where
  "sendJobExecutionLifecycleEvent x s =
     (case fs_JobExecution s of
        None \<Rightarrow> Some (s, False)
      | Some je \<Rightarrow>
          if fs_JobDefinition s = None then None
          else
            (let ev = ExecutionEvent (jr_ID (fs_Request s)) (je_ID je) (je_JobState je);
                 hook = WebhookEvent (jr_ID (fs_Request s)) (je_ID je) (je_JobState je);
                 w = (if x_hook x s \<and> x_marshal x hook then fst (publish (x_jm x) hook (fs_jm s)) else fs_jm s)
             in if \<not> x_marshal x ev then Some (s\<lparr>fs_jm := w\<rparr>, False)
                else (case publish (x_jm x) ev w of (w', ok) \<Rightarrow> Some (s\<lparr>fs_jm := w'\<rparr>, ok))))"

subsection \<open>Failing\<close>

definition save_failed ::
  "fsm_env \<Rightarrow> RequestState \<Rightarrow> RequestState \<Rightarrow> string \<Rightarrow> string \<Rightarrow> JobExecutionStateMachine \<Rightarrow>
   (JobExecutionStateMachine \<times> fsm_error option) option" where
  "save_failed x oldState newState msg code s =
     (case fs_JobExecution s of
        None \<Rightarrow> Some (s, None)
      | Some je \<Rightarrow>
          (case fs_JobDefinition s of
             None \<Rightarrow> None
           | Some jd \<Rightarrow>
               (case retry_delay x jd (jr_Retried (fs_Request s)) s of
                  (delay, s) \<Rightarrow>
                    fsm_finalize x
                      (je\<lparr>je_EndedAt := Some (v_now (x_jm x)), je_JobState := newState, je_ErrorMessage := msg,
                          je_ErrorCode := code, je_JobRequestID := jr_ID (fs_Request s)\<rparr>)
                      oldState delay s)))"

text \<open>A full request keeps the error; the short form of the scheduler has no place for it.\<close>

definition failing :: "string \<Rightarrow> string \<Rightarrow> JobExecutionStateMachine \<Rightarrow> JobExecutionStateMachine" where
  "failing msg code s =
     set_state FAILED
       (if fs_Info s then s else s\<lparr>fs_Request := (fs_Request s)\<lparr>jr_ErrorMessage := msg, jr_ErrorCode := code\<rparr>\<rparr>)"

definition failed_delay :: "fsm_env \<Rightarrow> JobExecutionStateMachine \<Rightarrow> int \<times> JobExecutionStateMachine" where
  "failed_delay x s =
     (case fs_JobDefinition s of
        None \<Rightarrow> (Second, s)
      | Some jd \<Rightarrow> retry_delay x jd (jr_Retried (fs_Request s)) s)"

definition failed ::
  "fsm_env \<Rightarrow> RequestState \<Rightarrow> bool \<Rightarrow> fsm_error \<Rightarrow> string \<Rightarrow> JobExecutionStateMachine \<Rightarrow>
   (JobExecutionStateMachine \<times> fsm_error option) option" where
  "failed x oldState cancelled err errorCode s =
     (let msg = x_text x err;
          errorCode = (if errorCode = [] then ''ERR_JOB_EXECUTE'' else errorCode);
          newState = (if cancelled then CANCELLED else FAILED);
          code = (if cancelled then ''ERR_JOB_CANCELLED'' else errorCode)
      in do {
        (s, saveErr) \<leftarrow> save_failed x oldState newState msg code (failing msg errorCode s);
        let (delay, s) = failed_delay x s;
        if fs_JobExecution s = None \<or> saveErr \<noteq> None
        then fsm_update x oldState newState msg code delay 0 False (set_state newState s)
        else Some (s, saveErr)
      })"

definition ScheduleFailed ::
  "fsm_env \<Rightarrow> fsm_error \<Rightarrow> string \<Rightarrow> JobExecutionStateMachine \<Rightarrow> (JobExecutionStateMachine \<times> fsm_error option) option" where
  "ScheduleFailed x err errorCode s = failed x (fs_revertState s) False err errorCode s"

definition LaunchFailed ::
  "fsm_env \<Rightarrow> fsm_error \<Rightarrow> JobExecutionStateMachine \<Rightarrow> (JobExecutionStateMachine \<times> fsm_error option) option" where
  "LaunchFailed x err s =
     do {
       (s, saveErr) \<leftarrow> failed x READY False err [] s;
       (s, _) \<leftarrow> sendJobExecutionLifecycleEvent x s;
       Some (s, saveErr)
     }"

subsection \<open>Ending\<close>

definition ExecutionCancelled ::
  "fsm_env \<Rightarrow> string \<Rightarrow> string \<Rightarrow> JobExecutionStateMachine \<Rightarrow> (JobExecutionStateMachine \<times> fsm_error option) option" where
  "ExecutionCancelled x errorCode errorMsg s =
     do {
       je \<leftarrow> fs_JobExecution s;
       if IsTerminal (je_JobState je) then Some (s, Some (WrongState (je_JobState je)))
       else
         (let code = (if errorCode = [] then ''ERR_JOB_CANCELLED'' else errorCode)
          in failed x EXECUTING True (Reason errorMsg) code
               (s\<lparr>fs_JobExecution := Some (je\<lparr>je_ErrorCode := code, je_ErrorMessage := errorMsg\<rparr>)\<rparr>))
     }"

definition ExecutionFailed ::
  "fsm_env \<Rightarrow> string \<Rightarrow> string \<Rightarrow> JobExecutionStateMachine \<Rightarrow> (JobExecutionStateMachine \<times> fsm_error option) option" where
  "ExecutionFailed x errorCode errorMsg s =
     do {
       je \<leftarrow> fs_JobExecution s;
       if IsTerminal (je_JobState je) then Some (s, Some (WrongState (je_JobState je)))
       else
         (let code = (if errorCode = [] then ''ERR_JOB_EXECUTE'' else errorCode)
          in do {
            (s, saveErr) \<leftarrow> failed x EXECUTING False (Reason errorMsg) code
               (s\<lparr>fs_JobExecution := Some (je\<lparr>je_ErrorCode := code, je_ErrorMessage := errorMsg\<rparr>)\<rparr>);
            (s, _) \<leftarrow> sendJobExecutionLifecycleEvent x s;
            Some (s, saveErr)
          })
     }"

definition ExecutionCompleted ::
  "fsm_env \<Rightarrow> JobExecutionStateMachine \<Rightarrow> (JobExecutionStateMachine \<times> fsm_error option) option" where
  "ExecutionCompleted x s =
     do {
       je \<leftarrow> fs_JobExecution s;
       (s, saveErr) \<leftarrow> fsm_finalize x
         (je\<lparr>je_JobState := COMPLETED, je_ErrorCode := [], je_ErrorMessage := [], je_EndedAt := Some (v_now (x_jm x))\<rparr>)
         EXECUTING 0 (set_state COMPLETED s);
       (s, _) \<leftarrow> sendJobExecutionLifecycleEvent x s;
       Some (s, saveErr)
     }"

subsection \<open>Stopping for a while\<close>

text \<open>Both ways to stop a running job release its ants first and then save the state with a delay.\<close>

definition suspend ::
  "fsm_env \<Rightarrow> RequestState \<Rightarrow> string \<Rightarrow> (JobRequest \<Rightarrow> JobRequest) \<Rightarrow> JobExecutionStateMachine \<Rightarrow>
   (JobExecutionStateMachine \<times> fsm_error option) option" where
  "suspend x st code counted s =
     do {
       je \<leftarrow> fs_JobExecution s;
       if je_JobState je \<noteq> EXECUTING then Some (s, Some (WrongState (je_JobState je)))
       else
         do {
           let s = set_state st (forceReleaseJobResources s);
           jd \<leftarrow> fs_JobDefinition s;
           let (delay, jd) = GetPauseTime (x_rnd x) jd;
           (s, saveErr) \<leftarrow> fsm_finalize x
             (je\<lparr>je_EndedAt := Some (v_now (x_jm x)), je_JobState := st, je_ErrorCode := code\<rparr>) EXECUTING delay
             (s\<lparr>fs_Request := counted (fs_Request s), fs_JobDefinition := Some jd\<rparr>);
           (s, _) \<leftarrow> sendJobExecutionLifecycleEvent x s;
           Some (s, saveErr)
         }
     }"

definition PauseJob ::
  "fsm_env \<Rightarrow> JobExecutionStateMachine \<Rightarrow> (JobExecutionStateMachine \<times> fsm_error option) option" where
  "PauseJob x s = suspend x PAUSED ''ERR_PAUSE_JOB'' (\<lambda>r. IncrRetried (IncrPausedCount r)) s"

definition RequiresManualApproval ::
  "fsm_env \<Rightarrow> JobExecutionStateMachine \<Rightarrow> (JobExecutionStateMachine \<times> fsm_error option) option" where
  "RequiresManualApproval x s = suspend x MANUAL_APPROVAL_REQUIRED ''ERR_MANUAL_APPROVAL_REQUIRED'' IncrRetried s"

definition RestartJobBackToPendingPaused ::
  "fsm_env \<Rightarrow> fsm_error \<Rightarrow> JobExecutionStateMachine \<Rightarrow> (JobExecutionStateMachine \<times> fsm_error option) option" where
  "RestartJobBackToPendingPaused x err s =
     do {
       let s = forceReleaseJobResources s;
       jd \<leftarrow> fs_JobDefinition s;
       let (delay, s) = retry_delay x jd (jr_Retried (fs_Request s)) s;
       let s = s\<lparr>fs_Request := IncrRetried (IncrPausedCount (fs_Request s))\<rparr>;
       (s, saveErr) \<leftarrow> fsm_update x EXECUTING (fs_revertState s) (x_text x err) [] delay
         (jr_Retried (fs_Request s)) True s;
       Some (set_state (fs_revertState s) s, saveErr)
     }"

definition RevertRequestToPendingPaused ::
  "fsm_env \<Rightarrow> fsm_error \<Rightarrow> JobExecutionStateMachine \<Rightarrow> (JobExecutionStateMachine \<times> fsm_error option) option" where
  "RevertRequestToPendingPaused x err s =
     do {
       let s = forceReleaseJobResources s;
       jd \<leftarrow> fs_JobDefinition s;
       let (delay, s) = retry_delay x jd (jr_Retried (fs_Request s)) s;
       (s, saveErr) \<leftarrow> fsm_update x READY (fs_revertState s) (x_text x err) [] delay 0 False s;
       let s = set_state (fs_revertState s) s;
       (case fs_JobExecution s of
          None \<Rightarrow> Some (s, saveErr)
        | Some je \<Rightarrow>
            (case exec_Delete (v_engine (x_jm x)) (v_dec (x_jm x)) (v_now (x_jm x)) (je_ID je) (jm_db (fs_jm s)) of
               (db, delErr) \<Rightarrow>
                 Some (s\<lparr>fs_JobExecution := Some (je\<lparr>je_JobState := DELETED, je_EndedAt := Some (v_now (x_jm x))\<rparr>),
                         fs_jm := (fs_jm s)\<lparr>jm_db := db\<rparr>\<rparr>,
                       if delErr \<noteq> None then map_option Repo delErr else saveErr)))
     }"

text \<open>The error code that the condition also reads is a field of the machine that nothing assigns.\<close>

definition CanRetry :: "JobExecutionStateMachine \<Rightarrow> bool option" where
  "CanRetry s = map_option (\<lambda>jd. jr_Retried (fs_Request s) < i64 (jd_Retry jd + 1)) (fs_JobDefinition s)"

definition DoesRequireFullRestart :: "JobExecutionStateMachine \<Rightarrow> bool option" where
  "DoesRequireFullRestart s =
     (if jr_HardRestart (fs_Request s) then Some True
      else map_option (\<lambda>jd. jd_HardResetAfterRetries jd > 0 \<and> jr_Retried (fs_Request s) > 0 \<and>
             jr_Retried (fs_Request s) mod i64 (jd_HardResetAfterRetries jd + 1) = 0) (fs_JobDefinition s))"

subsection \<open>Preparing\<close>

definition GetParams :: "db_engine \<Rightarrow> string \<Rightarrow> DB \<Rightarrow> (repo_error, NameTypeValue list) result" where
  "GetParams e rid db =
     (if rid = [] then Err ValidationError
      else case op_first (e_requests e) (\<lambda>r. jr_ID r = rid) (db_requests db) of
             Inl m \<Rightarrow> Err (DatabaseError m)
           | Inr None \<Rightarrow> Ok []
           | Inr (Some r) \<Rightarrow> Ok (take 1000 (sort_key nv_Name (jr_Params r))))"

text \<open>A lookup of a user, when there is one to look up; an error leaves no user.\<close>

definition load_user ::
  "fsm_env \<Rightarrow> bool \<Rightarrow> string \<Rightarrow> JobExecutionStateMachine \<Rightarrow> JobExecutionStateMachine \<times> fsm_error option" where
  "load_user x needed uid s =
     (if \<not> needed then (s, None)
      else case x_user x (fsm_QueryContext s) uid of
             Inl err \<Rightarrow> (s\<lparr>fs_User := None\<rparr>, Some (Repo err))
           | Inr u \<Rightarrow> (s\<lparr>fs_User := Some u\<rparr>, None))"

text \<open>Rows of names and values overwrite what a map has; a row that cannot be parsed is skipped.  A value
  carries whether it is secret.\<close>

definition add_values ::
  "(string \<Rightarrow> string \<Rightarrow> any option) \<Rightarrow> NameTypeValue list \<Rightarrow> (string, any \<times> bool) gomap \<Rightarrow> (string, any \<times> bool) gomap" where
  "add_values dec rows res =
     fold (\<lambda>v res. case GetParsedValue dec v of Inl _ \<Rightarrow> res | Inr a \<Rightarrow> Formicary_Prelude.mset (nv_Name v) (a, nv_Secret v) res) rows res"

definition GetDynamicConfigAndVariables ::
  "(string \<Rightarrow> string \<Rightarrow> any option) \<Rightarrow> (JobDefinition \<Rightarrow> (string \<times> any) list option) \<Rightarrow> JobDefinition \<Rightarrow> (string, any \<times> bool) gomap" where
  "GetDynamicConfigAndVariables dec dynamic jd =
     (let res = [(''JobID'', (AnyString ''0'', False)), (''JobType'', (AnyString (jd_JobType jd), False)),
                 (''JobRetry'', (AnyInt ''int'' 0, False)), (''JobElapsedSecs'', (AnyInt ''int'' 0, False))];
          res = add_values dec (jd_Variables jd) res;
          res = (case dynamic jd of
                   None \<Rightarrow> res
                 | Some cfg \<Rightarrow> fold (\<lambda>(k, a). Formicary_Prelude.mset k (a, False)) cfg res)
      in add_values dec (jd_Configs jd) res)"

text \<open>The configurations of the organization, then those of the user, then those of the definition.\<close>

definition buildDynamicConfigs :: "fsm_env \<Rightarrow> JobExecutionStateMachine \<Rightarrow> (string, any \<times> bool) gomap" where
  "buildDynamicConfigs x s =
     (let dec = v_dec (x_jm x);
          orgID = (if jr_OrganizationID (fs_Request s) \<noteq> [] then jr_OrganizationID (fs_Request s)
                   else case fs_User s of None \<Rightarrow> [] | Some u \<Rightarrow> us_OrganizationID u);
          res = (if orgID = [] then []
                 else case x_org_configs x orgID of Inl _ \<Rightarrow> [] | Inr rows \<Rightarrow> add_values dec rows []);
          res = (case fs_User s of
                   None \<Rightarrow> res
                 | Some u \<Rightarrow>
                     if us_ID u = [] then res
                     else case x_user_configs x (us_ID u) of Inl _ \<Rightarrow> res | Inr rows \<Rightarrow> add_values dec rows res)
      in case fs_JobDefinition s of
           None \<Rightarrow> res
         | Some jd \<Rightarrow> fold (\<lambda>(k, a). Formicary_Prelude.mset k a) (GetDynamicConfigAndVariables dec (x_dynamic x) jd) res)"

definition missing_params :: "fsm_env \<Rightarrow> JobExecutionStateMachine \<Rightarrow> JobDefinition \<Rightarrow> string list" where
  "missing_params x s jd =
     filter (\<lambda>name. mget (buildDynamicConfigs x s) name = None \<and> name \<notin> set (map nv_Name (jr_Params (fs_Request s))))
       (jd_RequiredParams jd)"

text \<open>The definition is checked at its version; a definition that does not pass stays in the machine.\<close>

definition load_definition ::
  "fsm_env \<Rightarrow> JobExecutionStateMachine \<Rightarrow> JobExecutionStateMachine \<times> fsm_error option" where
  "load_definition x s =
     (case v_definition (x_jm x) (fsm_QueryContext s) (jr_JobDefinitionID (fs_Request s)) of
        Inl err \<Rightarrow> (s\<lparr>fs_JobDefinition := None\<rparr>, Some (Repo err))
      | Inr jd \<Rightarrow>
          (case job_Validate (v_cron (x_jm x)) (x_valid_email x) (v_now (x_jm x)) jd of
             Inl err \<Rightarrow> (s\<lparr>fs_JobDefinition := Some jd\<rparr>, Some (Invalid err))
           | Inr jd \<Rightarrow>
               (let s = s\<lparr>fs_JobDefinition := Some jd\<rparr>
                in case load_user x (fs_User s = None \<and> jd_UserID jd \<noteq> [] \<and> \<not> jd_PublicPlugin jd) (jd_UserID jd) s of
                     (s, Some err) \<Rightarrow> (s, Some err)
                   | (s, None) \<Rightarrow>
                       if missing_params x s jd \<noteq> [] then (s, Some (MissingParams (missing_params x s jd)))
                       else (s, None))))"

definition fsm_Validate ::
  "fsm_env \<Rightarrow> JobExecutionStateMachine \<Rightarrow> JobExecutionStateMachine \<times> fsm_error option" where
  "fsm_Validate x s =
     (if fs_Reservations s = None then (s, Some NoReservations)
      else
        (let st = jr_JobState (fs_Request s);
             s = s\<lparr>fs_revertState := (if st \<noteq> PAUSED \<and> st \<noteq> MANUAL_APPROVAL_REQUIRED then PENDING else st)\<rparr>
         in case (if fs_Info s \<and> jr_Params (fs_Request s) = []
                  then GetParams (v_engine (x_jm x)) (jr_ID (fs_Request s)) (jm_db (fs_jm s))
                  else Ok (jr_Params (fs_Request s))) of
              Inl err \<Rightarrow> (s, Some (Repo err))
            | Inr ps \<Rightarrow>
                (let s = s\<lparr>fs_Request := (fs_Request s)\<lparr>jr_Params := ps\<rparr>\<rparr>
                 in case load_user x (jr_UserID (fs_Request s) \<noteq> []) (jr_UserID (fs_Request s)) s of
                      (s, Some err) \<Rightarrow> (s, Some err)
                    | (s, None) \<Rightarrow> load_definition x s)))"

definition load_last :: "fsm_env \<Rightarrow> JobExecutionStateMachine \<Rightarrow> JobExecutionStateMachine" where
  "load_last x s =
     (if jr_LastJobExecutionID (fs_Request s) = [] then s
      else case exec_Get (v_engine (x_jm x)) (v_dec (x_jm x)) (v_now (x_jm x)) (jr_LastJobExecutionID (fs_Request s))
                  (jm_db (fs_jm s)) of
             (db, res) \<Rightarrow>
               s\<lparr>fs_LastJobExecution := (case res of Inl _ \<Rightarrow> None | Inr je \<Rightarrow> Some je), fs_jm := (fs_jm s)\<lparr>jm_db := db\<rparr>\<rparr>)"

text \<open>The check of the launcher before it starts a job.\<close>

definition PrepareLaunch ::
  "fsm_env \<Rightarrow> string \<Rightarrow> JobExecutionStateMachine \<Rightarrow> (JobExecutionStateMachine \<times> fsm_error option) option" where
  "PrepareLaunch x jobExecutionID s =
     (case fsm_Validate x s of
        (s, Some err) \<Rightarrow> Some (s, Some err)
      | (s, None) \<Rightarrow>
          if jobExecutionID = [] then Some (s, Some NoExecutionID)
          else do {
            jd \<leftarrow> fs_JobDefinition s;
            reservations \<leftarrow> fs_Reservations s;
            if length reservations \<noteq> length (jd_Tasks jd) then Some (s, Some WrongReservations)
            else
              (case List.find (\<lambda>t. mget reservations (td_TaskType t) = None) (jd_Tasks jd) of
                 Some t \<Rightarrow> Some (s, Some (Requeue (td_TaskType t)))
               | None \<Rightarrow>
                   (case exec_Get (v_engine (x_jm x)) (v_dec (x_jm x)) (v_now (x_jm x)) jobExecutionID (jm_db (fs_jm s)) of
                      (db, Inl err) \<Rightarrow> Some (s\<lparr>fs_jm := (fs_jm s)\<lparr>jm_db := db\<rparr>\<rparr>, Some (Repo err))
                    | (db, Inr je) \<Rightarrow>
                        (let s = s\<lparr>fs_JobExecution := Some je, fs_jm := (fs_jm s)\<lparr>jm_db := db\<rparr>\<rparr>
                         in if jobExecutionID \<noteq> jr_JobExecutionID (fs_Request s)
                            then Some (s, Some (WrongExecution (jr_JobExecutionID (fs_Request s))))
                            else
                              (let s = load_last x s
                               in if jr_JobState (fs_Request s) \<noteq> READY \<or> je_JobState je \<noteq> READY
                                  then Some (s, Some (WrongState (jr_JobState (fs_Request s))))
                                  else Some (s, None)))))
          })"

subsection \<open>Starting\<close>

text \<open>The message to the launchers.  When the event cannot be encoded the job is marked as failed, and the
  result is that of saving this.\<close>

definition sendLaunchJobEvent ::
  "fsm_env \<Rightarrow> JobExecutionStateMachine \<Rightarrow> (JobExecutionStateMachine \<times> fsm_error option) option" where
  "sendLaunchJobEvent x s =
     do {
       je \<leftarrow> fs_JobExecution s;
       let ev = LaunchEvent (jr_ID (fs_Request s)) (je_ID je);
       if \<not> x_marshal x ev then LaunchFailed x NotMarshalled s
       else (case publish (x_jm x) ev (fs_jm s) of
               (w, ok) \<Rightarrow> Some (s\<lparr>fs_jm := w\<rparr>, if ok then None else Some NotSent))
     }"

text \<open>A new execution, or the old one when it did not end; the result is the execution or the error.\<close>

definition ready_execution ::
  "fsm_env \<Rightarrow> JobExecutionStateMachine \<Rightarrow> JobExecutionStateMachine \<times> fsm_error option" where
  "ready_execution x s =
     (let v = x_jm x; req = fs_Request s;
          (db, old) = (if jr_JobExecutionID req \<noteq> []
                       then exec_Get (v_engine v) (v_dec v) (v_now v) (jr_JobExecutionID req) (jm_db (fs_jm s))
                       else (jm_db (fs_jm s), Err NotFoundError));
          w = (fs_jm s)\<lparr>jm_db := db\<rparr>;
          create = (case CreateJobExecution v (x_calcCost x) (x_newids x) (x_fresh x)
                           (Some (NewJobExecution (v_now v) (jr_ID req) (jr_JobType req) (jr_JobVersion req)
                              (jr_UserID req) (jr_OrganizationID req))) w of
                      (w, saved, err) \<Rightarrow>
                        (s\<lparr>fs_JobExecution := saved, fs_jm := w\<rparr>, map_option (\<lambda>err. NotSaved (Repo err)) err))
      in case old of
           Inl _ \<Rightarrow> create
         | Inr je \<Rightarrow>
             if IsTerminal (je_JobState je) then create
             else
               (let je = je\<lparr>je_JobRequestID := jr_ID req\<rparr>
                in case ResetJobExecutionStateToReady v je w of
                     (w, Some err) \<Rightarrow> (s\<lparr>fs_jm := w\<rparr>, Some (NotReset (je_ID je) (Repo err)))
                   | (w, None) \<Rightarrow> (s\<lparr>fs_JobExecution := Some je, fs_jm := w\<rparr>, None)))"

text \<open>The error of the database and that of the event.\<close>

definition fsm_CreateJobExecution ::
  "fsm_env \<Rightarrow> JobExecutionStateMachine \<Rightarrow> (JobExecutionStateMachine \<times> fsm_error option \<times> fsm_error option) option" where
  "fsm_CreateJobExecution x s =
     (if fs_JobExecution s \<noteq> None then Some (s, Some ExecutionExists, None)
      else if jr_JobState (fs_Request s) \<noteq> PENDING \<and> jr_JobState (fs_Request s) \<noteq> PAUSED
      then Some (s, Some (WrongState (jr_JobState (fs_Request s))), None)
      else
        (case ready_execution x s of
           (s, Some err) \<Rightarrow> Some (s, Some err, None)
         | (s, None) \<Rightarrow>
             do {
               je \<leftarrow> fs_JobExecution s;
               (case SetReadyToExecute (v_engine (x_jm x)) (v_now (x_jm x)) (jr_ID (fs_Request s)) (je_ID je)
                       (jr_LastJobExecutionID (fs_Request s)) (jm_db (fs_jm s)) of
                  (db, Some err) \<Rightarrow> Some (s\<lparr>fs_jm := (fs_jm s)\<lparr>jm_db := db\<rparr>\<rparr>, Some (NotReady (Repo err)), None)
                | (db, None) \<Rightarrow>
                    do {
                      (s, eventErr) \<leftarrow> sendLaunchJobEvent x
                        (s\<lparr>fs_jm := (fs_jm s)\<lparr>jm_db := db\<rparr>,
                           fs_Request := (fs_Request s)\<lparr>jr_JobExecutionID := je_ID je, jr_JobState := READY\<rparr>\<rparr>);
                      Some (s, None, map_option NotLaunched eventErr)
                    })
             }))"

text \<open>The version of the definition is written into the context of the execution, up to the first value that
  cannot be added.\<close>

definition version_contexts :: "JobDefinition \<Rightarrow> JobExecution \<Rightarrow> JobExecution \<times> bool" where
  "version_contexts jd je =
     (case job_AddContext ''JobDefinitionID'' (AnyString (jd_ID jd)) je of
        Inl _ \<Rightarrow> (je, False)
      | Inr je1 \<Rightarrow>
          (case job_AddContext ''WorkflowVersion'' (AnyString (jd_SemVersion jd)) je1 of
             Inl _ \<Rightarrow> (je1, False)
           | Inr je2 \<Rightarrow>
               (case job_AddContext ''WorkflowInternalVersion'' (AnyInt ''int32'' (jd_Version jd)) je2 of
                  Inl _ \<Rightarrow> (je2, False)
                | Inr je3 \<Rightarrow> (je3, True))))"

definition SetJobStatusToExecuting ::
  "fsm_env \<Rightarrow> JobExecutionStateMachine \<Rightarrow> (JobExecutionStateMachine \<times> fsm_error option) option" where
  "SetJobStatusToExecuting x s =
     do {
       je \<leftarrow> fs_JobExecution s;
       (case UpdateJobRequestAndExecutionState (v_engine (x_jm x)) (v_now (x_jm x)) (je_ID je) READY EXECUTING []
               (jm_db (fs_jm s)) of
          (db, Some err) \<Rightarrow> Some (s\<lparr>fs_jm := (fs_jm s)\<lparr>jm_db := db\<rparr>\<rparr>, Some (Repo err))
        | (db, None) \<Rightarrow>
            do {
              jd \<leftarrow> fs_JobDefinition s;
              let (je, added) = version_contexts jd (je\<lparr>je_JobState := EXECUTING\<rparr>);
              let db = (if added then fst (UpdateJobContext (v_engine (x_jm x)) (je_ID je) (je_Contexts je) db) else db);
              (s, _) \<leftarrow> sendJobExecutionLifecycleEvent x
                (set_state EXECUTING (s\<lparr>fs_JobExecution := Some je, fs_jm := (fs_jm s)\<lparr>jm_db := db\<rparr>\<rparr>));
              Some (s, None)
            })
     }"

subsection \<open>Resources\<close>

definition method_of_string :: "string \<Rightarrow> TaskMethod" where
  "method_of_string m =
     (case List.find (\<lambda>t. method_string t = m)
             [ExpireArtifacts, ForkJob, AwaitForkedJob, Messaging, HTTPGet, HTTPPostForm, HTTPPostJSON, HTTPPutFORM,
              HTTPPutJSON, HTTPDelete, WebSocket, Shell, Docker, Kubernetes, Manual, FanOutJob] of
        Some t \<Rightarrow> t
      | None \<Rightarrow> RawMethod m)"

definition CheckAntResourcesAndConcurrencyForJob ::
  "fsm_env \<Rightarrow> JobExecutionStateMachine \<Rightarrow> fsm_error option option" where
  "CheckAntResourcesAndConcurrencyForJob x s =
     do {
       jd \<leftarrow> fs_JobDefinition s;
       let executing = sint (GetExecutionCount (request_summary (fs_Request s)) (jm_stats (fs_jm s)));
       if executing \<ge> sint (word_of_int (jd_MaxConcurrency jd) :: 32 word) then Some (Some (TooManyJobs executing))
       else
         (let owned = jd_UserID jd \<noteq> [] \<or> jd_OrganizationID jd \<noteq> [];
              (user, org) = UserOrgExecuting (request_summary (fs_Request s)) (jm_stats (fs_jm s));
              user_max = map_option us_MaxConcurrency (fs_User s);
              org_max = map_option og_MaxConcurrency (Option.bind (fs_User s) us_Organization)
          in Some
            (if owned \<and> user_max \<noteq> None \<and> int user \<ge> the user_max then Some (UserBusy (int user))
             else if owned \<and> org_max \<noteq> None \<and> int org \<ge> the org_max then Some (OrgBusy (int org))
             else map_option Resource
               (HasAntsForJobTags (v_now (x_jm x)) (x_timeout x) (fs_rm s)
                  (map (\<lambda>m. method_of_string (TrimSpace m)) (split_on (\<lambda>c. c = CHR '','') (jd_Methods jd)))
                  (SplitTags (jd_Tags jd)))))
     }"

definition fsm_ReserveJobResources ::
  "fsm_env \<Rightarrow> JobDefinition \<Rightarrow> JobExecutionStateMachine \<Rightarrow> JobExecutionStateMachine \<times> resource_error option" where
  "fsm_ReserveJobResources x jd s =
     (case ReserveJobResources (v_now (x_jm x)) (x_timeout x) (fs_rm s) (jr_ID (fs_Request s)) jd of
        (rm, reservations, err) \<Rightarrow> (s\<lparr>fs_Reservations := Some reservations, fs_rm := rm\<rparr>, err))"

subsection \<open>What the operations leave alone\<close>

text \<open>The ledger of ants, the id of the request, the reservations and the state to go back to.\<close>

definition keeps :: "JobExecutionStateMachine \<Rightarrow> JobExecutionStateMachine \<Rightarrow> bool" where
  "keeps s s' \<longleftrightarrow> fs_rm s' = fs_rm s \<and> jr_ID (fs_Request s') = jr_ID (fs_Request s) \<and>
     fs_Reservations s' = fs_Reservations s \<and> fs_revertState s' = fs_revertState s"

lemma keeps_refl [simp]: "keeps s s"
  by (simp add: keeps_def)

lemma keeps_trans [trans]: "keeps s t \<Longrightarrow> keeps t u \<Longrightarrow> keeps s u"
  by (simp add: keeps_def)

lemma set_state_simps [simp]:
  "fs_Info (set_state st s) = fs_Info s" "fs_JobDefinition (set_state st s) = fs_JobDefinition s"
  "fs_JobExecution (set_state st s) = fs_JobExecution s" "fs_jm (set_state st s) = fs_jm s"
  "fs_rm (set_state st s) = fs_rm s" "fs_Reservations (set_state st s) = fs_Reservations s"
  "fs_revertState (set_state st s) = fs_revertState s" "fs_User (set_state st s) = fs_User s"
  "fs_Request (set_state st s) = (fs_Request s)\<lparr>jr_JobState := st\<rparr>"
  by (simp_all add: set_state_def SetJobState_def)

lemma retry_delay_fields:
  assumes "retry_delay x jd n s = (d, s')"
  shows "keeps s s'" "fs_Request s' = fs_Request s" "fs_jm s' = fs_jm s" "fs_JobExecution s' = fs_JobExecution s"
    "fs_Info s' = fs_Info s" "fs_User s' = fs_User s" "fs_JobDefinition s' \<noteq> None"
  using assms by (auto simp: retry_delay_def keeps_def split: prod.splits)

lemma fsm_finalize_fields:
  assumes "fsm_finalize x je old d s = Some (s', err)"
  shows "keeps s s'" "fs_Request s' = fs_Request s" "fs_JobExecution s' = Some je" "fs_JobDefinition s' = fs_JobDefinition s"
  using assms by (auto simp: fsm_finalize_def keeps_def)

lemma fsm_update_fields:
  assumes "fsm_update x old new msg code d n b s = Some (s', err)"
  shows "keeps s s'" "fs_Request s' = fs_Request s" "fs_JobExecution s' = fs_JobExecution s"
    "fs_JobDefinition s' = fs_JobDefinition s"
  using assms by (auto simp: fsm_update_def keeps_def)

lemma lifecycle_fields:
  assumes "sendJobExecutionLifecycleEvent x s = Some (s', ok)"
  shows "keeps s s'" "fs_Request s' = fs_Request s" "fs_JobExecution s' = fs_JobExecution s"
    "fs_JobDefinition s' = fs_JobDefinition s" "jm_db (fs_jm s') = jm_db (fs_jm s)"
  using assms by (auto simp: sendJobExecutionLifecycleEvent_def keeps_def publish_def Let_def split: option.splits if_splits)

lemma save_failed_fields:
  assumes "save_failed x old new msg code s = Some (s', err)"
  shows "keeps s s' \<and> fs_Request s' = fs_Request s"
proof (cases "fs_JobExecution s")
  case None
  with assms show ?thesis by (simp add: save_failed_def)
next
  case (Some je)
  with assms obtain jd d s1 je' where "retry_delay x jd (jr_Retried (fs_Request s)) s = (d, s1)"
    and "fsm_finalize x je' old d s1 = Some (s', err)"
    by (auto simp: save_failed_def split: option.splits prod.splits)
  then show ?thesis using retry_delay_fields fsm_finalize_fields keeps_trans by metis
qed

lemma failing_fields [simp]:
  "keeps s (failing msg code s)" "jr_JobState (fs_Request (failing msg code s)) = FAILED"
  "fs_JobExecution (failing msg code s) = fs_JobExecution s" "fs_jm (failing msg code s) = fs_jm s"
  "jr_ID (fs_Request (failing msg code s)) = jr_ID (fs_Request s)"
  "jr_CronTriggered (fs_Request (failing msg code s)) = jr_CronTriggered (fs_Request s)"
  by (simp_all add: failing_def keeps_def)

lemma failed_delay_fields:
  assumes "failed_delay x s = (d, s')"
  shows "keeps s s'" "fs_Request s' = fs_Request s" "fs_JobExecution s' = fs_JobExecution s" "fs_jm s' = fs_jm s"
  using assms retry_delay_fields[where s = s and s' = s'] by (auto simp: failed_delay_def split: option.splits)

lemma failed_fields:
  assumes "failed x old cancelled err code s = Some (s', e)"
  shows "keeps s s' \<and> jr_JobState (fs_Request s') \<in> {FAILED, CANCELLED}"
proof -
  let ?c = "if code = [] then ''ERR_JOB_EXECUTE'' else code"
  define s0 new c where "s0 = failing (x_text x err) ?c s" and "new = (if cancelled then CANCELLED else FAILED)"
    and "c = (if cancelled then ''ERR_JOB_CANCELLED'' else ?c)"
  from assms obtain s1 se where 1: "save_failed x old new (x_text x err) c s0 = Some (s1, se)"
    and r: "(case failed_delay x s1 of (d, s2) \<Rightarrow>
      if fs_JobExecution s2 = None \<or> se \<noteq> None
      then fsm_update x old new (x_text x err) c d 0 False (set_state new s2) else Some (s2, se)) = Some (s', e)"
    unfolding failed_def Let_def s0_def[symmetric] new_def[symmetric] c_def[symmetric] bind_eq_Some_conv split_paired_Ex prod.case
    by blast
  obtain d s2 where 2: "failed_delay x s1 = (d, s2)" by (rule prod.exhaust)
  note r = r[unfolded 2 prod.case] and k1 = save_failed_fields[OF 1] and k2 = failed_delay_fields[OF 2]
  have k: "keeps s s2" "jr_JobState (fs_Request s2) = FAILED"
    using k1 k2 keeps_trans[of s s0 s1] keeps_trans[of s s1 s2] by (simp_all add: s0_def)
  show ?thesis
  proof (cases "fs_JobExecution s2 = None \<or> se \<noteq> None")
    case True
    note f = fsm_update_fields(1,2)[OF r[unfolded if_P[OF True]]]
    have "keeps s2 (set_state new s2)" by (simp add: keeps_def)
    then have "keeps s s'" using k(1) f(1) keeps_trans by blast
    with f(2) show ?thesis by (simp add: new_def)
  next
    case False
    with r k show ?thesis unfolding if_not_P[OF False] by simp
  qed
qed

lemma ScheduleFailed_fields:
  assumes "ScheduleFailed x err code s = Some (s', e)"
  shows "keeps s s'" "jr_JobState (fs_Request s') \<in> {FAILED, CANCELLED}"
  using failed_fields[OF assms[unfolded ScheduleFailed_def]] by auto

lemma LaunchFailed_fields:
  assumes "LaunchFailed x err s = Some (s', e)"
  shows "keeps s s'" "jr_JobState (fs_Request s') \<in> {FAILED, CANCELLED}"
proof -
  from assms obtain s1 ok where 1: "failed x READY False err [] s = Some (s1, e)"
    and 2: "sendJobExecutionLifecycleEvent x s1 = Some (s', ok)"
    by (auto simp: LaunchFailed_def bind_eq_Some_conv)
  show "keeps s s'" "jr_JobState (fs_Request s') \<in> {FAILED, CANCELLED}"
    using failed_fields[OF 1] lifecycle_fields(2)[OF 2] keeps_trans[OF _ lifecycle_fields(1)[OF 2]] by simp_all
qed

subsection \<open>Restarting\<close>

lemma forceRelease_simps [simp]:
  "fs_Info (forceReleaseJobResources s) = fs_Info s" "fs_JobDefinition (forceReleaseJobResources s) = fs_JobDefinition s"
  "fs_JobExecution (forceReleaseJobResources s) = fs_JobExecution s" "fs_jm (forceReleaseJobResources s) = fs_jm s"
  "fs_Reservations (forceReleaseJobResources s) = fs_Reservations s" "fs_User (forceReleaseJobResources s) = fs_User s"
  "fs_revertState (forceReleaseJobResources s) = fs_revertState s" "fs_Request (forceReleaseJobResources s) = fs_Request s"
  by (simp_all add: forceReleaseJobResources_def)

lemma forceRelease_frees:
  assumes "state_inv (fs_rm s)" and "ledger (fs_rm s)" and "fs_Reservations s \<noteq> None"
  shows "held_by (jr_ID (fs_Request s)) (fs_rm (forceReleaseJobResources s)) = {}"
    "held_by_others (jr_ID (fs_Request s)) (fs_rm (forceReleaseJobResources s)) = held_by_others (jr_ID (fs_Request s)) (fs_rm s)"
  using assms(3) releaseJob_held[OF assms(1,2)]
  by (auto simp: forceReleaseJobResources_def ReleaseJobResources_def held_by_def held_by_others_def)

lemma restart_unsaved:
  assumes "fs_revertState s = PENDING" and "fs_JobDefinition s = Some jd"
  shows "\<exists>s'. RestartJobBackToPendingPaused x err s = Some (s', Some (Repo PlainError)) \<and>
    jm_db (fs_jm s') = jm_db (fs_jm s) \<and> jr_JobState (fs_Request s') = PENDING \<and>
    jr_ID (fs_Request s') = jr_ID (fs_Request s) \<and> fs_rm s' = fs_rm (forceReleaseJobResources s)"
proof -
  let ?s = "forceReleaseJobResources s"
  obtain d s1 where d: "retry_delay x jd (jr_Retried (fs_Request ?s)) ?s = (d, s1)" by (rule prod.exhaust)
  note f = retry_delay_fields[OF d]
  define s2 where "s2 = s1\<lparr>fs_Request := IncrRetried (IncrPausedCount (fs_Request s1))\<rparr>"
  have u: "fsm_update x EXECUTING PENDING (x_text x err) [] d (jr_Retried (fs_Request s2)) True s2 =
    Some (s2\<lparr>fs_jm := (fs_jm s)\<lparr>jm_stats := reg_Pending (request_summary (fs_Request s2)) True (jm_stats (fs_jm s))\<rparr>\<rparr>, Some (Repo PlainError))"
    using f(3) by (simp add: fsm_update_def UpdateJobRequestState_def UpdateJobState_def CanTransitionTo_def s2_def)
  have "fs_revertState s1 = PENDING" using f(1) assms(1) by (simp add: keeps_def)
  moreover have "fs_rm s1 = fs_rm ?s" using f(1) by (simp add: keeps_def)
  ultimately show ?thesis
    using u f(2) assms(2) d
    by (simp add: RestartJobBackToPendingPaused_def s2_def[symmetric] Let_def) (simp add: s2_def IncrRetried_def IncrPausedCount_def)
qed

lemma load_user_fields:
  assumes "load_user x b u s = (s', e)"
  shows "keeps s s'" "fs_Request s' = fs_Request s" "fs_JobDefinition s' = fs_JobDefinition s"
    "fs_JobExecution s' = fs_JobExecution s" "fs_jm s' = fs_jm s"
  using assms by (auto simp: load_user_def keeps_def split: if_splits sum.splits)

lemma load_definition_fields:
  assumes "load_definition x s = (s', e)"
  shows "keeps s s'" "fs_Request s' = fs_Request s" "fs_JobExecution s' = fs_JobExecution s" "fs_jm s' = fs_jm s"
    "e = None \<Longrightarrow> fs_JobDefinition s' \<noteq> None"
proof -
  have "keeps s s' \<and> fs_Request s' = fs_Request s \<and> fs_JobExecution s' = fs_JobExecution s \<and> fs_jm s' = fs_jm s \<and>
    (e = None \<longrightarrow> fs_JobDefinition s' \<noteq> None)"
  proof (cases "v_definition (x_jm x) (fsm_QueryContext s) (jr_JobDefinitionID (fs_Request s))")
    case (Inl a)
    with assms show ?thesis by (auto simp: load_definition_def keeps_def)
  next
    case (Inr jd)
    show ?thesis
    proof (cases "job_Validate (v_cron (x_jm x)) (x_valid_email x) (v_now (x_jm x)) jd")
      case (Inl a)
      with Inr assms show ?thesis by (auto simp: load_definition_def keeps_def)
    next
      case r: (Inr jd')
      let ?s = "s\<lparr>fs_JobDefinition := Some jd'\<rparr>"
      obtain s1 e1 where l: "load_user x (fs_User ?s = None \<and> jd_UserID jd' \<noteq> [] \<and> \<not> jd_PublicPlugin jd') (jd_UserID jd') ?s = (s1, e1)"
        by (rule prod.exhaust)
      note f = load_user_fields[OF l]
      have "s' = s1" using assms Inr r l by (auto simp: load_definition_def Let_def split: option.splits if_splits)
      moreover have "keeps s s1" using f(1) by (simp add: keeps_def)
      ultimately show ?thesis using f by simp
    qed
  qed
  then show "keeps s s'" "fs_Request s' = fs_Request s" "fs_JobExecution s' = fs_JobExecution s" "fs_jm s' = fs_jm s"
    "e = None \<Longrightarrow> fs_JobDefinition s' \<noteq> None" by simp_all
qed

lemma Validate_fields:
  assumes "fsm_Validate x s = (s', None)"
  shows "fs_revertState s' = (if jr_JobState (fs_Request s) \<noteq> PAUSED \<and> jr_JobState (fs_Request s) \<noteq> MANUAL_APPROVAL_REQUIRED
      then PENDING else jr_JobState (fs_Request s))"
    "fs_Reservations s' = fs_Reservations s" "fs_Reservations s \<noteq> None" "fs_rm s' = fs_rm s" "fs_jm s' = fs_jm s"
    "jr_ID (fs_Request s') = jr_ID (fs_Request s)" "jr_JobState (fs_Request s') = jr_JobState (fs_Request s)"
    "fs_JobDefinition s' \<noteq> None" "fs_JobExecution s' = fs_JobExecution s"
proof -
  show r: "fs_Reservations s \<noteq> None" using assms by (cases "fs_Reservations s = None") (simp_all add: fsm_Validate_def)
  define s1 where "s1 = s\<lparr>fs_revertState := (if jr_JobState (fs_Request s) \<noteq> PAUSED \<and> jr_JobState (fs_Request s) \<noteq> MANUAL_APPROVAL_REQUIRED
      then PENDING else jr_JobState (fs_Request s))\<rparr>"
  obtain ps where ps: "(if fs_Info s1 \<and> jr_Params (fs_Request s1) = []
      then GetParams (v_engine (x_jm x)) (jr_ID (fs_Request s1)) (jm_db (fs_jm s1)) else Ok (jr_Params (fs_Request s1))) = Ok ps"
    using assms r unfolding fsm_Validate_def Let_def s1_def[symmetric] by (auto split: sum.splits)
  define s2 where "s2 = s1\<lparr>fs_Request := (fs_Request s1)\<lparr>jr_Params := ps\<rparr>\<rparr>"
  obtain s3 e where l: "load_user x (jr_UserID (fs_Request s2) \<noteq> []) (jr_UserID (fs_Request s2)) s2 = (s3, e)" by (rule prod.exhaust)
  have "e = None \<and> load_definition x s3 = (s', None)"
    using assms r unfolding fsm_Validate_def Let_def s1_def[symmetric] ps sum.case s2_def[symmetric] l by (auto split: option.splits)
  then have d: "load_definition x s3 = (s', None)" by simp
  note f = load_user_fields[OF l] and g = load_definition_fields[OF d]
  have k: "keeps s2 s'" by (rule keeps_trans[OF f(1) g(1)])
  show "fs_revertState s' = (if jr_JobState (fs_Request s) \<noteq> PAUSED \<and> jr_JobState (fs_Request s) \<noteq> MANUAL_APPROVAL_REQUIRED
      then PENDING else jr_JobState (fs_Request s))"
    "fs_Reservations s' = fs_Reservations s" "fs_rm s' = fs_rm s" "jr_ID (fs_Request s') = jr_ID (fs_Request s)"
    using k by (simp_all add: keeps_def s2_def s1_def)
  show "jr_JobState (fs_Request s') = jr_JobState (fs_Request s)" "fs_JobDefinition s' \<noteq> None"
    "fs_JobExecution s' = fs_JobExecution s" "fs_jm s' = fs_jm s"
    using f g by (simp_all add: s2_def s1_def)
qed

lemma exec_Get_id:
  assumes "sql_engine e" and "exec_Get e dec now xid db = (db', Ok je)"
  shows "je_ID je = xid"
proof -
  from assms(2) obtain y where y: "op_first (e_execs e) (\<lambda>x. je_ID x = xid \<and> je_Active x) (db_execs db) = Ok (Some y)"
    by (auto simp: exec_Get_def split: if_splits sum.splits option.splits)
  have "je_ID y = xid" using sql_engine.axioms(2)[OF assms(1)] y by (auto dest: sql_table.first_ok)
  with assms(2) y show ?thesis
    by (auto simp: exec_Get_def job_AfterLoad_def sort_contexts_def Let_def split: if_splits sum.splits prod.splits)
qed

lemma PrepareLaunch_ready:
  assumes "sql_engine (v_engine (x_jm x))" and "PrepareLaunch x xid s = Some (s', None)"
  shows "fs_revertState s' = PENDING" "fs_Reservations s' \<noteq> None" "fs_rm s' = fs_rm s" "fs_JobDefinition s' \<noteq> None"
    "\<exists>je. fs_JobExecution s' = Some je \<and> je_ID je = xid"
proof -
  obtain s1 where v: "fsm_Validate x s = (s1, None)" using assms(2) by (auto simp: PrepareLaunch_def split: prod.splits option.splits)
  note f = Validate_fields[OF v]
  from assms(2) obtain jd rs where "fs_JobDefinition s1 = Some jd" "fs_Reservations s1 = Some rs"
    by (auto simp: PrepareLaunch_def v bind_eq_Some_conv split: if_splits)
  note p = assms(2)[unfolded PrepareLaunch_def v prod.case option.case this bind.bind_lunit]
  from p have ne: "xid \<noteq> []" by (auto split: if_splits)
  note p = p[unfolded if_not_P[OF ne]]
  from p have len: "\<not> length rs \<noteq> length (jd_Tasks jd)" by (auto split: if_splits)
  note p = p[unfolded if_not_P[OF len]]
  from p have fd: "List.find (\<lambda>t. mget rs (td_TaskType t) = None) (jd_Tasks jd) = None" by (auto split: option.splits)
  note p = p[unfolded fd option.case]
  obtain db r where g: "exec_Get (v_engine (x_jm x)) (v_dec (x_jm x)) (v_now (x_jm x)) xid (jm_db (fs_jm s1)) = (db, r)"
    by (rule prod.exhaust)
  from p g obtain je where r: "r = Ok je" by (auto split: sum.splits)
  define s2 where "s2 = s1\<lparr>fs_JobExecution := Some je, fs_jm := (fs_jm s1)\<lparr>jm_db := db\<rparr>\<rparr>"
  from p g r have "s' = load_last x s2" and "jr_JobState (fs_Request s') = READY"
    by (auto simp: Let_def s2_def split: if_splits)
  moreover have "fs_Request (load_last x s2) = fs_Request s1" "fs_revertState (load_last x s2) = fs_revertState s1"
    "fs_Reservations (load_last x s2) = fs_Reservations s1" "fs_rm (load_last x s2) = fs_rm s1"
    "fs_JobDefinition (load_last x s2) = fs_JobDefinition s1" "fs_JobExecution (load_last x s2) = Some je"
    by (auto simp: load_last_def s2_def split: prod.splits)
  ultimately show "fs_revertState s' = PENDING" "fs_Reservations s' \<noteq> None" "fs_rm s' = fs_rm s" "fs_JobDefinition s' \<noteq> None"
    "\<exists>je. fs_JobExecution s' = Some je \<and> je_ID je = xid"
    using f exec_Get_id[OF assms(1) g[unfolded r]] by simp_all
qed

lemma UpdateJobContext_requests:
  assumes "sql_engine e"
  shows "db_requests (fst (UpdateJobContext e xid cs db)) = db_requests db"
proof -
  let ?body = "\<lambda>d. case update_execs e (\<lambda>x. je_ID x = xid) (\<lambda>x. x\<lparr>je_Contexts := cs\<rparr>) d of
    Inl m \<Rightarrow> Err (DatabaseError m) | Inr (d', _) \<Rightarrow> Ok d'"
  obtain db' err where t: "e_transaction e ?body db = (db', err)" by (rule prod.exhaust)
  have "db_requests db' = db_requests db"
  proof (cases err)
    case None
    then have "?body db = Ok db'" using t sql_engine.tx_commit[OF assms, of ?body db db'] by simp
    then obtain n where "update_execs e (\<lambda>x. je_ID x = xid) (\<lambda>x. x\<lparr>je_Contexts := cs\<rparr>) db = Ok (db', n)"
      by (auto split: sum.splits)
    then show ?thesis using sql_engine.update_execs_Ok[OF assms] by fastforce
  next
    case (Some m)
    then show ?thesis using t sql_engine.tx_rollback[OF assms, of ?body db db' m] by simp
  qed
  with t show ?thesis by (simp add: UpdateJobContext_def)
qed

lemma SetJobStatusToExecuting_saved:
  assumes "sql_engine (v_engine (x_jm x))" and "fs_JobExecution s = Some je" and "in_sync (je_ID je) (jm_db (fs_jm s))"
    and "SetJobStatusToExecuting x s = Some (s', None)"
  shows "keeps s s'" "fs_JobDefinition s' = fs_JobDefinition s" "fs_JobDefinition s \<noteq> None"
    "\<forall>r \<in> set (db_requests (jm_db (fs_jm s'))). jr_JobExecutionID r = je_ID je \<longrightarrow> jr_JobState r = EXECUTING"
    "\<exists>r \<in> set (db_requests (jm_db (fs_jm s'))). jr_JobExecutionID r = je_ID je"
proof -
  let ?e = "v_engine (x_jm x)" and ?now = "v_now (x_jm x)"
  let ?f = "\<lambda>r. r\<lparr>jr_JobState := EXECUTING, jr_UpdatedAt := ?now, jr_CurrentTask := jr_CurrentTask r\<rparr>"
  let ?g = "\<lambda>x. x\<lparr>je_JobState := EXECUTING, je_UpdatedAt := ?now, je_CurrentTask := je_CurrentTask x\<rparr>"
  obtain db err where u: "UpdateJobRequestAndExecutionState ?e ?now (je_ID je) READY EXECUTING [] (jm_db (fs_jm s)) = (db, err)"
    by (rule prod.exhaust)
  with assms(2,4) have err: "err = None"
    by (cases err) (simp_all add: SetJobStatusToExecuting_def)
  with u have "e_transaction ?e (update_both ?e (je_ID je) READY ?f ?g) (jm_db (fs_jm s)) = (db, None)"
    by (simp add: UpdateJobRequestAndExecutionState_def IsTerminal_def)
  then have b: "update_both ?e (je_ID je) READY ?f ?g (jm_db (fs_jm s)) = Ok db" by (rule sql_engine.tx_commit[OF assms(1)])
  note sync = sql_engine.update_both_sync(2,7)[OF assms(1) b assms(3), of EXECUTING]
  from assms(2,4) u err obtain jd where jd: "fs_JobDefinition s = Some jd"
    by (auto simp: SetJobStatusToExecuting_def bind_eq_Some_conv)
  obtain je' added where vc: "version_contexts jd (je\<lparr>je_JobState := EXECUTING\<rparr>) = (je', added)" by (rule prod.exhaust)
  define db1 where "db1 = (if added then fst (UpdateJobContext ?e (je_ID je') (je_Contexts je') db) else db)"
  define s1 where "s1 = set_state EXECUTING (s\<lparr>fs_JobExecution := Some je', fs_jm := (fs_jm s)\<lparr>jm_db := db1\<rparr>\<rparr>)"
  have "Option.bind (sendJobExecutionLifecycleEvent x s1) (\<lambda>(s, _). Some (s, None :: fsm_error option)) = Some (s', None)"
    using assms(4) by (simp add: SetJobStatusToExecuting_def assms(2) u err jd vc Let_def db1_def s1_def split del: if_split)
  then obtain ok where l: "sendJobExecutionLifecycleEvent x s1 = Some (s', ok)" by (auto simp: bind_eq_Some_conv)
  note f = lifecycle_fields[OF l]
  have k: "keeps s s1" by (simp add: keeps_def s1_def)
  show "keeps s s'" by (rule keeps_trans[OF k f(1)])
  show "fs_JobDefinition s' = fs_JobDefinition s" using f(4) by (simp add: s1_def)
  show "fs_JobDefinition s \<noteq> None" using jd by simp
  have "jm_db (fs_jm s') = db1" using f(5) by (simp add: s1_def)
  moreover have "db_requests db1 = db_requests db" using UpdateJobContext_requests[OF assms(1)] by (simp add: db1_def)
  ultimately have q: "db_requests (jm_db (fs_jm s')) = db_requests db" by simp
  show "\<forall>r \<in> set (db_requests (jm_db (fs_jm s'))). jr_JobExecutionID r = je_ID je \<longrightarrow> jr_JobState r = EXECUTING"
    "\<exists>r \<in> set (db_requests (jm_db (fs_jm s'))). jr_JobExecutionID r = je_ID je"
    unfolding q using sync by simp_all
qed

text \<open>C8: A job that asks to be restarted is not put back into the queue: the machine that the launcher prepared
  goes back to PENDING, and the table of transitions does not lead there from EXECUTING.  Saving fails,
  the request stays EXECUTING in the database while its ants are already released, and the machine
  believes that it is pending.\<close>

theorem restart_never_requeues:
  assumes "sql_engine (v_engine (x_jm x))" and "state_inv (fs_rm s)" and "ledger (fs_rm s)"
    and "PrepareLaunch x xid s = Some (s1, None)" and "in_sync xid (jm_db (fs_jm s1))"
    and "SetJobStatusToExecuting x s1 = Some (s2, None)"
  shows "\<exists>s3. RestartJobBackToPendingPaused x err s2 = Some (s3, Some (Repo PlainError)) \<and>
    jr_JobState (fs_Request s3) = PENDING \<and> held_by (jr_ID (fs_Request s3)) (fs_rm s3) = {} \<and>
    (\<exists>r \<in> set (db_requests (jm_db (fs_jm s3))). jr_JobExecutionID r = xid) \<and>
    (\<forall>r \<in> set (db_requests (jm_db (fs_jm s3))). jr_JobExecutionID r = xid \<longrightarrow> jr_JobState r = EXECUTING)"
proof -
  note p = PrepareLaunch_ready[OF assms(1,4)]
  then obtain je where je: "fs_JobExecution s1 = Some je" "je_ID je = xid" by blast
  note e = SetJobStatusToExecuting_saved[OF assms(1) je(1) assms(5)[folded je(2)] assms(6)]
  have k: "fs_revertState s2 = PENDING" "fs_Reservations s2 \<noteq> None" "fs_rm s2 = fs_rm s"
    using e(1) p(1-3) by (simp_all add: keeps_def)
  from e(2,3) obtain jd where "fs_JobDefinition s2 = Some jd" by auto
  from restart_unsaved[OF k(1) this, of x err] obtain s3 where
    r: "RestartJobBackToPendingPaused x err s2 = Some (s3, Some (Repo PlainError))" "jm_db (fs_jm s3) = jm_db (fs_jm s2)"
    "jr_JobState (fs_Request s3) = PENDING" "jr_ID (fs_Request s3) = jr_ID (fs_Request s2)"
    "fs_rm s3 = fs_rm (forceReleaseJobResources s2)" by blast
  have "held_by (jr_ID (fs_Request s3)) (fs_rm s3) = {}"
    unfolding r(4,5) using forceRelease_frees(1)[of s2] assms(2,3) k by simp
  with r e(4,5) je(2) show ?thesis by simp
qed

subsection \<open>Creating and reserving\<close>

lemma sendLaunch_fields:
  assumes "sendLaunchJobEvent x s = Some (s', e)" and "fs_JobExecution s = Some je"
  shows "keeps s s'"
    "(jr_JobState (fs_Request s') \<in> {FAILED, CANCELLED} \<or>
      fs_Request s' = fs_Request s \<and> fs_JobDefinition s' = fs_JobDefinition s \<and>
      (e = None \<longrightarrow> jm_events (fs_jm s') = LaunchEvent (jr_ID (fs_Request s)) (je_ID je) # jm_events (fs_jm s)))"
proof -
  have "keeps s s' \<and> (jr_JobState (fs_Request s') \<in> {FAILED, CANCELLED} \<or>
      fs_Request s' = fs_Request s \<and> fs_JobDefinition s' = fs_JobDefinition s \<and>
      (e = None \<longrightarrow> jm_events (fs_jm s') = LaunchEvent (jr_ID (fs_Request s)) (je_ID je) # jm_events (fs_jm s)))"
  proof (cases "x_marshal x (LaunchEvent (jr_ID (fs_Request s)) (je_ID je))")
    case True
    with assms show ?thesis
      by (auto simp: sendLaunchJobEvent_def Let_def publish_def keeps_def split: if_splits)
  next
    case False
    with assms have "LaunchFailed x NotMarshalled s = Some (s', e)" by (simp add: sendLaunchJobEvent_def Let_def)
    from LaunchFailed_fields[OF this] show ?thesis by simp
  qed
  then show "keeps s s'"
    "(jr_JobState (fs_Request s') \<in> {FAILED, CANCELLED} \<or>
      fs_Request s' = fs_Request s \<and> fs_JobDefinition s' = fs_JobDefinition s \<and>
      (e = None \<longrightarrow> jm_events (fs_jm s') = LaunchEvent (jr_ID (fs_Request s)) (je_ID je) # jm_events (fs_jm s)))"
    by blast+
qed

lemma ready_execution_fields:
  assumes "ready_execution x s = (s', e)"
  shows "keeps s s'" "fs_Request s' = fs_Request s" "fs_JobDefinition s' = fs_JobDefinition s"
  using assms
  by (auto simp: ready_execution_def Let_def keeps_def split: prod.splits sum.splits if_splits option.splits)

text \<open>After an execution was to be created the request is as it was, with the launchers or failed.\<close>

definition launched :: "JobExecutionStateMachine \<Rightarrow> JobExecutionStateMachine \<Rightarrow> fsm_error option \<Rightarrow> bool" where
  "launched s s' eventErr \<longleftrightarrow>
     jr_JobState (fs_Request s') \<in> {FAILED, CANCELLED} \<or>
     jr_JobState (fs_Request s') = READY \<and> fs_JobDefinition s' = fs_JobDefinition s \<and>
     (eventErr = None \<longrightarrow>
        (\<exists>evs. jm_events (fs_jm s') = LaunchEvent (jr_ID (fs_Request s')) (jr_JobExecutionID (fs_Request s')) # evs))"

lemma made_ready_launched:
  assumes "fs_JobExecution s = Some je" and "sendLaunchJobEvent x
      (s\<lparr>fs_jm := w, fs_Request := (fs_Request s)\<lparr>jr_JobExecutionID := je_ID je, jr_JobState := READY\<rparr>\<rparr>) = Some (s', e)"
  shows "keeps s s'" "launched s s' (map_option NotLaunched e)"
proof -
  let ?s = "s\<lparr>fs_jm := w, fs_Request := (fs_Request s)\<lparr>jr_JobExecutionID := je_ID je, jr_JobState := READY\<rparr>\<rparr>"
  have je: "fs_JobExecution ?s = Some je" and k: "keeps s ?s" using assms(1) by (simp_all add: keeps_def)
  note g = sendLaunch_fields[OF assms(2) je]
  show "keeps s s'" by (rule keeps_trans[OF k g(1)])
  then show "launched s s' (map_option NotLaunched e)" using g(2) by (auto simp: launched_def)
qed

lemma CreateJobExecution_fields:
  assumes "fsm_CreateJobExecution x s = Some (s', dbErr, evErr)"
  shows "keeps s s'" "dbErr = None \<Longrightarrow> launched s s' evErr"
proof -
  have "keeps s s' \<and> (dbErr = None \<longrightarrow> launched s s' evErr)"
  proof (cases "fs_JobExecution s \<noteq> None \<or> jr_JobState (fs_Request s) \<noteq> PENDING \<and> jr_JobState (fs_Request s) \<noteq> PAUSED")
    case True
    with assms have "s' = s \<and> dbErr \<noteq> None"
      by (cases "fs_JobExecution s = None") (auto simp: fsm_CreateJobExecution_def)
    then show ?thesis by auto
  next
    case False
    obtain s1 e1 where 1: "ready_execution x s = (s1, e1)" by (rule prod.exhaust)
    note f = ready_execution_fields[OF 1]
    show ?thesis
    proof (cases e1)
      case (Some err)
      with assms False 1 f(1) show ?thesis by (auto simp: fsm_CreateJobExecution_def)
    next
      case None
      with assms False 1 obtain je where je: "fs_JobExecution s1 = Some je"
        by (auto simp: fsm_CreateJobExecution_def bind_eq_Some_conv)
      obtain db e2 where 2: "SetReadyToExecute (v_engine (x_jm x)) (v_now (x_jm x)) (jr_ID (fs_Request s1)) (je_ID je)
          (jr_LastJobExecutionID (fs_Request s1)) (jm_db (fs_jm s1)) = (db, e2)" by (rule prod.exhaust)
      show ?thesis
      proof (cases e2)
        case (Some err)
        with assms False 1 None je 2 have "s' = s1\<lparr>fs_jm := (fs_jm s1)\<lparr>jm_db := db\<rparr>\<rparr>" "dbErr \<noteq> None"
          by (auto simp: fsm_CreateJobExecution_def)
        with f(1) show ?thesis by (auto simp: keeps_def)
      next
        case none: None
        from assms False 1 None je 2 none obtain e3 where 3: "sendLaunchJobEvent x (s1\<lparr>fs_jm := (fs_jm s1)\<lparr>jm_db := db\<rparr>,
            fs_Request := (fs_Request s1)\<lparr>jr_JobExecutionID := je_ID je, jr_JobState := READY\<rparr>\<rparr>) = Some (s', e3)"
          and ev: "evErr = map_option NotLaunched e3"
          by (auto simp: fsm_CreateJobExecution_def bind_eq_Some_conv)
        note g = made_ready_launched[OF je 3]
        show ?thesis using keeps_trans[OF f(1) g(1)] g(2) f(3) by (simp add: ev launched_def)
      qed
    qed
  qed
  then show "keeps s s'" "dbErr = None \<Longrightarrow> launched s s' evErr" by blast+
qed

lemma Revert_fields:
  assumes "RevertRequestToPendingPaused x err s = Some (s', e)"
  shows "fs_rm s' = fs_rm (forceReleaseJobResources s)" "jr_JobState (fs_Request s') = fs_revertState s"
proof -
  let ?s = "forceReleaseJobResources s"
  from assms obtain jd where jd: "fs_JobDefinition s = Some jd"
    by (auto simp: RevertRequestToPendingPaused_def Let_def bind_eq_Some_conv)
  obtain d s1 where d: "retry_delay x jd (jr_Retried (fs_Request ?s)) ?s = (d, s1)" by (rule prod.exhaust)
  note f = retry_delay_fields[OF d]
  define rest where "rest s2 saveErr = (case fs_JobExecution s2 of
      None \<Rightarrow> Some (s2, saveErr)
    | Some je \<Rightarrow>
        (case exec_Delete (v_engine (x_jm x)) (v_dec (x_jm x)) (v_now (x_jm x)) (je_ID je) (jm_db (fs_jm s2)) of
           (db, delErr) \<Rightarrow>
             Some (s2\<lparr>fs_JobExecution := Some (je\<lparr>je_JobState := DELETED, je_EndedAt := Some (v_now (x_jm x))\<rparr>),
                     fs_jm := (fs_jm s2)\<lparr>jm_db := db\<rparr>\<rparr>,
                   if delErr \<noteq> None then map_option Repo delErr else saveErr)))" for s2 :: JobExecutionStateMachine and saveErr :: "fsm_error option"
  have rest: "fs_rm s3 = fs_rm s2 \<and> fs_Request s3 = fs_Request s2" if "rest s2 e2 = Some (s3, e3)" for s2 e2 s3 e3
    using that by (auto simp: rest_def split: option.splits prod.splits)
  have "Option.bind (fsm_update x READY (fs_revertState s1) (x_text x err) [] d 0 False s1)
      (\<lambda>(s2, saveErr). rest (set_state (fs_revertState s2) s2) saveErr) = Some (s', e)"
    using assms jd d by (simp add: RevertRequestToPendingPaused_def Let_def rest_def split del: if_split)
  then obtain s2 e2 where u: "fsm_update x READY (fs_revertState s1) (x_text x err) [] d 0 False s1 = Some (s2, e2)"
    and r: "rest (set_state (fs_revertState s2) s2) e2 = Some (s', e)" by (auto simp: bind_eq_Some_conv)
  note k = keeps_trans[OF f(1) fsm_update_fields(1)[OF u]]
  show "fs_rm s' = fs_rm ?s" "jr_JobState (fs_Request s') = fs_revertState s"
    using rest[OF r] k by (simp_all add: keeps_def)
qed

lemma Reserve_fields:
  assumes "state_inv (fs_rm s)" and "ledger (fs_rm s)" and "distinct (map td_TaskType (jd_Tasks jd))"
    and "fsm_ReserveJobResources x jd s = (s', err)"
  shows "state_inv (fs_rm s')" "ledger (fs_rm s')" "fs_Reservations s' \<noteq> None" "fs_Request s' = fs_Request s"
    "fs_JobDefinition s' = fs_JobDefinition s" "fs_revertState s' = fs_revertState s"
    "held_by_others (jr_ID (fs_Request s)) (fs_rm s') = held_by_others (jr_ID (fs_Request s)) (fs_rm s)"
    "err \<noteq> None \<Longrightarrow> held_by (jr_ID (fs_Request s)) (fs_rm s') = {}"
    "err = None \<Longrightarrow> t \<in> set (jd_Tasks jd) \<Longrightarrow> \<exists>a. holds (fs_rm s') a (jr_ID (fs_Request s)) (td_TaskType t)"
proof -
  let ?q = "jr_ID (fs_Request s)"
  obtain rm rs e where r: "ReserveJobResources (v_now (x_jm x)) (x_timeout x) (fs_rm s) ?q jd = (rm, rs, e)"
    by (metis prod.exhaust)
  have s': "s' = s\<lparr>fs_Reservations := Some rs, fs_rm := rm\<rparr>" "err = e"
    using assms(4) r by (simp_all add: fsm_ReserveJobResources_def)
  have g: "state_inv (fs_rm s) \<and> ledger (fs_rm s)" using assms by simp
  have t: "reserve_tasks (\<lambda>st taskType m tags. doReserve (v_now (x_jm x)) (x_timeout x) st ?q taskType m tags False)
      (\<lambda>st. ReleaseJobResources st ?q) False (jd_Tasks jd) [] (fs_rm s) = (rm, rs, e)"
    using r by (simp add: ReserveJobResources_def doReserveJobResources_def)
  show "state_inv (fs_rm s')" "ledger (fs_rm s')" using pool.reserve_tasks_good[OF g t] s' by simp_all
  show "fs_Reservations s' \<noteq> None" "fs_Request s' = fs_Request s" "fs_JobDefinition s' = fs_JobDefinition s"
    "fs_revertState s' = fs_revertState s" using s' by simp_all
  show "held_by_others ?q (fs_rm s') = held_by_others ?q (fs_rm s)" using pool.reserve_tasks_others[OF g t] s' by simp
  show "held_by ?q (fs_rm s') = {}" if "err \<noteq> None"
  proof -
    from that s'(2) obtain m where "e = Some m" by auto
    from pool.reserve_tasks_failed[OF g t[unfolded this]] show ?thesis using s' by simp
  qed
  show "\<exists>a. holds (fs_rm s') a ?q (td_TaskType t)" if "err = None" "t \<in> set (jd_Tasks jd)"
  proof -
    from t that(1) s'(2) have t': "reserve_tasks (\<lambda>st taskType m tags. doReserve (v_now (x_jm x)) (x_timeout x) st ?q taskType m tags False)
      (\<lambda>st. ReleaseJobResources st ?q) False (jd_Tasks jd) [] (fs_rm s) = (rm, rs, None)" by simp
    note d = pool.reserve_tasks_done[OF g t' assms(3)]
    from d(2) that(2) obtain rv where "mget rs (td_TaskType t) = Some rv" by auto
    then have "(rv_AntID rv, td_TaskType t) \<in> held_by ?q rm" using d(1) that(2) by auto
    then show ?thesis using s' by (auto simp: held_by_def)
  qed
qed

lemma load_definition_graph:
  assumes "load_definition x s = (s', None)" and "fs_JobDefinition s' = Some jd"
  shows "valid_graph jd"
proof -
  from assms(1) obtain jd0 jd1 where v: "job_Validate (v_cron (x_jm x)) (x_valid_email x) (v_now (x_jm x)) jd0 = Ok jd1"
    and l: "load_user x (fs_User s = None \<and> jd_UserID jd1 \<noteq> [] \<and> \<not> jd_PublicPlugin jd1) (jd_UserID jd1) (s\<lparr>fs_JobDefinition := Some jd1\<rparr>) = (s', None)"
    by (auto simp: load_definition_def Let_def split: sum.splits prod.splits option.splits if_splits)
  with load_user_fields(3)[OF l] assms(2) have "jd = jd1" by simp
  with job_Validate_graph(1)[OF v] show ?thesis by simp
qed

lemma Validate_graph:
  assumes "fsm_Validate x s = (s', None)" and "fs_JobDefinition s' = Some jd"
  shows "valid_graph jd"
proof -
  from assms(1) obtain s1 where "load_definition x s1 = (s', None)"
    by (auto simp: fsm_Validate_def Let_def split: if_splits sum.splits prod.splits option.splits)
  from load_definition_graph[OF this assms(2)] show ?thesis .
qed

lemma Validate_rm:
  assumes "fsm_Validate x s = (s', e)"
  shows "fs_rm s' = fs_rm s"
  using assms
  by (auto simp: fsm_Validate_def Let_def keeps_def split: if_splits sum.splits prod.splits option.splits
      dest!: load_definition_fields(1) load_user_fields(1))

subsection \<open>Saving\<close>

lemma update_one_up:
  assumes "reliable_engine e"
  shows "fst (update_one e p f db) = db\<lparr>db_requests := update_rows p f (db_requests db)\<rparr>"
proof -
  have e: "sql_engine e" by (rule reliable_engine.axioms(1)[OF assms])
  obtain res where "op_update (e_requests e) p f (db_requests db) = Ok res"
    using reliable_engine.update_total[OF assms] by blast
  then obtain db' n where "update_requests e p f db = Ok (db', n)" by (cases res) (simp add: update_requests_def)
  with sql_engine.update_requests_Ok[OF e this] show ?thesis by (simp add: update_one_def)
qed

lemma update_one_row:
  assumes "reliable_engine e" and "r \<in> set (db_requests db)" and "p r"
  shows "f r \<in> set (db_requests (fst (update_one e p f db)))"
  using assms(2,3) unfolding update_one_up[OF assms(1)] by (auto simp: set_update_rows intro!: rev_image_eqI)

text \<open>A machine without an execution fails by updating the row of the request.\<close>

lemma failed_row:
  assumes up: "reliable_engine (v_engine (x_jm x))" and none: "fs_JobExecution s = None"
    and cron: "\<not> jr_CronTriggered (fs_Request s)" and old: "CanTransitionTo old FAILED"
    and r: "r \<in> set (db_requests (jm_db (fs_jm s)))" "jr_ID r = jr_ID (fs_Request s)" "jr_JobState r = old"
    and run: "failed x old False err code s = Some (s', e)"
  shows "\<exists>r' \<in> set (db_requests (jm_db (fs_jm s'))). jr_ID r' = jr_ID r \<and> jr_JobState r' = FAILED"
proof -
  let ?c = "if code = [] then ''ERR_JOB_EXECUTE'' else code" and ?v = "x_jm x"
  let ?s = "failing (x_text x err) ?c s"
  obtain d s1 where d: "failed_delay x ?s = (d, s1)" by (rule prod.exhaust)
  have s1: "fs_JobExecution s1 = None" "fs_jm s1 = fs_jm s" "jr_ID (fs_Request s1) = jr_ID (fs_Request s)"
    "\<not> jr_CronTriggered (fs_Request s1)" using failed_delay_fields[OF d] none cron by simp_all
  have "save_failed x old FAILED (x_text x err) ?c ?s = Some (?s, None)" using none by (simp add: save_failed_def)
  then have "fsm_update x old FAILED (x_text x err) ?c d 0 False (set_state FAILED s1) = Some (s', e)"
    using run d s1(1) by (simp add: failed_def Let_def split del: if_split)
  then have "jm_db (fs_jm s') = fst (UpdateJobState (v_engine ?v) (v_newkey ?v) (v_now ?v) (jr_ID (fs_Request s)) old FAILED
      (x_text x err) ?c d 0 (jr_PausedCount (fs_Request s1)) (jm_db (fs_jm s)))"
    using s1 by (auto simp: fsm_update_def UpdateJobRequestState_def IsTerminal_def split: prod.splits)
  also have "\<dots> = fst (update_one (v_engine ?v) (\<lambda>r. jr_ID r = jr_ID (fs_Request s) \<and> (old \<noteq> NoState \<longrightarrow> jr_JobState r = old))
      (job_state_updates (v_newkey ?v) (v_now ?v) FAILED (x_text x err) ?c d 0 (jr_PausedCount (fs_Request s1))) (jm_db (fs_jm s)))"
    (is "_ = fst (update_one _ ?p ?f _)") using old by (simp add: UpdateJobState_def)
  finally have db: "jm_db (fs_jm s') = fst (update_one (v_engine ?v) ?p ?f (jm_db (fs_jm s)))" .
  have "?f r \<in> set (db_requests (jm_db (fs_jm s')))" unfolding db by (rule update_one_row[OF up r(1)]) (simp add: r)
  moreover have "jr_ID (?f r) = jr_ID r \<and> jr_JobState (?f r) = FAILED" by (simp add: job_state_updates_def Let_def)
  ultimately show ?thesis by blast
qed

lemma fsm_finalize_saved:
  assumes "sql_engine (v_engine (x_jm x))" and "in_sync (je_ID je) (jm_db (fs_jm s))" and "\<not> IsTerminal (je_JobState je)"
    and "fsm_finalize x je old d s = Some (s', None)"
  shows "\<exists>r \<in> set (db_requests (jm_db (fs_jm s'))). jr_JobExecutionID r = je_ID je"
    "\<forall>r \<in> set (db_requests (jm_db (fs_jm s'))). jr_JobExecutionID r = je_ID je \<longrightarrow>
       jr_JobState r = je_JobState je \<and> jr_Retried r = jr_Retried (fs_Request s)"
    "\<forall>y \<in> set (db_execs (jm_db (fs_jm s'))). je_ID y = je_ID je \<longrightarrow> je_JobState y = je_JobState je"
proof -
  let ?v = "x_jm x" and ?n = "jr_Retried (fs_Request s)" and ?p = "jr_PausedCount (fs_Request s)"
  let ?f = "finalized_request (v_newkey ?v) (v_now ?v) (je_JobState je) (je_ErrorMessage je) (je_ErrorCode je) d ?n ?p"
  let ?g = "\<lambda>y. y\<lparr>je_JobState := je_JobState je, je_ErrorMessage := je_ErrorMessage je, je_ErrorCode := je_ErrorCode je,
    je_EndedAt := Some (v_now ?v), je_CPUSecs := job_ExecutionCostSecs (v_now ?v) je, je_UpdatedAt := v_now ?v\<rparr>"
  from assms(3,4) have fin: "FinalizeJobRequestAndExecutionState (v_engine ?v) (v_newkey ?v) (v_now ?v) (je_ID je) old (je_JobState je)
      (je_ErrorMessage je) (je_ErrorCode je) (job_ExecutionCostSecs (v_now ?v) je) d ?n ?p (jm_db (fs_jm s)) = (jm_db (fs_jm s'), None)"
    by (auto simp: fsm_finalize_def jm_Finalize_def Let_def split: prod.splits option.splits)
  then have "CanFinalize (je_JobState je)" by (auto simp: FinalizeJobRequestAndExecutionState_def split: if_splits)
  with fin have "e_transaction (v_engine ?v) (update_both (v_engine ?v) (je_ID je) old ?f ?g) (jm_db (fs_jm s)) = (jm_db (fs_jm s'), None)"
    by (simp add: FinalizeJobRequestAndExecutionState_def)
  then have b: "update_both (v_engine ?v) (je_ID je) old ?f ?g (jm_db (fs_jm s)) = Ok (jm_db (fs_jm s'))"
    by (rule sql_engine.tx_commit[OF assms(1)])
  have f: "jr_JobState (?f r) = je_JobState je \<and> jr_JobExecutionID (?f r) = jr_JobExecutionID r \<and> jr_ID (?f r) = jr_ID r"
    "jr_Retried (?f r) = ?n" for r by (simp_all add: finalized_request_def Let_def)
  have g: "je_JobState (?g y) = je_JobState je \<and> je_ID (?g y) = je_ID y" for y by simp
  note u = sql_engine.update_both_sync[OF assms(1) b assms(2) f(1) g]
  show "\<exists>r \<in> set (db_requests (jm_db (fs_jm s'))). jr_JobExecutionID r = je_ID je"
    "\<forall>y \<in> set (db_execs (jm_db (fs_jm s'))). je_ID y = je_ID je \<longrightarrow> je_JobState y = je_JobState je" using u(3,7) by simp_all
  show "\<forall>r \<in> set (db_requests (jm_db (fs_jm s'))). jr_JobExecutionID r = je_ID je \<longrightarrow>
      jr_JobState r = je_JobState je \<and> jr_Retried r = ?n" using u(9) f by metis
qed

lemma suspend_saved:
  assumes "sql_engine (v_engine (x_jm x))" and "fs_JobExecution s = Some je" and "in_sync (je_ID je) (jm_db (fs_jm s))"
    and "st \<in> {PAUSED, MANUAL_APPROVAL_REQUIRED}" and "\<And>r. jr_ID (cnt r) = jr_ID r" and "suspend x st code cnt s = Some (s', None)"
  shows "je_JobState je = EXECUTING" "fs_rm s' = fs_rm (forceReleaseJobResources s)"
    "jr_Retried (fs_Request s') = jr_Retried (cnt ((fs_Request s)\<lparr>jr_JobState := st\<rparr>))"
    "\<exists>r \<in> set (db_requests (jm_db (fs_jm s'))). jr_JobExecutionID r = je_ID je"
    "\<forall>r \<in> set (db_requests (jm_db (fs_jm s'))). jr_JobExecutionID r = je_ID je \<longrightarrow>
       jr_JobState r = st \<and> jr_Retried r = jr_Retried (fs_Request s')"
    "\<forall>y \<in> set (db_execs (jm_db (fs_jm s'))). je_ID y = je_ID je \<longrightarrow> je_JobState y = st"
proof -
  show e: "je_JobState je = EXECUTING" using assms(2,6) by (auto simp: suspend_def split: if_splits)
  let ?s = "set_state st (forceReleaseJobResources s)"
  from assms(2,6) e obtain jd where jd: "fs_JobDefinition s = Some jd" by (auto simp: suspend_def Let_def bind_eq_Some_conv)
  obtain d jd' where d: "GetPauseTime (x_rnd x) jd = (d, jd')" by (rule prod.exhaust)
  define s1 je1 where "s1 = ?s\<lparr>fs_Request := cnt (fs_Request ?s), fs_JobDefinition := Some jd'\<rparr>"
    and "je1 = je\<lparr>je_EndedAt := Some (v_now (x_jm x)), je_JobState := st, je_ErrorCode := code\<rparr>"
  from assms(2,6) e jd d obtain s2 ok where 1: "fsm_finalize x je1 EXECUTING d s1 = Some (s2, None)"
    and 2: "sendJobExecutionLifecycleEvent x s2 = Some (s', ok)"
    by (auto simp: suspend_def Let_def bind_eq_Some_conv s1_def je1_def)
  have je1: "je_ID je1 = je_ID je" "je_JobState je1 = st" "\<not> IsTerminal (je_JobState je1)" "in_sync (je_ID je1) (jm_db (fs_jm s1))"
    using assms(3,4) by (auto simp: je1_def s1_def IsTerminal_def)
  note f = fsm_finalize_fields[OF 1] and l = lifecycle_fields[OF 2] and v = fsm_finalize_saved[OF assms(1) je1(4,3) 1]
  show "fs_rm s' = fs_rm (forceReleaseJobResources s)" using f(1) l(1) by (simp add: keeps_def s1_def)
  have r: "fs_Request s' = fs_Request s1" using f(2) l(2) by simp
  then show "jr_Retried (fs_Request s') = jr_Retried (cnt ((fs_Request s)\<lparr>jr_JobState := st\<rparr>))" by (simp add: s1_def)
  show "\<exists>r \<in> set (db_requests (jm_db (fs_jm s'))). jr_JobExecutionID r = je_ID je"
    "\<forall>r \<in> set (db_requests (jm_db (fs_jm s'))). jr_JobExecutionID r = je_ID je \<longrightarrow>
       jr_JobState r = st \<and> jr_Retried r = jr_Retried (fs_Request s')"
    "\<forall>y \<in> set (db_execs (jm_db (fs_jm s'))). je_ID y = je_ID je \<longrightarrow> je_JobState y = st"
    using v je1(1,2) l(5) r by simp_all
qed


subsection \<open>A machine to evaluate\<close>

definition shell_job :: JobDefinition where
  "shell_job = (NewJobDefinition ''j'')\<lparr>jd_ID := ''d'', jd_RawYaml := ''y'', jd_Tasks := [NewTaskDefinition ''t'' Shell]\<rparr>"

definition shell_env :: fsm_env where
  "shell_env = \<lparr>x_jm = sample_env\<lparr>v_definition := \<lambda>_ _. Ok shell_job\<rparr>, x_user = (\<lambda>_ _. Err NotFoundError),
     x_valid_email = (\<lambda>_. True), x_org_configs = (\<lambda>_. Err NotFoundError),
     x_user_configs = (\<lambda>_. Err NotFoundError), x_dynamic = (\<lambda>_. None), x_quota = (\<lambda>_ _. None), x_skip = (\<lambda>_. False),
     x_delete_filtered = (\<lambda>_. False), x_hook = (\<lambda>_. False), x_marshal = (\<lambda>_. True), x_backoff = (\<lambda>_. None),
     x_rnd = None, x_calcCost = (\<lambda>_ _. 0), x_newids = (\<lambda>_. ''x''), x_fresh = (\<lambda>_ _. ''t''), x_timeout = 60,
     x_maxAttempts = 3, x_maxWait = 30, x_text = (\<lambda>_. ''error'')\<rparr>"

definition shell_request :: "RequestState \<Rightarrow> string \<Rightarrow> JobRequest" where
  "shell_request st xid = (NewRequest 1)\<lparr>jr_ID := ''r'', jr_JobType := ''j'', jr_JobDefinitionID := ''d'',
     jr_JobState := st, jr_JobExecutionID := xid\<rparr>"

definition shell_manager :: "JobRequest list \<Rightarrow> JobExecution list \<Rightarrow> JobManager" where
  "shell_manager rs xs = \<lparr>jm_db = sample_db\<lparr>db_tasks := [], db_requests := rs, db_execs := xs\<rparr>,
     jm_stats = newRegistry, jm_events = [], jm_tasks = []\<rparr>"

definition shell_ready :: JobDefinition where
  "shell_ready = shell_job\<lparr>jd_Methods := ''SHELL'', jd_lookupTasks := [(''t'', NewTaskDefinition ''t'' Shell)]\<rparr>"

lemma shell_job_valid: "job_Validate (\<lambda>_. None) (\<lambda>_. True) 5 shell_job = Ok shell_ready"
  by code_simp

definition shell_exec :: JobExecution where
  "shell_exec = (NewJobExecution 1 ''r'' ''j'' [] [] [])\<lparr>je_ID := ''x'', je_Active := True\<rparr>"

definition shell_machine :: "RequestState \<Rightarrow> string \<Rightarrow> bool \<Rightarrow> JobManager \<Rightarrow> JobExecutionStateMachine" where
  "shell_machine st xid info w = (NewJobExecutionStateMachine (shell_request st xid) info
     (Some [(''t'', NewAntReservation 0 ''a'' [] ''r'' ''t'' [] 0 0)]) w sample_state)"

lemma shell_machine_valid:
  "fsm_Validate shell_env (shell_machine st xid False w) =
     ((shell_machine st xid False w)\<lparr>fs_revertState := (if st \<noteq> PAUSED \<and> st \<noteq> MANUAL_APPROVAL_REQUIRED then PENDING else st),
        fs_JobDefinition := Some shell_ready\<rparr>, None)"
  using shell_job_valid
  by (simp add: fsm_Validate_def shell_machine_def NewJobExecutionStateMachine_def Let_def load_user_def load_definition_def
    shell_env_def sample_env_def shell_request_def NewRequest_def missing_params_def shell_ready_def shell_job_def NewJobDefinition_def)

lemma reg_ended_zero:
  assumes "latency \<le> 0"
  shows "\<exists>r'. reg_Failed s latency r = Some r'" "\<exists>r'. reg_Paused s latency r = Some r'" "\<exists>r'. reg_Succeeded s latency r = Some r'"
  using assms
  by (simp_all add: reg_Failed_def reg_Paused_def reg_Succeeded_def reg_ended_def js_Failed_def js_Paused_def js_Succeeded_def
      mm_Add_def ra_Add_def)

definition shell_world :: "RequestState \<Rightarrow> JobManager" where
  "shell_world st = shell_manager [shell_request st ''x''] [shell_exec\<lparr>je_JobState := st\<rparr>]"

lemma shell_launch:
  "PrepareLaunch shell_env ''x'' (shell_machine READY ''x'' False (shell_world READY)) =
    Some ((shell_machine READY ''x'' False (shell_world READY))\<lparr>fs_revertState := PENDING, fs_JobDefinition := Some shell_ready,
      fs_JobExecution := Some shell_exec\<rparr>, None)"
  unfolding PrepareLaunch_def shell_machine_valid
  by (simp add: shell_machine_def NewJobExecutionStateMachine_def shell_world_def shell_manager_def shell_env_def sample_env_def
    shell_exec_def NewJobExecution_def exec_Get_def mem_engine_def mem_table_def load_last_def shell_request_def NewRequest_def
    shell_ready_def shell_job_def NewJobDefinition_def NewTaskDefinition_def gomap_eval sample_db_def job_AfterLoad_def sort_contexts_def
    rows_map_def)

lemmas shell_defs = shell_machine_def NewJobExecutionStateMachine_def shell_world_def shell_manager_def shell_env_def sample_env_def
  shell_exec_def NewJobExecution_def shell_request_def NewRequest_def sample_db_def mem_engine_def mem_table_def

lemma shell_env_engine [simp]: "v_engine (x_jm shell_env) = mem_engine" "v_now (x_jm shell_env) = 5"
  by (simp_all add: shell_env_def sample_env_def)

lemma lifecycle_up:
  assumes "fs_JobExecution s = Some je" and "fs_JobDefinition s = Some jd"
  shows "\<exists>s'. sendJobExecutionLifecycleEvent shell_env s = Some (s', True)"
  using assms by (simp add: sendJobExecutionLifecycleEvent_def shell_env_def sample_env_def publish_def Let_def)

lemma shell_executing:
  assumes "fs_JobExecution s = Some shell_exec" and "fs_JobDefinition s = Some jd"
    and "jm_db (fs_jm s) = jm_db (shell_world READY)"
  shows "\<exists>s'. SetJobStatusToExecuting shell_env s = Some (s', None)"
proof -
  obtain db where u: "UpdateJobRequestAndExecutionState mem_engine 5 (je_ID shell_exec) READY EXECUTING [] (jm_db (fs_jm s)) = (db, None)"
    unfolding assms(3)
    by (simp add: UpdateJobRequestAndExecutionState_def IsTerminal_def TerminalStates_def update_both_def update_requests_def update_execs_def
        shell_defs mem_transaction_def)
  obtain je added where v: "version_contexts jd (shell_exec\<lparr>je_JobState := EXECUTING\<rparr>) = (je, added)" by (rule prod.exhaust)
  define s1 where "s1 = set_state EXECUTING (s\<lparr>fs_JobExecution := Some je,
    fs_jm := (fs_jm s)\<lparr>jm_db := (if added then fst (UpdateJobContext mem_engine (je_ID je) (je_Contexts je) db) else db)\<rparr>\<rparr>)"
  obtain s' where "sendJobExecutionLifecycleEvent shell_env s1 = Some (s', True)"
    using lifecycle_up[of s1 je jd] assms(2) by (auto simp: s1_def)
  then have "SetJobStatusToExecuting shell_env s = Some (s', None)"
    by (simp add: SetJobStatusToExecuting_def assms(1,2) u v Let_def s1_def split del: if_split cong: if_cong)
  then show ?thesis by blast
qed

theorem restart_never_requeues_witness:
  "\<exists>s1 s2 s3. PrepareLaunch shell_env ''x'' (shell_machine READY ''x'' False (shell_world READY)) = Some (s1, None) \<and>
     SetJobStatusToExecuting shell_env s1 = Some (s2, None) \<and>
     RestartJobBackToPendingPaused shell_env (Reason ''again'') s2 = Some (s3, Some (Repo PlainError)) \<and>
     jr_JobState (fs_Request s3) = PENDING \<and>
     (\<forall>r \<in> set (db_requests (jm_db (fs_jm s3))). jr_JobExecutionID r = ''x'' \<longrightarrow> jr_JobState r = EXECUTING)"
proof -
  let ?s = "shell_machine READY ''x'' False (shell_world READY)"
  let ?s1 = "?s\<lparr>fs_revertState := PENDING, fs_JobDefinition := Some shell_ready, fs_JobExecution := Some shell_exec\<rparr>"
  have jm: "fs_jm ?s = shell_world READY" "fs_rm ?s = sample_state" by (simp_all add: shell_machine_def NewJobExecutionStateMachine_def)
  obtain s2 where s2: "SetJobStatusToExecuting shell_env ?s1 = Some (s2, None)"
    using shell_executing[of ?s1] jm(1) by auto
  have "in_sync ''x'' (jm_db (fs_jm ?s1))" "sql_engine (v_engine (x_jm shell_env))"
    using jm(1) by (simp_all add: in_sync_def shell_world_def shell_manager_def shell_request_def shell_exec_def mem_engine_laws)
  with restart_never_requeues[OF _ _ _ shell_launch _ s2, of "Reason ''again''"] shell_launch s2 jm(2) sample_inv sample_ledger
  show ?thesis by auto
qed

lemma finalize_returns:
  assumes "\<not> jr_CronTriggered (fs_Request s)" and "ElapsedMillis (v_now (x_jm x)) je \<le> 0"
  shows "\<exists>s' e. fsm_finalize x je old d s = Some (s', e)"
proof -
  obtain db err where "FinalizeJobRequestAndExecutionState (v_engine (x_jm x)) (v_newkey (x_jm x)) (v_now (x_jm x)) (je_ID je) old (je_JobState je)
      (je_ErrorMessage je) (je_ErrorCode je) (job_ExecutionCostSecs (v_now (x_jm x)) je) d (jr_Retried (fs_Request s))
      (jr_PausedCount (fs_Request s)) (jm_db (fs_jm s)) = (db, err)" by (rule prod.exhaust)
  moreover obtain st where "(if Failed (jr_JobState (fs_Request s)) then reg_Failed (exec_summary je) (ElapsedMillis (v_now (x_jm x)) je) (jm_stats (fs_jm s))
      else if Paused (jr_JobState (fs_Request s)) then reg_Paused (exec_summary je) (ElapsedMillis (v_now (x_jm x)) je) (jm_stats (fs_jm s))
      else reg_Succeeded (exec_summary je) (ElapsedMillis (v_now (x_jm x)) je) (jm_stats (fs_jm s))) = Some st"
    using reg_ended_zero[OF assms(2)] by presburger
  ultimately show ?thesis using assms(1) by (simp add: fsm_finalize_def jm_Finalize_def Let_def split del: if_split cong: if_cong option.case_cong)
qed

lemma failed_returns:
  assumes "\<not> jr_CronTriggered (fs_Request s)" and "fs_JobExecution s = Some je" and "je_StartedAt je = v_now (x_jm x)"
    and "fs_JobDefinition s = Some jd"
  shows "\<exists>s' e. failed x old False err code s = Some (s', e)"
proof -
  let ?c = "if code = [] then ''ERR_JOB_EXECUTE'' else code"
  let ?s = "failing (x_text x err) ?c s"
  have jd: "fs_JobDefinition ?s = Some jd" using assms(4) by (simp add: failing_def)
  obtain d s1 where d: "retry_delay x jd (jr_Retried (fs_Request ?s)) ?s = (d, s1)" by (rule prod.exhaust)
  define je1 where "je1 = je\<lparr>je_EndedAt := Some (v_now (x_jm x)), je_JobState := FAILED, je_ErrorMessage := x_text x err,
    je_ErrorCode := ?c, je_JobRequestID := jr_ID (fs_Request s1)\<rparr>"
  have "ElapsedMillis (v_now (x_jm x)) je1 \<le> 0" using assms(3) by (simp add: je1_def ElapsedMillis_def Milliseconds_def time_Sub_def i64_def)
  moreover have c: "\<not> jr_CronTriggered (fs_Request s1)" using retry_delay_fields(2)[OF d] assms(1) by simp
  ultimately obtain s2 e where f: "fsm_finalize x je1 old d s1 = Some (s2, e)" using finalize_returns by blast
  have sf: "save_failed x old FAILED (x_text x err) ?c ?s = Some (s2, e)"
    using f jd d assms(2) by (simp add: save_failed_def je1_def split del: if_split)
  obtain d2 s3 where d2: "failed_delay x s2 = (d2, s3)" by (rule prod.exhaust)
  have "\<not> jr_CronTriggered (fs_Request (set_state FAILED s3))"
    using failed_delay_fields(2)[OF d2] fsm_finalize_fields(2)[OF f] c by simp
  then have "\<exists>s' e'. fsm_update x old FAILED (x_text x err) ?c d2 0 False (set_state FAILED s3) = Some (s', e')"
    by (simp add: fsm_update_def UpdateJobRequestState_def Let_def split: prod.splits)
  then show ?thesis using sf d2 by (simp add: failed_def Let_def split del: if_split) (metis)
qed

lemma finalize_result:
  assumes "fsm_finalize x je old d s = Some (s', e)" and "\<not> IsTerminal (je_JobState je)"
  shows "e = map_option Repo (snd (FinalizeJobRequestAndExecutionState (v_engine (x_jm x)) (v_newkey (x_jm x)) (v_now (x_jm x)) (je_ID je) old
    (je_JobState je) (je_ErrorMessage je) (je_ErrorCode je) (job_ExecutionCostSecs (v_now (x_jm x)) je) d (jr_Retried (fs_Request s))
    (jr_PausedCount (fs_Request s)) (jm_db (fs_jm s))))"
  using assms by (auto simp: fsm_finalize_def jm_Finalize_def Let_def split: prod.splits option.splits)

lemma shell_pauses:
  assumes "fs_JobExecution s = Some (shell_exec\<lparr>je_JobState := EXECUTING\<rparr>)" and "fs_JobDefinition s = Some jd"
    and "jm_db (fs_jm s) = jm_db (shell_world EXECUTING)" and "\<not> jr_CronTriggered (fs_Request s)"
  shows "\<exists>s'. PauseJob shell_env s = Some (s', None)"
proof -
  let ?s = "set_state PAUSED (forceReleaseJobResources s)"
  let ?je = "shell_exec\<lparr>je_EndedAt := Some 5, je_JobState := PAUSED, je_ErrorCode := ''ERR_PAUSE_JOB''\<rparr>"
  obtain d jd' where d: "GetPauseTime (x_rnd shell_env) jd = (d, jd')" by (rule prod.exhaust)
  define s1 where "s1 = ?s\<lparr>fs_Request := IncrRetried (IncrPausedCount (fs_Request ?s)), fs_JobDefinition := Some jd'\<rparr>"
  have cron: "\<not> jr_CronTriggered (fs_Request s1)" using assms(4) by (simp add: s1_def IncrRetried_def IncrPausedCount_def)
  have "ElapsedMillis 5 ?je \<le> 0" by (simp add: ElapsedMillis_def shell_exec_def NewJobExecution_def Milliseconds_def time_Sub_def)
  then obtain s2 e where f: "fsm_finalize shell_env ?je EXECUTING d s1 = Some (s2, e)" using finalize_returns[OF cron, of shell_env ?je EXECUTING d] by auto
  have "snd (FinalizeJobRequestAndExecutionState mem_engine k 5 ''x'' EXECUTING PAUSED m c cpu d n p (jm_db (fs_jm s))) = None" for k m c cpu n p
    unfolding assms(3)
    by (simp add: FinalizeJobRequestAndExecutionState_def CanFinalize_def IsTerminal_def TerminalStates_def update_both_def update_requests_def
        update_execs_def shell_defs mem_transaction_def)
  then have "e = None" using finalize_result[OF f] by (simp add: s1_def shell_exec_def IsTerminal_def)
  moreover obtain s' where "sendJobExecutionLifecycleEvent shell_env s2 = Some (s', True)"
    using lifecycle_up[of s2 ?je jd'] fsm_finalize_fields(3,4)[OF f] by (auto simp: s1_def)
  ultimately have "PauseJob shell_env s = Some (s', None)"
    using f assms(1,2) d by (simp add: PauseJob_def suspend_def Let_def s1_def)
  then show ?thesis by blast
qed


end
