(* ===== verification/Job_Scheduler.thy ===== *)
theory Job_Scheduler
  imports Job_Fsm
begin

text \<open>
  The step of the scheduler for one request (\<open>scheduleJob\<close> of \<open>queen/scheduler/job_scheduler.go\<close>), which drives the
  state machine of the job from validation to the message to the launchers.  The request is the same object
  as the one of the machine.  Log lines and metrics are left out.
\<close>

subsection \<open>Steps\<close>

text \<open>The request waits for ants: the attempt is counted, the next one comes later by five seconds for every
  attempt up to the maximum, and each fifth attempt costs a request with priority above five one step.\<close>

definition wait_for_ants ::
  "fsm_env \<Rightarrow> fsm_error \<Rightarrow> JobExecutionStateMachine \<Rightarrow> (JobExecutionStateMachine \<times> fsm_error option) option" where
  "wait_for_ants x err s =
     (let req = fs_Request s; attempts = i64 (jr_ScheduleAttempts req + 1)
      in if attempts > x_maxAttempts x
         then ScheduleFailed x (AllocationFailed err (jr_ScheduleAttempts req)) ''ERR_ANT_RESOURCES'' s
         else
           (let secs = min (x_maxWait x) (i64 (attempts * 5));
                decr = (if attempts \<ge> 5 \<and> attempts mod 5 = 0 \<and> jr_JobPriority req > 5 then 1 else 0);
                req = req\<lparr>jr_ScheduledAt := map_option (\<lambda>t. t + i64 (secs * Second)) (jr_ScheduledAt req),
                          jr_JobPriority := jr_JobPriority req - decr\<rparr>;
                w = fst (IncrementScheduleAttemptsForJobRequest (x_jm x) req (i64 (secs * Second)) decr (x_text x err) (fs_jm s))
            in Some (s\<lparr>fs_Request := req, fs_jm := w\<rparr>, Some (Unavailable err))))"

text \<open>Reserving the ants, creating the execution and sending it to the launchers.\<close>

definition start_job ::
  "fsm_env \<Rightarrow> JobExecutionStateMachine \<Rightarrow> (JobExecutionStateMachine \<times> fsm_error option) option" where
  "start_job x s =
     do {
       jd \<leftarrow> fs_JobDefinition s;
       (case fsm_ReserveJobResources x jd s of
          (s, Some err) \<Rightarrow>
            if i64 (jr_ScheduleAttempts (fs_Request s) + 1) > x_maxAttempts x
            then ScheduleFailed x (AttemptsExceeded (jr_ScheduleAttempts (fs_Request s))) ''ERR_ANT_RESOURCES'' s
            else Some (s, Some (Unavailable (Resource err)))
        | (s, None) \<Rightarrow>
            do {
              (s, dbError, eventError) \<leftarrow> fsm_CreateJobExecution x s;
              (case dbError of
                 Some err \<Rightarrow> ScheduleFailed x err ''ERR_JOB_EXECUTE'' s
               | None \<Rightarrow>
                   (case eventError of
                      Some err \<Rightarrow> RevertRequestToPendingPaused x err s
                    | None \<Rightarrow> Some (s, None)))
            })
     }"

definition skip_job ::
  "fsm_env \<Rightarrow> JobExecutionStateMachine \<Rightarrow> (JobExecutionStateMachine \<times> fsm_error option) option" where
  "skip_job x s =
     do {
       (s, _) \<leftarrow> ScheduleFailed x Filtered ''ERR_FILTERED_JOB'' s;
       jd \<leftarrow> fs_JobDefinition s;
       Some (if x_delete_filtered x jd
             then s\<lparr>fs_jm := (fs_jm s)\<lparr>jm_db := fst (req_Delete (v_engine (x_jm x)) (v_dec (x_jm x)) (NewQueryContext None [])
                      (jr_ID (fs_Request s)) (jm_db (fs_jm s)))\<rparr>\<rparr>
             else s, None)
     }"

text \<open>The checks of a request that passed validation, in the order of the code.\<close>

definition admit_job ::
  "fsm_env \<Rightarrow> JobExecutionStateMachine \<Rightarrow> (JobExecutionStateMachine \<times> fsm_error option) option" where
  "admit_job x s =
     (case x_quota x (fsm_QueryContext s) (fs_User s) of
        Some msg \<Rightarrow> ScheduleFailed x (Quota msg) ''ERR_QUOTA_EXCEEDED'' s
      | None \<Rightarrow>
          if x_skip x s then skip_job x s
          else do {
            busy \<leftarrow> CheckAntResourcesAndConcurrencyForJob x s;
            (case busy of
               Some err \<Rightarrow> wait_for_ants x err s
             | None \<Rightarrow> start_job x s)
          })"

definition scheduleJob ::
  "fsm_env \<Rightarrow> JobRequest \<Rightarrow> JobManager \<Rightarrow> State \<Rightarrow> (JobExecutionStateMachine \<times> fsm_error option) option" where
  "scheduleJob x request w rm =
     (case fsm_Validate x (NewJobExecutionStateMachine request True (Some []) w rm) of
        (s, Some err) \<Rightarrow> ScheduleFailed x (ValidationFailed err) ''ERR_VALIDATION'' s
      | (s, None) \<Rightarrow> admit_job x s)"

subsection \<open>Ants along the schedule\<close>

text \<open>What a step of the scheduler for the request \<open>q\<close> has to leave: other requests keep their ants, a request that
  is ready holds an ant for every task and was sent to the launchers, a request that waits holds none.\<close>

definition ants_settled :: "string \<Rightarrow> State \<Rightarrow> JobExecutionStateMachine \<Rightarrow> bool" where
  "ants_settled q rm s \<longleftrightarrow>
     held_by_others q (fs_rm s) = held_by_others q rm \<and>
     (jr_JobState (fs_Request s) = READY \<longrightarrow>
        (\<exists>jd. fs_JobDefinition s = Some jd \<and> (\<forall>t \<in> set (jd_Tasks jd). \<exists>a. holds (fs_rm s) a q (td_TaskType t))) \<and>
        (\<exists>evs. jm_events (fs_jm s) = LaunchEvent q (jr_JobExecutionID (fs_Request s)) # evs)) \<and>
     (jr_JobState (fs_Request s) \<in> {PENDING, PAUSED} \<longrightarrow> held_by q (fs_rm s) = {})"

lemma settled_failed:
  "jr_JobState (fs_Request s) \<in> {FAILED, CANCELLED} \<Longrightarrow> held_by_others q (fs_rm s) = held_by_others q rm \<Longrightarrow>
   ants_settled q rm s"
  by (auto simp: ants_settled_def)

lemma settled_idle:
  "jr_JobState (fs_Request s) \<noteq> READY \<Longrightarrow> held_by_others q (fs_rm s) = held_by_others q rm \<Longrightarrow>
   held_by q (fs_rm s) = {} \<Longrightarrow> ants_settled q rm s"
  by (simp add: ants_settled_def)

lemma created_settled:
  assumes R: "state_inv (fs_rm s1)" "ledger (fs_rm s1)" "fs_Reservations s1 \<noteq> None" "fs_JobDefinition s1 = Some jd"
    "held_by_others (jr_ID (fs_Request s1)) (fs_rm s1) = held_by_others (jr_ID (fs_Request s1)) rm"
    "\<And>t. t \<in> set (jd_Tasks jd) \<Longrightarrow> \<exists>a. holds (fs_rm s1) a (jr_ID (fs_Request s1)) (td_TaskType t)"
    and st: "fs_revertState s1 \<noteq> READY" and c: "fsm_CreateJobExecution x s1 = Some (s2, d, v)"
    and rest: "(case d of Some err \<Rightarrow> ScheduleFailed x err ''ERR_JOB_EXECUTE'' s2
      | None \<Rightarrow> (case v of Some err \<Rightarrow> RevertRequestToPendingPaused x err s2 | None \<Rightarrow> Some (s2, None))) = Some (s', err)"
  shows "ants_settled (jr_ID (fs_Request s1)) rm s'"
proof -
  let ?q = "jr_ID (fs_Request s1)"
  note C = CreateJobExecution_fields[OF c]
  have q2: "jr_ID (fs_Request s2) = ?q" "fs_rm s2 = fs_rm s1" "fs_Reservations s2 \<noteq> None" "fs_revertState s2 = fs_revertState s1"
    using C(1) R(3) by (simp_all add: keeps_def)
  consider (db) e where "d = Some e" | (event) e where "d = None" "v = Some e" | (sent) "d = None" "v = None"
    by (cases d; cases v) auto
  then show ?thesis
  proof cases
    case db
    note f = ScheduleFailed_fields[OF rest[unfolded db option.case]]
    show ?thesis by (rule settled_failed[OF f(2)]) (use f(1) R(5) q2(2) in \<open>simp add: keeps_def\<close>)
  next
    case event
    note f = Revert_fields[OF rest[unfolded event option.case]]
    have "state_inv (fs_rm s2)" "ledger (fs_rm s2)" using R(1,2) q2(2) by simp_all
    note g = forceRelease_frees[OF this q2(3)]
    show ?thesis by (rule settled_idle) (use f g q2 R(5) st in simp_all)
  next
    case sent
    with rest have s': "s' = s2" by simp
    show ?thesis
    proof (cases "jr_JobState (fs_Request s2) = READY")
      case True
      with C(2)[OF sent(1)] sent(2) have "fs_JobDefinition s2 = Some jd"
        "\<exists>evs. jm_events (fs_jm s2) = LaunchEvent ?q (jr_JobExecutionID (fs_Request s2)) # evs"
        using R(4) q2(1) by (auto simp: launched_def)
      then show ?thesis using True R(5,6) q2(2) by (simp add: ants_settled_def s')
    next
      case False
      then show ?thesis using C(2)[OF sent(1)] s' R(5) q2(2) by (intro settled_failed) (auto simp: launched_def)
    qed
  qed
qed

lemma start_job_settled:
  assumes "state_inv (fs_rm s)" and "ledger (fs_rm s)" and jd: "fs_JobDefinition s = Some jd"
    and "distinct (map td_TaskType (jd_Tasks jd))" and st: "jr_JobState (fs_Request s) \<noteq> READY" "fs_revertState s \<noteq> READY"
    and start: "start_job x s = Some (s', err)"
  shows "ants_settled (jr_ID (fs_Request s)) (fs_rm s) s'"
proof -
  obtain s1 e1 where r: "fsm_ReserveJobResources x jd s = (s1, e1)" by (rule prod.exhaust)
  note R = Reserve_fields[OF assms(1,2,4) r]
  show ?thesis
  proof (cases e1)
    case (Some e)
    show ?thesis
    proof (cases "i64 (jr_ScheduleAttempts (fs_Request s1) + 1) > x_maxAttempts x")
      case True
      with start jd r Some have "ScheduleFailed x (AttemptsExceeded (jr_ScheduleAttempts (fs_Request s1))) ''ERR_ANT_RESOURCES'' s1 = Some (s', err)"
        by (simp add: start_job_def)
      note f = ScheduleFailed_fields[OF this]
      show ?thesis by (rule settled_failed[OF f(2)]) (use f(1) R(7) in \<open>simp add: keeps_def\<close>)
    next
      case False
      with start jd r Some have "s' = s1" by (simp add: start_job_def)
      then show ?thesis using R(4,7) R(8) Some st(1) by (intro settled_idle) auto
    qed
  next
    case None
    from start jd r None obtain s2 d v where c: "fsm_CreateJobExecution x s1 = Some (s2, d, v)"
      and rest: "(case d of Some err \<Rightarrow> ScheduleFailed x err ''ERR_JOB_EXECUTE'' s2
        | None \<Rightarrow> (case v of Some err \<Rightarrow> RevertRequestToPendingPaused x err s2 | None \<Rightarrow> Some (s2, None))) = Some (s', err)"
      by (auto simp: start_job_def bind_eq_Some_conv)
    have "ants_settled (jr_ID (fs_Request s1)) (fs_rm s) s'"
      by (rule created_settled[OF R(1-3) _ _ _ _ c rest]) (use R(4-7) R(9)[OF None] jd st(2) in simp_all)
    then show ?thesis using R(4) by simp
  qed
qed

lemma wait_for_ants_fields:
  assumes "wait_for_ants x err s = Some (s', e)"
  shows "fs_rm s' = fs_rm s" "jr_JobState (fs_Request s') \<in> {FAILED, CANCELLED, jr_JobState (fs_Request s)}"
proof -
  have "fs_rm s' = fs_rm s \<and> jr_JobState (fs_Request s') \<in> {FAILED, CANCELLED, jr_JobState (fs_Request s)}"
  proof (cases "i64 (jr_ScheduleAttempts (fs_Request s) + 1) > x_maxAttempts x")
    case True
    with assms have "ScheduleFailed x (AllocationFailed err (jr_ScheduleAttempts (fs_Request s))) ''ERR_ANT_RESOURCES'' s = Some (s', e)"
      by (simp add: wait_for_ants_def Let_def)
    from ScheduleFailed_fields[OF this] show ?thesis by (auto simp: keeps_def)
  next
    case False
    with assms show ?thesis by (auto simp: wait_for_ants_def Let_def)
  qed
  then show "fs_rm s' = fs_rm s" "jr_JobState (fs_Request s') \<in> {FAILED, CANCELLED, jr_JobState (fs_Request s)}" by simp_all
qed

lemma skip_job_fields:
  assumes "skip_job x s = Some (s', e)"
  shows "fs_rm s' = fs_rm s" "jr_JobState (fs_Request s') \<in> {FAILED, CANCELLED}"
proof -
  from assms obtain s1 e1 where "ScheduleFailed x Filtered ''ERR_FILTERED_JOB'' s = Some (s1, e1)"
    and "fs_rm s' = fs_rm s1" "fs_Request s' = fs_Request s1"
    by (auto simp: skip_job_def bind_eq_Some_conv split: if_splits)
  with ScheduleFailed_fields[OF this(1)] show "fs_rm s' = fs_rm s" "jr_JobState (fs_Request s') \<in> {FAILED, CANCELLED}"
    by (simp_all add: keeps_def)
qed

lemma schedule_failed_settled:
  assumes "ScheduleFailed x msg code s = Some (s', err)"
  shows "ants_settled q (fs_rm s) s'"
  by (rule settled_failed[OF ScheduleFailed_fields(2)[OF assms]]) (use ScheduleFailed_fields(1)[OF assms] in \<open>simp add: keeps_def\<close>)

lemma admit_job_settled:
  assumes inv: "state_inv (fs_rm s)" "ledger (fs_rm s)" and jd: "fs_JobDefinition s = Some jd" "distinct (map td_TaskType (jd_Tasks jd))"
    and st: "jr_JobState (fs_Request s) \<noteq> READY" "fs_revertState s \<noteq> READY" and none: "held_by (jr_ID (fs_Request s)) (fs_rm s) = {}"
    and run: "admit_job x s = Some (s', err)"
  shows "ants_settled (jr_ID (fs_Request s)) (fs_rm s) s'"
proof -
  consider (quota) m where "x_quota x (fsm_QueryContext s) (fs_User s) = Some m"
    | (skip) "x_quota x (fsm_QueryContext s) (fs_User s) = None" "x_skip x s"
    | (busy) m where "x_quota x (fsm_QueryContext s) (fs_User s) = None" "\<not> x_skip x s"
        "CheckAntResourcesAndConcurrencyForJob x s = Some (Some m)"
    | (free) "x_quota x (fsm_QueryContext s) (fs_User s) = None" "\<not> x_skip x s"
        "CheckAntResourcesAndConcurrencyForJob x s = Some None"
    using run by (cases "x_quota x (fsm_QueryContext s) (fs_User s)"; cases "x_skip x s";
        cases "CheckAntResourcesAndConcurrencyForJob x s"; cases "the (CheckAntResourcesAndConcurrencyForJob x s)")
      (auto simp: admit_job_def)
  then show ?thesis
  proof cases
    case quota
    with run have "ScheduleFailed x (Quota m) ''ERR_QUOTA_EXCEEDED'' s = Some (s', err)" by (simp add: admit_job_def)
    then show ?thesis by (rule schedule_failed_settled)
  next
    case skip
    with run have "skip_job x s = Some (s', err)" by (simp add: admit_job_def)
    note f = skip_job_fields[OF this]
    show ?thesis by (rule settled_failed[OF f(2)]) (simp add: f(1))
  next
    case busy
    with run have "wait_for_ants x m s = Some (s', err)" by (simp add: admit_job_def)
    from wait_for_ants_fields[OF this] st(1) none show ?thesis by (intro settled_idle) auto
  next
    case free
    with run have "start_job x s = Some (s', err)" by (simp add: admit_job_def)
    from start_job_settled[OF inv jd st this] show ?thesis .
  qed
qed


text \<open>C9: When the execution cannot be created or the request cannot be made ready, the scheduler marks the request
  as failed and keeps its ants: every task still holds the ant that was reserved for it.\<close>

theorem schedule_failure_leaks:
  assumes "state_inv (fs_rm s)" and "ledger (fs_rm s)" and "fs_JobDefinition s = Some jd"
    and "distinct (map td_TaskType (jd_Tasks jd))"
    and "fsm_ReserveJobResources x jd s = (s1, None)" and "fsm_CreateJobExecution x s1 = Some (s2, Some dbError, v)"
    and "start_job x s = Some (s', err)"
  shows "jr_JobState (fs_Request s') \<in> {FAILED, CANCELLED} \<and>
    (\<forall>t \<in> set (jd_Tasks jd). \<exists>a. holds (fs_rm s') a (jr_ID (fs_Request s)) (td_TaskType t))"
proof -
  note R = Reserve_fields[OF assms(1,2,4,5)] and C = CreateJobExecution_fields(1)[OF assms(6)]
  have "ScheduleFailed x dbError ''ERR_JOB_EXECUTE'' s2 = Some (s', err)"
    using assms(3,5,6,7) by (simp add: start_job_def)
  note f = ScheduleFailed_fields[OF this]
  have "fs_rm s' = fs_rm s1" using C f(1) by (simp add: keeps_def)
  with f(2) R(9) show ?thesis by simp
qed

subsection \<open>Waiting\<close>

lemma increment_db:
  "jm_db (fst (IncrementScheduleAttemptsForJobRequest v req secs decr msg w)) =
   fst (IncrementScheduleAttempts (v_engine v) (v_now v) (jr_ID req) secs decr msg (jm_db w))"
  by (simp add: IncrementScheduleAttemptsForJobRequest_def Let_def split: prod.splits option.splits)


subsection \<open>A request to schedule\<close>

definition shell_waiting :: "JobManager \<Rightarrow> JobExecutionStateMachine" where
  "shell_waiting w = NewJobExecutionStateMachine (shell_request PENDING []) True (Some []) w sample_state"

lemma shell_waiting_valid:
  assumes "GetParams mem_engine ''r'' (jm_db w) = Ok []"
  shows "fsm_Validate shell_env (shell_waiting w) =
     ((shell_waiting w)\<lparr>fs_revertState := PENDING, fs_JobDefinition := Some shell_ready\<rparr>, None)"
  using shell_job_valid assms
  by (simp add: fsm_Validate_def shell_waiting_def NewJobExecutionStateMachine_def Let_def load_user_def load_definition_def
    shell_env_def sample_env_def shell_request_def NewRequest_def missing_params_def shell_ready_def shell_job_def NewJobDefinition_def)

lemma shell_available:
  "fs_JobDefinition s = Some shell_ready \<Longrightarrow> jm_stats (fs_jm s) = newRegistry \<Longrightarrow> fs_rm s = sample_state \<Longrightarrow>
   CheckAntResourcesAndConcurrencyForJob shell_env s = Some None"
  by (simp add: CheckAntResourcesAndConcurrencyForJob_def Let_def GetExecutionCount_def newRegistry_def UserOrgExecuting_def
    shell_ready_def shell_job_def NewJobDefinition_def method_of_string_def SplitTags_def HasAntsForJobTags_def TrimSpace_def is_space_def
    live_ants_of_method_def getAntIDsByMethod_def sample_simps getRegistrationByAnt_def Supports_def age_def unix_secs_def i64_def
    shell_env_def sample_env_def)

lemma shell_reserves:
  assumes "fs_rm s = sample_state"
  obtains s1 rs rm where "fsm_ReserveJobResources shell_env shell_ready s = (s1, None)" "s1 = s\<lparr>fs_Reservations := Some rs, fs_rm := rm\<rparr>"
proof -
  have "eligible 5 60 sample_state Shell [] ''a''"
    by (simp add: sample_simps eligible_def indexed_def Supports_def age_def unix_secs_def i64_def)
  then obtain rm rv where "reserve 5 60 sample_state (jr_ID (fs_Request s)) ''t'' Shell [] False = (rm, Ok rv)"
    using reserve_Ok_iff[OF sample_inv] by fastforce
  then have "fsm_ReserveJobResources shell_env shell_ready s = (s\<lparr>fs_Reservations := Some [(''t'', rv)], fs_rm := rm\<rparr>, None)"
    using assms by (simp add: fsm_ReserveJobResources_def ReserveJobResources_def doReserveJobResources_def doReserve_def shell_ready_def
      shell_job_def NewTaskDefinition_def shell_env_def sample_env_def gomap_eval)
  then show thesis using that by blast
qed

lemma create_up:
  assumes "je_ID je = []" and "je_Tasks je = []" and "je_JobType je \<noteq> []" and "je_JobState je = READY" and "je_StartedAt je \<noteq> 0"
  shows "exec_Save mem_engine calc newids fresh now (Some je) db =
    (db\<lparr>db_execs := db_execs db @ [je\<lparr>je_UpdatedAt := now, je_ID := newids 2, je_Active := True, je_Tasks := []\<rparr>]\<rparr>,
     Some (je\<lparr>je_UpdatedAt := now, je_ID := newids 2, je_Active := True, je_Tasks := []\<rparr>), None)"
proof -
  have b: "exec_save_body mem_engine calc i f now (je\<lparr>je_ID := []\<rparr>) d =
    (Ok (d\<lparr>db_execs := db_execs d @ [je\<lparr>je_UpdatedAt := now, je_ID := i, je_Active := True, je_Tasks := []\<rparr>]\<rparr>),
     je\<lparr>je_UpdatedAt := now, je_ID := i, je_Active := True, je_Tasks := []\<rparr>)" for i f d
    using assms by (simp add: exec_save_body_def save_prepare_def Let_def CanFinalize_def IsTerminal_def mem_engine_def mem_table_def)
  have "save_attempts mem_engine calc newids fresh now True 2 je db =
    (db\<lparr>db_execs := db_execs db @ [je\<lparr>je_UpdatedAt := now, je_ID := newids 2, je_Active := True, je_Tasks := []\<rparr>]\<rparr>,
     je\<lparr>je_UpdatedAt := now, je_ID := newids 2, je_Active := True, je_Tasks := []\<rparr>, None)"
    by (subst save_attempts.simps) (simp add: b mem_engine_def mem_transaction_def b[unfolded mem_engine_def])
  then show ?thesis using assms by (simp add: exec_Save_def job_exec_ValidateBeforeSave_def job_exec_Validate_def)
qed

lemma shell_ready_execution:
  assumes "fs_Request s = shell_request PENDING []" and "fs_jm s = shell_manager rs []"
  shows "\<exists>s1. ready_execution shell_env s = (s1, None) \<and> fs_Request s1 = fs_Request s \<and> fs_JobDefinition s1 = fs_JobDefinition s \<and>
    fs_JobExecution s1 = Some ((NewJobExecution 5 ''r'' ''j'' [] [] [])\<lparr>je_UpdatedAt := 5, je_ID := ''x'', je_Active := True, je_Tasks := []\<rparr>) \<and>
    jm_db (fs_jm s1) = (jm_db (fs_jm s))\<lparr>db_execs :=
      [(NewJobExecution 5 ''r'' ''j'' [] [] [])\<lparr>je_UpdatedAt := 5, je_ID := ''x'', je_Active := True, je_Tasks := []\<rparr>]\<rparr>"
proof -
  let ?je = "NewJobExecution 5 ''r'' ''j'' [] [] []"
  let ?x = "?je\<lparr>je_UpdatedAt := 5, je_ID := ''x'', je_Active := True, je_Tasks := []\<rparr>"
  have "exec_Save mem_engine (x_calcCost shell_env) (x_newids shell_env) (x_fresh shell_env) 5 (Some ?je) db =
      (db\<lparr>db_execs := db_execs db @ [?x]\<rparr>, Some ?x, None)" for db
    by (subst create_up) (simp_all add: NewJobExecution_def, simp add: shell_env_def)
  with assms show ?thesis
    by (simp add: ready_execution_def Let_def CreateJobExecution_def shell_request_def NewRequest_def shell_manager_def)
qed

lemma shell_creates:
  assumes "fs_Request s = shell_request PENDING []" and "fs_JobExecution s = None"
    and "fs_jm s = shell_manager [shell_request PENDING []] []"
  shows "\<exists>s'. fsm_CreateJobExecution shell_env s = Some (s', None, None) \<and> jr_JobState (fs_Request s') = READY"
proof -
  let ?x = "(NewJobExecution 5 ''r'' ''j'' [] [] [])\<lparr>je_UpdatedAt := 5, je_ID := ''x'', je_Active := True, je_Tasks := []\<rparr>"
  obtain s1 where r: "ready_execution shell_env s = (s1, None)" and s1: "fs_JobExecution s1 = Some ?x" "fs_Request s1 = fs_Request s"
    "jm_db (fs_jm s1) = (jm_db (fs_jm s))\<lparr>db_execs := [?x]\<rparr>"
    using shell_ready_execution[OF assms(1,3)] by blast
  define db where "db = (jm_db (fs_jm s1))\<lparr>db_requests := [(shell_request PENDING [])\<lparr>jr_JobState := READY,
    jr_JobExecutionID := ''x'', jr_LastJobExecutionID := [], jr_UpdatedAt := 5\<rparr>]\<rparr>"
  have "SetReadyToExecute mem_engine 5 ''r'' ''x'' [] (jm_db (fs_jm s1)) = (db, None)"
    using assms(3) by (simp add: SetReadyToExecute_def s1(3) db_def mem_engine_def mem_table_def update_one_def update_requests_def
      shell_manager_def shell_request_def NewRequest_def)
  moreover have "jr_LastJobExecutionID (fs_Request s) = []" "jr_ID (fs_Request s) = ''r''" "jr_JobState (fs_Request s) = PENDING"
    using assms(1) by (simp_all add: shell_request_def NewRequest_def)
  ultimately show ?thesis using assms(2) r s1(1,2)
    by (simp add: fsm_CreateJobExecution_def sendLaunchJobEvent_def Let_def publish_def) (simp add: shell_env_def sample_env_def)
qed

lemma shell_schedules:
  "\<exists>s'. scheduleJob shell_env (shell_request PENDING []) (shell_manager [shell_request PENDING []] []) sample_state = Some (s', None) \<and>
     jr_JobState (fs_Request s') = READY"
proof -
  let ?w = "shell_manager [shell_request PENDING []] []"
  let ?s = "(shell_waiting ?w)\<lparr>fs_revertState := PENDING, fs_JobDefinition := Some shell_ready\<rparr>"
  have "GetParams mem_engine ''r'' (jm_db ?w) = Ok []"
    by (simp add: GetParams_def mem_engine_def mem_table_def shell_manager_def shell_request_def NewRequest_def)
  from shell_waiting_valid[OF this] have v: "fsm_Validate shell_env (NewJobExecutionStateMachine (shell_request PENDING []) True (Some []) ?w sample_state) = (?s, None)"
    by (simp add: shell_waiting_def)
  have f: "fs_rm ?s = sample_state" "fs_Request ?s = shell_request PENDING []" "fs_JobExecution ?s = None" "fs_jm ?s = ?w"
    "jm_stats (fs_jm ?s) = newRegistry"
    by (simp_all add: shell_waiting_def NewJobExecutionStateMachine_def shell_manager_def)
  obtain s1 rs rm where s1: "fsm_ReserveJobResources shell_env shell_ready ?s = (s1, None)" "s1 = ?s\<lparr>fs_Reservations := Some rs, fs_rm := rm\<rparr>"
    using shell_reserves[OF f(1)] .
  obtain s2 where "fsm_CreateJobExecution shell_env s1 = Some (s2, None, None)" "jr_JobState (fs_Request s2) = READY"
    using shell_creates[of s1] f(2-4) s1(2) by auto
  then have "start_job shell_env ?s = Some (s2, None)" "jr_JobState (fs_Request s2) = READY"
    using s1(1) by (simp_all add: start_job_def)
  moreover have "CheckAntResourcesAndConcurrencyForJob shell_env ?s = Some None" using f by (intro shell_available) simp_all
  moreover have "x_quota shell_env = (\<lambda>_ _. None)" "x_skip shell_env = (\<lambda>_. False)" by (simp_all add: shell_env_def)
  ultimately show ?thesis using v by (simp add: scheduleJob_def admit_job_def)
qed


theorem schedule_failure_leaks_witness:
  "\<exists>s' e a. start_job shell_env ((shell_waiting (shell_manager [shell_request CANCELLED []] []))\<lparr>fs_revertState := PENDING,
       fs_JobDefinition := Some shell_ready\<rparr>) = Some (s', e) \<and>
     jr_JobState (fs_Request s') \<in> {FAILED, CANCELLED} \<and> holds (fs_rm s') a ''r'' ''t''"
proof -
  let ?w = "shell_manager [shell_request CANCELLED []] []"
  let ?s = "(shell_waiting ?w)\<lparr>fs_revertState := PENDING, fs_JobDefinition := Some shell_ready\<rparr>"
  let ?x = "(NewJobExecution 5 ''r'' ''j'' [] [] [])\<lparr>je_UpdatedAt := 5, je_ID := ''x'', je_Active := True, je_Tasks := []\<rparr>"
  have f: "fs_rm ?s = sample_state" "fs_Request ?s = shell_request PENDING []" "fs_JobExecution ?s = None" "fs_jm ?s = ?w"
    by (simp_all add: shell_waiting_def NewJobExecutionStateMachine_def)
  obtain s1 rs rm where s1: "fsm_ReserveJobResources shell_env shell_ready ?s = (s1, None)" "s1 = ?s\<lparr>fs_Reservations := Some rs, fs_rm := rm\<rparr>"
    using shell_reserves[OF f(1)] .
  have g: "fs_Request s1 = shell_request PENDING []" "fs_jm s1 = ?w" "fs_JobDefinition s1 = Some shell_ready" "fs_JobExecution s1 = None"
    using f(2-4) s1(2) by simp_all
  obtain s2 where r: "ready_execution shell_env s1 = (s2, None)" and s2: "fs_JobExecution s2 = Some ?x" "fs_Request s2 = fs_Request s1"
    "fs_JobDefinition s2 = fs_JobDefinition s1" and db: "jm_db (fs_jm s2) = (jm_db (fs_jm s1))\<lparr>db_execs := [?x]\<rparr>"
    using shell_ready_execution[OF g(1,2)] by blast
  have "\<exists>db. SetReadyToExecute mem_engine 5 ''r'' ''x'' [] (jm_db (fs_jm s2)) = (db, Some NotFoundError)"
    unfolding db g(2) by (simp add: SetReadyToExecute_def mem_engine_def mem_table_def update_one_def update_requests_def
      shell_manager_def shell_request_def NewRequest_def)
  then obtain d where d: "SetReadyToExecute mem_engine 5 ''r'' ''x'' [] (jm_db (fs_jm s2)) = (d, Some NotFoundError)" by blast
  have q: "jr_ID (fs_Request s2) = ''r''" "jr_LastJobExecutionID (fs_Request s2) = []" "jr_JobState (fs_Request s1) = PENDING"
    using s2(2) g(1) by (simp_all add: shell_request_def NewRequest_def)
  define s3 where "s3 = s2\<lparr>fs_jm := (fs_jm s2)\<lparr>jm_db := d\<rparr>\<rparr>"
  have c: "fsm_CreateJobExecution shell_env s1 = Some (s3, Some (NotReady (Repo NotFoundError)), None)"
    using r s2(1) d q by (simp add: fsm_CreateJobExecution_def g(4) s3_def)
  have "\<not> jr_CronTriggered (fs_Request s3)" "fs_JobExecution s3 = Some ?x" "je_StartedAt ?x = v_now (x_jm shell_env)"
    "fs_JobDefinition s3 = Some shell_ready"
    using s2 g(1,3) by (simp_all add: s3_def shell_request_def NewRequest_def NewJobExecution_def)
  from failed_returns[OF this] obtain s' e where "ScheduleFailed shell_env (NotReady (Repo NotFoundError)) ''ERR_JOB_EXECUTE'' s3 = Some (s', e)"
    unfolding ScheduleFailed_def by blast
  then have run: "start_job shell_env ?s = Some (s', e)" using s1(1) c by (simp add: start_job_def)
  have "distinct (map td_TaskType (jd_Tasks shell_ready))" "fs_JobDefinition ?s = Some shell_ready"
    by (simp_all add: shell_ready_def shell_job_def)
  from schedule_failure_leaks[OF _ _ this(2,1) s1(1) c run] f(1,2) run show ?thesis
    by (auto simp: sample_inv sample_ledger shell_ready_def shell_job_def NewTaskDefinition_def shell_request_def)
qed


end
