(* ===== verification/Spec2Isabelle.thy ===== *)
theory Spec2Isabelle
  imports Job_Definition Resource_Manager Job_Request User_Context Approval_Service Request_Repository
    Execution_Repository Lru_Cache Rolling_Stats Job_Stats Retention_Manager Job_Scheduler
begin

text \<open>
  Verification of formicary, an orchestration engine for jobs written in Go.

  \<^bold>\<open>The program.\<close>  A \<^emph>\<open>job definition\<close> is a graph of tasks.  A \<^emph>\<open>job request\<close> asks for one run of a
  definition and moves through the request states; its run is a \<^emph>\<open>job execution\<close> with one \<^emph>\<open>task
  execution\<close> per task.  The queen server stores definitions, requests and executions in a database,
  reserves \<^emph>\<open>ants\<close> (the workers) for the tasks, sends them the tasks over a queue, and waits for people
  to approve tasks that ask for it.

  \<^bold>\<open>Theories and sources\<close> (paths below \<open>src/\<close>).
  \<^item> \<open>Formicary_Prelude\<close>: Go strings, maps (association lists with distinct keys), 64-bit integers,
    results with errors, and the collections of lemmas.
  \<^item> \<open>Request_State\<close>, \<open>Task_Method\<close>: \<open>internal/types/request_state.go\<close>, \<open>task_method.go\<close>; the table of
    transitions, and that COMPLETED is reached only through execution and never left.
  \<^item> \<open>Name_Value\<close>: \<open>internal/types/name_type_value.go\<close> and the rows with lookup map that requests,
    executions and tasks share; the locales \<open>named_store\<close> and \<open>named_store_delete\<close> state the contract
    of a store of named rows and are interpreted in \<open>Task_Execution\<close>, \<open>Job_Execution\<close> and \<open>Job_Request\<close>.
  \<^item> \<open>Task_Definition\<close>, \<open>Job_Definition\<close>: \<open>queen/types/task_definition.go\<close>, \<open>job_definition.go\<close>,
    \<open>trigger_definition.go\<close>, \<open>internal/types/fan_out_config.go\<close>, \<open>error_code.go\<close>, \<open>job_notify_config.go\<close>;
    validation gives a graph with a unique first task in which every step leads to a task.
  \<^item> \<open>Task_Execution\<close>, \<open>Job_Execution\<close>, \<open>Job_Request\<close>: the records of \<open>queen/types\<close> of the same names with
    their contexts, parameters, validation, loading and comparison.
  \<^item> \<open>Ant_Types\<close>, \<open>Resource_State\<close>, \<open>Resource_Ledger\<close>, \<open>Resource_Manager\<close>: \<open>internal/types/ant_registration.go\<close>,
    \<open>ant_reservation.go\<close>, \<open>internal/events/container_event.go\<close>, \<open>internal/utils/string_helper.go\<close> and
    \<open>queen/resource\<close>.  A nil dereference or a write to a nil map is an error value.  \<open>Resource_Ledger\<close>
    describes every operation by the set of ants held; the locale \<open>ant_pool\<close> states what the reservation
    of a whole job needs of the state and is interpreted on it.
  \<^item> \<open>Access_Control\<close>, \<open>User_Context\<close>: \<open>internal/acl\<close> and \<open>internal/types/user.go\<close>, \<open>organization.go\<close>,
    \<open>query_context.go\<close>; texts of permissions and roles, caches, and the filters that scope a query.
  \<^item> \<open>Database\<close>: the tables as lists of rows.  The engine (gorm and its driver) is a parameter: the
    record \<open>db_engine\<close> with the laws of the locale \<open>sql_engine\<close>, which say what a statement or a
    transaction that reports success has done.  Any statement may fail.  \<open>mem_engine\<close> shows that the
    laws can hold; \<open>reliable_engine\<close> (in \<open>Job_Manager\<close>) adds that statements do not fail.
  \<^item> \<open>Request_Repository\<close>, \<open>Execution_Repository\<close>: the repositories of \<open>queen/repository\<close> for requests and
    executions, statement by statement.
  \<^item> \<open>Approval_Policy\<close>, \<open>Approval_Service\<close>: \<open>queen/types/approval_*.go\<close> and \<open>queen/approval\<close>; votes,
    quorum, decisions and deadlines, with sequences of calls as a step relation.
  \<^item> \<open>Lru_Cache\<close>, \<open>Rolling_Stats\<close>: \<open>internal/utils/lru.go\<close> on an explicit store of list elements, refining a
    list of entries; \<open>internal/math\<close>.
  \<^item> \<open>Job_Stats\<close>: \<open>queen/stats\<close>; counters keep their 32 and 64 bits, and the registry refines the
    sets of requests that run and wait.
  \<^item> \<open>Retention_Manager\<close>: \<open>queen/manager/retention_manager.go\<close>; loops that may run forever are partial
    functions, and that they end is proved.
  \<^item> \<open>Job_Manager\<close>, \<open>Job_Submission\<close>: \<open>queen/manager/job_manager.go\<close>, on top of the repositories and the
    statistics, and \<open>queen/tasklet/job_fork_tasklet.go\<close>; cancellation with its breadth-first cascade, and
    saving, submitting, forking, finalizing and scheduling of requests.
  \<^item> \<open>Job_Fsm\<close>: \<open>queen/fsm/job_execution_state.go\<close>, the state machine of a job over the job manager and the
    ledger of ants; None is a nil dereference.  Every operation is described by what it leaves alone
    (\<open>keeps\<close>) and by what it saves; a job that stops for a while gives its ants back, and one that asks to
    be restarted is not put back into the queue.
  \<^item> \<open>Job_Scheduler\<close>: \<open>scheduleJob\<close> of \<open>queen/scheduler/job_scheduler.go\<close>; where the ants of a request are after
    each way the step can end, and that waiting for ants is bounded.

  \<^bold>\<open>Conventions.\<close>  A struct is a record whose fields carry a prefix; an operation that changes its receiver
  returns it; an error is \<open>Inl\<close>.  Times are nanoseconds.  Clocks, new ids, the cipher, the parser of
  cron expressions, templates and the engine are parameters of the definitions that use them, with
  what is assumed of them as hypotheses.  Locks make the operations of a component atomic, so
  interleavings are sequences of operations; goroutines started by an operation are values that run
  later.  Logging, metrics and printing are left out.

  \<^bold>\<open>Bounds.\<close>  There is no fuel: recursion is structural, or has a measure (the cascade of cancellations
  decreases the multiset of remaining depths), or is a \<open>partial_function\<close>.  Durations and offsets that
  can overflow are taken modulo \<open>2 ^ 64\<close> (\<open>i64\<close>) and counters are words.

  \<^bold>\<open>Not modelled.\<close>
  \<^item> The ants (\<open>ants/\<close>): executors for Kubernetes, Docker, shell and HTTP, transfer of artifacts, log streams;
    they drive external systems.
  \<^item> Messaging and storage (\<open>internal/queue\<close>, \<open>internal/artifacts\<close>, \<open>internal/cache\<close>, \<open>internal/async\<close>): clients of
    Kafka, Pulsar, Redis and S3.
  \<^item> The interfaces (\<open>queen/controller\<close>, \<open>queen/service\<close>, \<open>queen/gateway\<close>, \<open>internal/web\<close>, \<open>internal/grpc\<close>,
    \<open>queen/server\<close>) and the code generated from protocol buffers (\<open>gen/\<close>): they translate and forward.
  \<^item> The loops around the modelled steps (\<open>queen/supervisor\<close>, \<open>queen/launcher\<close>, \<open>queen/fsm/task_execution_state.go\<close>, the
    ticker and subscriptions of \<open>queen/scheduler\<close>): goroutines that wait for messages and timers.
  \<^item> Users, sessions and artifacts (\<open>queen/manager/user_manager.go\<close>, \<open>artifact_manager.go\<close>, \<open>queen/security\<close>) and the
    repositories of the tables not named above: mapping of rows and external accounts.
  \<^item> Templates, YAML and JSON, diagrams, notifications by mail and Slack, webhooks, triggers from queues,
    tasklets, configuration and tracing.
\<close>

end
